(* ===== verification/Go_Base.thy ===== *)
theory Go_Base
  imports Main "HOL-Library.Word"
begin

text \<open>
  The prelude of the development: what of the Go language every component uses.
  Machine integers are words at their width (\<open>u8\<close> to \<open>u64\<close>; a signed Go integer is
  the word with the same bits, read with \<open>sint\<close>).  A run-time panic is a value of
  \<open>go_panic\<close> and a computation that may panic returns \<open>go_panic + 'a\<close>, so that every
  slice access, nil-map write and type assertion of the source is a visible branch.
\<close>

named_theorems go_simps "unfolding rules for computations that may fail"

type_synonym u8 = "8 word"
type_synonym u16 = "16 word"
type_synonym u32 = "32 word"
type_synonym u64 = "64 word"
type_synonym i32 = "32 word"
type_synonym i64 = "64 word"

datatype go_panic =
    IndexOutOfRange
  | DivideByZero
  | NilMapWrite
  | NilDereference
  | TypeAssertion
  | ExplicitPanic string

definition go_bind :: "'e + 'a \<Rightarrow> ('a \<Rightarrow> 'e + 'b) \<Rightarrow> 'e + 'b" where
  "go_bind m f = (case m of Inl e \<Rightarrow> Inl e | Inr a \<Rightarrow> f a)"

lemma go_bind_Inr [simp]: "go_bind (Inr a) f = f a"
  by (simp add: go_bind_def)

lemma go_bind_Inl [simp]: "go_bind (Inl e) f = Inl e"
  by (simp add: go_bind_def)

lemma go_bind_eq_Inr [go_simps]:
  "go_bind m f = Inr b \<longleftrightarrow> (\<exists>a. m = Inr a \<and> f a = Inr b)"
  by (cases m) auto

lemma go_bind_eq_Inl [go_simps]:
  "go_bind m f = Inl e \<longleftrightarrow> m = Inl e \<or> (\<exists>a. m = Inr a \<and> f a = Inl e)"
  by (cases m) auto

text \<open>Reading and writing a slice element: Go panics out of range.\<close>

definition slice_get :: "'a list \<Rightarrow> nat \<Rightarrow> go_panic + 'a" where
  "slice_get xs i = (if i < length xs then Inr (xs ! i) else Inl IndexOutOfRange)"

definition slice_set :: "'a list \<Rightarrow> nat \<Rightarrow> 'a \<Rightarrow> go_panic + 'a list" where
  "slice_set xs i x = (if i < length xs then Inr (xs[i := x]) else Inl IndexOutOfRange)"

lemma slice_get_in [simp]: "i < length xs \<Longrightarrow> slice_get xs i = Inr (xs ! i)"
  by (simp add: slice_get_def)

lemma slice_set_in [simp]: "i < length xs \<Longrightarrow> slice_set xs i x = Inr (xs[i := x])"
  by (simp add: slice_set_def)

lemma slice_get_eq_Inr [go_simps]: "slice_get xs i = Inr x \<longleftrightarrow> i < length xs \<and> x = xs ! i"
  by (auto simp: slice_get_def)

text \<open>The \<open>for \<dots> range\<close> loop that fills a slice, stopping at the first panic or error.\<close>

fun go_mapM :: "('a \<Rightarrow> 'e + 'b) \<Rightarrow> 'a list \<Rightarrow> 'e + 'b list" where
  "go_mapM f [] = Inr []"
| "go_mapM f (x # xs) = go_bind (f x) (\<lambda>y. go_bind (go_mapM f xs) (\<lambda>ys. Inr (y # ys)))"

lemma go_mapM_Inr: "(\<And>x. x \<in> set xs \<Longrightarrow> f x = Inr (g x)) \<Longrightarrow> go_mapM f xs = Inr (map g xs)"
  by (induction xs) auto

lemma go_mapM_length: "go_mapM f xs = Inr ys \<Longrightarrow> length ys = length xs"
  by (induction xs arbitrary: ys) (auto simp: go_simps)

text \<open>The \<open>for \<dots> range\<close> loop that updates a state, stopping at the first panic or error.\<close>

fun go_foldM :: "('a \<Rightarrow> 's \<Rightarrow> 'e + 's) \<Rightarrow> 'a list \<Rightarrow> 's \<Rightarrow> 'e + 's" where
  "go_foldM f [] s = Inr s"
| "go_foldM f (x # xs) s = go_bind (f x s) (go_foldM f xs)"

lemma go_foldM_append:
  "go_foldM f (xs @ ys) s = go_bind (go_foldM f xs s) (go_foldM f ys)"
  by (induction xs arbitrary: s) (auto simp: go_bind_def split: sum.splits)

lemma go_foldM_invariant:
  assumes "\<And>x s s'. x \<in> set xs \<Longrightarrow> I s \<Longrightarrow> f x s = Inr s' \<Longrightarrow> I s'"
    and "I s" and "go_foldM f xs s = Inr s'"
  shows "I s'"
  using assms by (induction xs arbitrary: s) (auto simp: go_simps)

lemma go_foldM_total:
  assumes "\<And>x s. x \<in> set xs \<Longrightarrow> I s \<Longrightarrow> \<exists>s'. f x s = Inr s' \<and> I s'" and "I s"
  shows "\<exists>s'. go_foldM f xs s = Inr s' \<and> I s'"
  using assms
proof (induction xs arbitrary: s)
  case Nil
  then show ?case by simp
next
  case (Cons x xs)
  from Cons.prems obtain s1 where s1: "f x s = Inr s1" "I s1" by force
  with Cons.IH [of s1] Cons.prems(1) show ?case by simp
qed

lemma map_sum_eq_Inr [go_simps]: "map_sum f g r = Inr y \<longleftrightarrow> (\<exists>x. r = Inr x \<and> y = g x)"
  by (cases r) auto

lemma map_sum_eq_Inl [go_simps]: "map_sum f g r = Inl y \<longleftrightarrow> (\<exists>x. r = Inl x \<and> y = f x)"
  by (cases r) auto

end
