(* ===== verification/Pair_Cache.thy ===== *)
theory Pair_Cache
  imports Go_Base
begin

text \<open>
  The contract the flow stitcher (\<open>pkg/stitch/stitch.go\<close>) relies on for its cache: a
  store of one-shot entries.  \<open>put\<close> stores a value under a key, \<open>take\<close> returns the value
  and forgets the key.  \<open>Ring_Buffer\<close> provides it, \<open>Stitch\<close> uses it.
\<close>

locale pair_cache =
  fixes invar :: "'c \<Rightarrow> bool"
    and put :: "'c \<Rightarrow> 'k \<Rightarrow> 'v \<Rightarrow> go_panic + 'c"
    and take :: "'c \<Rightarrow> 'k \<Rightarrow> go_panic + 'v option \<times> 'c"
  assumes put_ok: "invar c \<Longrightarrow> \<exists>c'. put c k v = Inr c' \<and> invar c'"
    and take_ok: "invar c \<Longrightarrow> \<exists>x c'. take c k = Inr (x, c') \<and> invar c'"
    and take_put: "invar c \<Longrightarrow> put c k v = Inr c' \<Longrightarrow> \<exists>c''. take c' k = Inr (Some v, c'')"
    and take_take: "invar c \<Longrightarrow> take c k = Inr (x, c') \<Longrightarrow> take c' k = Inr (None, c')"
begin

lemma put_invar: "invar c \<Longrightarrow> put c k v = Inr c' \<Longrightarrow> invar c'"
  using put_ok [of c k v] by auto

lemma take_invar: "invar c \<Longrightarrow> take c k = Inr (x, c') \<Longrightarrow> invar c'"
  using take_ok [of c k] by auto

text \<open>A stored value is handed out exactly once.\<close>

lemma handed_out_once:
  assumes "invar c" and "put c k v = Inr c1"
  shows "\<exists>c2. take c1 k = Inr (Some v, c2) \<and> invar c2 \<and> take c2 k = Inr (None, c2)"
proof -
  have i1: "invar c1" using assms by (rule put_invar)
  obtain c2 where c2: "take c1 k = Inr (Some v, c2)" using take_put [OF assms] by blast
  then show ?thesis using take_invar [OF i1 c2] take_take [OF i1 c2] by blast
qed

end

end
