(* ===== verification/Ring_Buffer.thy ===== *)
theory Ring_Buffer
  imports Pair_Cache
begin

text \<open>
  The fixed-capacity ring buffer of \<open>pkg/stitch/ringbuffer/ringbuffer.go\<close>: a backing
  slice, a companion index from keys to slots, and head, tail and size.  Slots and sizes
  are \<open>nat\<close>: they stay below twice the capacity of a slice the program has allocated.
  The not-found answer \<open>(zero, false)\<close> is \<open>None\<close>; Go's zero value of the element type is
  the argument \<open>zero\<close> of \<open>RingBuffer_New\<close>.

  The representation invariant \<open>ring_inv\<close> holds after every operation.  \<open>ring_exact\<close> is
  the stronger invariant of a buffer that was only ever filled with \<open>Put\<close>: there the
  buffer refines a bounded first-in-first-out association list.
\<close>

section \<open>Model\<close>

record 'v ring_entry =
  entry_key :: string
  entry_value :: 'v

record 'v RingBuffer =
  rb_data :: "'v ring_entry list"
  rb_index :: "string \<Rightarrow> nat option"
  rb_head :: nat
  rb_tail :: nat
  rb_size :: nat
  rb_capacity :: nat

definition RingBuffer_New :: "'v \<Rightarrow> int \<Rightarrow> go_panic + 'v RingBuffer" where
  "RingBuffer_New zero capacity =
     (if capacity < 1 then Inl (ExplicitPanic ''ringbuffer: capacity must be at least 1'')
      else Inr \<lparr>rb_data = replicate (nat capacity) \<lparr>entry_key = '''', entry_value = zero\<rparr>,
                rb_index = Map.empty, rb_head = 0, rb_tail = 0, rb_size = 0,
                rb_capacity = nat capacity\<rparr>)"

text \<open>\<open>(i + 1) % capacity\<close>: Go panics on a zero divisor.\<close>

definition next_slot :: "nat \<Rightarrow> nat \<Rightarrow> go_panic + nat" where
  "next_slot i capacity = (if capacity = 0 then Inl DivideByZero else Inr ((i + 1) mod capacity))"

definition RingBuffer_Put :: "'v RingBuffer \<Rightarrow> string \<Rightarrow> 'v \<Rightarrow> go_panic + 'v RingBuffer" where
  "RingBuffer_Put r key value =
     (case rb_index r key of
        Some slot \<Rightarrow>
          go_bind (slice_get (rb_data r) slot) (\<lambda>e.
          go_bind (slice_set (rb_data r) slot (e\<lparr>entry_value := value\<rparr>)) (\<lambda>d.
          Inr (r\<lparr>rb_data := d\<rparr>)))
      | None \<Rightarrow>
          go_bind
            (if rb_size r = rb_capacity r then
               go_bind (slice_get (rb_data r) (rb_head r)) (\<lambda>evicted.
               go_bind (next_slot (rb_head r) (rb_capacity r)) (\<lambda>h.
               Inr (r\<lparr>rb_index := (rb_index r)(entry_key evicted := None), rb_head := h\<rparr>)))
             else Inr (r\<lparr>rb_size := rb_size r + 1\<rparr>))
          (\<lambda>r1.
            go_bind (slice_set (rb_data r1) (rb_tail r1)
                       \<lparr>entry_key = key, entry_value = value\<rparr>) (\<lambda>d.
            go_bind (next_slot (rb_tail r1) (rb_capacity r1)) (\<lambda>t.
            Inr (r1\<lparr>rb_data := d, rb_index := (rb_index r1)(key \<mapsto> rb_tail r1), rb_tail := t\<rparr>)))))"

definition RingBuffer_Get :: "'v RingBuffer \<Rightarrow> string \<Rightarrow> go_panic + 'v option" where
  "RingBuffer_Get r key =
     (case rb_index r key of
        None \<Rightarrow> Inr None
      | Some slot \<Rightarrow> go_bind (slice_get (rb_data r) slot) (\<lambda>e. Inr (Some (entry_value e))))"

definition RingBuffer_GetAndDelete ::
    "'v RingBuffer \<Rightarrow> string \<Rightarrow> go_panic + 'v option \<times> 'v RingBuffer" where
  "RingBuffer_GetAndDelete r key =
     (case rb_index r key of
        None \<Rightarrow> Inr (None, r)
      | Some slot \<Rightarrow>
          go_bind (slice_get (rb_data r) slot) (\<lambda>e.
          Inr (Some (entry_value e), r\<lparr>rb_index := (rb_index r)(key := None)\<rparr>)))"

definition RingBuffer_Contains :: "'v RingBuffer \<Rightarrow> string \<Rightarrow> bool" where
  "RingBuffer_Contains r key = (rb_index r key \<noteq> None)"

text \<open>The public \<open>Entry\<close> is the pair of key and value.\<close>

definition RingBuffer_Oldest :: "'v RingBuffer \<Rightarrow> go_panic + (string \<times> 'v) option" where
  "RingBuffer_Oldest r =
     (if rb_size r = 0 then Inr None
      else go_bind (slice_get (rb_data r) (rb_head r)) (\<lambda>e.
           Inr (Some (entry_key e, entry_value e))))"

definition RingBuffer_Newest :: "'v RingBuffer \<Rightarrow> go_panic + (string \<times> 'v) option" where
  "RingBuffer_Newest r =
     (if rb_size r = 0 then Inr None
      else if rb_capacity r = 0 then Inl DivideByZero
      else go_bind (slice_get (rb_data r) ((rb_tail r + rb_capacity r - 1) mod rb_capacity r)) (\<lambda>e.
           Inr (Some (entry_key e, entry_value e))))"

definition ring_nth :: "'v RingBuffer \<Rightarrow> nat \<Rightarrow> go_panic + 'v ring_entry" where
  "ring_nth r i =
     (if rb_capacity r = 0 then Inl DivideByZero
      else slice_get (rb_data r) ((rb_head r + i) mod rb_capacity r))"

definition RingBuffer_Entries :: "'v RingBuffer \<Rightarrow> go_panic + (string \<times> 'v) list" where
  "RingBuffer_Entries r =
     go_mapM (\<lambda>i. go_bind (ring_nth r i) (\<lambda>e. Inr (entry_key e, entry_value e))) [0..<rb_size r]"

definition RingBuffer_Keys :: "'v RingBuffer \<Rightarrow> go_panic + string list" where
  "RingBuffer_Keys r =
     go_mapM (\<lambda>i. go_bind (ring_nth r i) (\<lambda>e. Inr (entry_key e))) [0..<rb_size r]"

definition RingBuffer_Len :: "'v RingBuffer \<Rightarrow> nat" where
  "RingBuffer_Len r = rb_size r"

definition RingBuffer_Cap :: "'v RingBuffer \<Rightarrow> nat" where
  "RingBuffer_Cap r = rb_capacity r"

definition RingBuffer_IsFull :: "'v RingBuffer \<Rightarrow> bool" where
  "RingBuffer_IsFull r = (rb_size r = rb_capacity r)"

section \<open>The representation invariant\<close>

definition slot_of :: "'v RingBuffer \<Rightarrow> nat \<Rightarrow> nat" where
  "slot_of r i = (rb_head r + i) mod rb_capacity r"

definition ring_wf :: "'v RingBuffer \<Rightarrow> bool" where
  "ring_wf r \<longleftrightarrow> 0 < rb_capacity r \<and> length (rb_data r) = rb_capacity r \<and>
     rb_head r < rb_capacity r \<and> rb_size r \<le> rb_capacity r \<and>
     rb_tail r = (rb_head r + rb_size r) mod rb_capacity r"

text \<open>
  Every indexed key points to a live slot (one of the \<open>size\<close> slots from the head on)
  that holds this key.  The converse does not hold: \<open>GetAndDelete\<close> leaves a live slot
  that the index no longer knows.
\<close>

definition ring_inv :: "'v RingBuffer \<Rightarrow> bool" where
  "ring_inv r \<longleftrightarrow> ring_wf r \<and>
     (\<forall>k s. rb_index r k = Some s \<longrightarrow>
        (\<exists>i < rb_size r. s = slot_of r i \<and> entry_key (rb_data r ! s) = k))"

definition ring_exact :: "'v RingBuffer \<Rightarrow> bool" where
  "ring_exact r \<longleftrightarrow> ring_inv r \<and>
     (\<forall>i < rb_size r. rb_index r (entry_key (rb_data r ! slot_of r i)) = Some (slot_of r i))"

definition ring_list :: "'v RingBuffer \<Rightarrow> (string \<times> 'v) list" where
  "ring_list r = map (\<lambda>i. (entry_key (rb_data r ! slot_of r i), entry_value (rb_data r ! slot_of r i)))
     [0..<rb_size r]"

lemma mod_add_inject:
  fixes c :: nat
  assumes "i < c" "j < c" "(h + i) mod c = (h + j) mod c"
  shows "i = j"
proof -
  have "int (h + i) mod int c = int (h + j) mod int c"
    using assms(3) by (metis of_nat_mod)
  then have "int c dvd int i - int j"
    by (simp add: mod_eq_dvd_iff)
  moreover have "\<bar>int i - int j\<bar> < int c" using assms(1,2) by auto
  ultimately show "i = j"
    using zdvd_not_zless [of "\<bar>int i - int j\<bar>" "int c"] by (cases "i = j") auto
qed

lemma slot_of_less: "ring_wf r \<Longrightarrow> slot_of r i < rb_capacity r"
  by (simp add: slot_of_def ring_wf_def)

lemma slot_of_inject:
  "\<lbrakk>ring_wf r; i < rb_capacity r; j < rb_capacity r; slot_of r i = slot_of r j\<rbrakk> \<Longrightarrow> i = j"
  unfolding slot_of_def by (rule mod_add_inject)

lemma slot_of_0: "ring_wf r \<Longrightarrow> slot_of r 0 = rb_head r"
  by (simp add: slot_of_def ring_wf_def)

lemma slot_of_size: "ring_wf r \<Longrightarrow> slot_of r (rb_size r) = rb_tail r"
  by (simp add: slot_of_def ring_wf_def)

lemma ring_exact_inv: "ring_exact r \<Longrightarrow> ring_inv r"
  by (simp add: ring_exact_def)

lemma ring_inv_wf: "ring_inv r \<Longrightarrow> ring_wf r"
  by (simp add: ring_inv_def)

lemma ring_inv_indexed:
  assumes "ring_inv r" "rb_index r k = Some s"
  obtains i where "i < rb_size r" "s = slot_of r i" "entry_key (rb_data r ! s) = k"
    "s < length (rb_data r)"
proof -
  from assms obtain i where i: "i < rb_size r" "s = slot_of r i" "entry_key (rb_data r ! s) = k"
    by (auto simp: ring_inv_def)
  moreover have "s < length (rb_data r)"
    using i(2) slot_of_less [OF ring_inv_wf [OF assms(1)]] ring_inv_wf [OF assms(1)]
    by (simp add: ring_wf_def)
  ultimately show thesis using that by blast
qed

subsection \<open>Construction and observation\<close>

lemma ring_indexed_listed:
  assumes "ring_inv r" "rb_index r k = Some s"
  shows "k \<in> fst ` set (ring_list r)"
proof -
  from assms obtain i where "i < rb_size r" "entry_key (rb_data r ! slot_of r i) = k"
    by (auto elim: ring_inv_indexed [of r k s])
  then show ?thesis by (force simp: ring_list_def)
qed

lemma RingBuffer_New_exact:
  assumes "1 \<le> capacity"
  shows "\<exists>r. RingBuffer_New zero capacity = Inr r \<and> ring_exact r \<and> ring_list r = [] \<and>
    rb_capacity r = nat capacity"
  using assms by (simp add: RingBuffer_New_def ring_exact_def ring_inv_def ring_wf_def ring_list_def)

lemma RingBuffer_Entries_list: "ring_wf r \<Longrightarrow> RingBuffer_Entries r = Inr (ring_list r)"
  unfolding RingBuffer_Entries_def ring_list_def
  by (rule go_mapM_Inr) (use slot_of_less in \<open>auto simp: ring_nth_def slot_of_def ring_wf_def\<close>)

lemma RingBuffer_Keys_list: "ring_wf r \<Longrightarrow> RingBuffer_Keys r = Inr (map fst (ring_list r))"
  unfolding RingBuffer_Keys_def ring_list_def
  using slot_of_less
  by (auto simp: ring_nth_def slot_of_def ring_wf_def comp_def intro!: go_mapM_Inr)

lemma ring_list_length [simp]: "length (ring_list r) = rb_size r"
  by (simp add: ring_list_def)

lemma ring_list_nth:
  "i < rb_size r \<Longrightarrow> ring_list r ! i =
     (entry_key (rb_data r ! slot_of r i), entry_value (rb_data r ! slot_of r i))"
  by (simp add: ring_list_def)

lemma ring_inv_Get:
  "ring_inv r \<Longrightarrow> RingBuffer_Get r k =
     Inr (map_option (\<lambda>s. entry_value (rb_data r ! s)) (rb_index r k))"
  by (auto simp: RingBuffer_Get_def split: option.splits elim: ring_inv_indexed)

lemma ring_inv_GetAndDelete:
  "ring_inv r \<Longrightarrow> RingBuffer_GetAndDelete r k =
     Inr (map_option (\<lambda>s. entry_value (rb_data r ! s)) (rb_index r k),
          r\<lparr>rb_index := (rb_index r)(k := None)\<rparr>)"
  by (auto simp: RingBuffer_GetAndDelete_def fun_upd_idem split: option.splits
      elim: ring_inv_indexed)

lemma ring_wf_update_index [simp]: "ring_wf (r\<lparr>rb_index := m\<rparr>) = ring_wf r"
  by (simp add: ring_wf_def)

lemma slot_of_update_index [simp]: "slot_of (r\<lparr>rb_index := m\<rparr>) i = slot_of r i"
  by (simp add: slot_of_def)

lemma ring_inv_delete:
  "ring_inv r \<Longrightarrow> ring_inv (r\<lparr>rb_index := (rb_index r)(k := None)\<rparr>)"
  by (auto simp: ring_inv_def split: if_splits)

subsection \<open>Insertion\<close>

text \<open>
  What \<open>Put\<close> does for a key that is not indexed, as one update: \<open>dropped\<close> is 1 when the
  buffer is full and the oldest slot is evicted.
\<close>

definition dropped :: "'v RingBuffer \<Rightarrow> nat" where
  "dropped r = (if rb_size r = rb_capacity r then 1 else 0)"

definition ring_push :: "'v RingBuffer \<Rightarrow> string \<Rightarrow> 'v \<Rightarrow> 'v RingBuffer" where
  "ring_push r k v = r
     \<lparr>rb_data := (rb_data r)[rb_tail r := \<lparr>entry_key = k, entry_value = v\<rparr>],
      rb_index := (if rb_size r = rb_capacity r
                   then (rb_index r)(entry_key (rb_data r ! rb_head r) := None)
                   else rb_index r)(k \<mapsto> rb_tail r),
      rb_head := (rb_head r + dropped r) mod rb_capacity r,
      rb_tail := (rb_tail r + 1) mod rb_capacity r,
      rb_size := rb_size r + 1 - dropped r\<rparr>"

lemma ring_wf_tail: "ring_wf r \<Longrightarrow> rb_tail r < rb_capacity r"
  by (simp add: ring_wf_def)

lemma RingBuffer_Put_fresh:
  "ring_wf r \<Longrightarrow> rb_index r k = None \<Longrightarrow> RingBuffer_Put r k v = Inr (ring_push r k v)"
  using ring_wf_tail [of r]
  by (auto simp: RingBuffer_Put_def ring_push_def dropped_def next_slot_def ring_wf_def)

lemma RingBuffer_Put_existing:
  assumes "ring_inv r" "rb_index r k = Some s"
  shows "RingBuffer_Put r k v =
    Inr (r\<lparr>rb_data := (rb_data r)[s := (rb_data r ! s)\<lparr>entry_value := v\<rparr>]\<rparr>)"
  using assms by (auto simp: RingBuffer_Put_def elim: ring_inv_indexed)

lemma ring_push_simps [simp]:
  "rb_capacity (ring_push r k v) = rb_capacity r"
  "rb_size (ring_push r k v) = rb_size r + 1 - dropped r"
  "rb_data (ring_push r k v) = (rb_data r)[rb_tail r := \<lparr>entry_key = k, entry_value = v\<rparr>]"
  by (simp_all add: ring_push_def)

lemma dropped_le_size: "ring_wf r \<Longrightarrow> dropped r \<le> rb_size r"
  by (auto simp: ring_wf_def dropped_def)

lemma slot_of_push: "slot_of (ring_push r k v) i = slot_of r (i + dropped r)"
proof -
  have "slot_of (ring_push r k v) i = ((rb_head r + dropped r) mod rb_capacity r + i) mod rb_capacity r"
    by (simp add: slot_of_def ring_push_def)
  also have "\<dots> = (rb_head r + dropped r + i) mod rb_capacity r" by (rule mod_add_left_eq)
  finally show ?thesis by (simp add: slot_of_def ac_simps)
qed

lemma ring_push_wf: "ring_wf r \<Longrightarrow> ring_wf (ring_push r k v)"
proof -
  assume wf: "ring_wf r"
  have "rb_tail (ring_push r k v) = (rb_tail r + 1) mod rb_capacity r"
    by (simp add: ring_push_def)
  also have "\<dots> = (rb_head r + rb_size r + 1) mod rb_capacity r"
    using wf by (simp only: ring_wf_def mod_add_left_eq)
  also have "\<dots> = slot_of r (rb_size (ring_push r k v) + dropped r)"
    using dropped_le_size [OF wf] by (simp add: slot_of_def)
  also have "\<dots> = slot_of (ring_push r k v) (rb_size (ring_push r k v))"
    by (rule slot_of_push [symmetric])
  finally have "rb_tail (ring_push r k v) = \<dots>" .
  with wf show ?thesis by (auto simp: ring_wf_def slot_of_def ring_push_def dropped_def)
qed

text \<open>The live slots that survive the eviction are not the one that is written.\<close>

lemma tail_not_survivor:
  assumes "ring_wf r" "dropped r \<le> j" "j < rb_size r"
  shows "slot_of r j \<noteq> rb_tail r"
proof (cases "rb_size r = rb_capacity r")
  case True
  then have "rb_tail r = slot_of r 0" "1 \<le> j" "j < rb_capacity r" "0 < rb_capacity r"
    using assms by (auto simp: ring_wf_def slot_of_def dropped_def)
  then show ?thesis using slot_of_inject [OF assms(1), of j 0] by auto
next
  case False
  then have "rb_size r < rb_capacity r" using assms(1) by (simp add: ring_wf_def)
  then show ?thesis
    using slot_of_inject [OF assms(1), of j "rb_size r"] slot_of_size [OF assms(1)] assms(3)
    by auto
qed

lemma ring_push_survivor:
  assumes "ring_wf r" "i + dropped r < rb_size r"
  shows "rb_data (ring_push r k v) ! slot_of (ring_push r k v) i = rb_data r ! slot_of r (i + dropped r)"
  using tail_not_survivor [OF assms(1), of "i + dropped r"] assms by (simp add: slot_of_push)

lemma ring_push_newest:
  assumes "ring_wf r" "i + dropped r = rb_size r"
  shows "slot_of (ring_push r k v) i = rb_tail r"
    and "rb_data (ring_push r k v) ! rb_tail r = \<lparr>entry_key = k, entry_value = v\<rparr>"
  using assms slot_of_size [OF assms(1)] ring_wf_tail [OF assms(1)]
  by (auto simp: slot_of_push ring_wf_def)

lemma ring_push_list:
  assumes "ring_wf r"
  shows "ring_list (ring_push r k v) = drop (dropped r) (ring_list r) @ [(k, v)]"
proof (rule nth_equalityI)
  show "length (ring_list (ring_push r k v)) = length (drop (dropped r) (ring_list r) @ [(k, v)])"
    using dropped_le_size [OF assms] by simp
next
  fix i
  assume "i < length (ring_list (ring_push r k v))"
  then have i: "i < rb_size r + 1 - dropped r" by simp
  show "ring_list (ring_push r k v) ! i = (drop (dropped r) (ring_list r) @ [(k, v)]) ! i"
  proof (cases "i + dropped r < rb_size r")
    case True
    with i show ?thesis
      using ring_push_survivor [OF assms True, of k v] less_diff_conv [of i "rb_size r" "dropped r"]
      by (simp add: ring_list_nth nth_append ac_simps)
  next
    case False
    then have eq: "i + dropped r = rb_size r" and "\<not> i < rb_size r - dropped r" using i by auto
    with i show ?thesis
      using ring_push_newest [OF assms eq, of k v]
      by (simp add: ring_list_nth nth_append ac_simps)
  qed
qed

lemma ring_push_index:
  "rb_index (ring_push r k v) k' =
     (if k' = k then Some (rb_tail r)
      else if dropped r = 1 \<and> k' = entry_key (rb_data r ! rb_head r) then None
      else rb_index r k')"
  by (auto simp: ring_push_def dropped_def)

lemma ring_push_inv:
  assumes inv: "ring_inv r" and fresh: "rb_index r k = None"
  shows "ring_inv (ring_push r k v)"
proof -
  have wf: "ring_wf r" using inv by (rule ring_inv_wf)
  have "\<exists>i < rb_size (ring_push r k v). s = slot_of (ring_push r k v) i \<and>
          entry_key (rb_data (ring_push r k v) ! s) = k'"
    if idx: "rb_index (ring_push r k v) k' = Some s" for k' s
  proof (cases "k' = k")
    case True
    have eq: "(rb_size r - dropped r) + dropped r = rb_size r"
      using dropped_le_size [OF wf] by simp
    show ?thesis
      using ring_push_newest [OF wf eq, of k v] idx True dropped_le_size [OF wf]
      by (intro exI [of _ "rb_size r - dropped r"]) (auto simp: ring_push_index)
  next
    case False
    with idx have idx0: "rb_index r k' = Some s"
      and keep: "\<not> (dropped r = 1 \<and> k' = entry_key (rb_data r ! rb_head r))"
      by (auto simp: ring_push_index split: if_splits)
    from inv idx0 obtain j where j: "j < rb_size r" "s = slot_of r j"
      "entry_key (rb_data r ! s) = k'" by (auto elim: ring_inv_indexed)
    have "j \<noteq> 0" if "dropped r = 1"
      using that keep j slot_of_0 [OF wf] by (metis One_nat_def)
    then have ge: "dropped r \<le> j" by (auto simp: dropped_def split: if_splits)
    then have ij: "j - dropped r + dropped r = j" by simp
    show ?thesis
      using ring_push_survivor [OF wf, of "j - dropped r" k v] j ge ij
      by (intro exI [of _ "j - dropped r"]) (auto simp: slot_of_push)
  qed
  with ring_push_wf [OF wf] show ?thesis unfolding ring_inv_def by blast
qed

lemma ring_update_inv:
  assumes inv: "ring_inv r" and idx: "rb_index r k = Some s"
  shows "ring_inv (r\<lparr>rb_data := (rb_data r)[s := (rb_data r ! s)\<lparr>entry_value := v\<rparr>]\<rparr>)"
    (is "ring_inv ?r'")
proof -
  have keys: "entry_key (rb_data ?r' ! t) = entry_key (rb_data r ! t)"
    if "t < length (rb_data r)" for t
    using that by (cases "t = s") auto
  have slots: "slot_of ?r' i = slot_of r i" for i by (simp add: slot_of_def)
  have "\<exists>i < rb_size ?r'. t = slot_of ?r' i \<and> entry_key (rb_data ?r' ! t) = k'"
    if "rb_index ?r' k' = Some t" for k' t
  proof -
    from that have "rb_index r k' = Some t" by simp
    with inv obtain i where "i < rb_size r" "t = slot_of r i" "entry_key (rb_data r ! t) = k'"
      "t < length (rb_data r)" by (rule ring_inv_indexed)
    then show ?thesis using keys [of t] slots [of i] by auto
  qed
  moreover have "ring_wf ?r'" using ring_inv_wf [OF inv] by (simp add: ring_wf_def)
  ultimately show ?thesis unfolding ring_inv_def by blast
qed

lemma RingBuffer_Put_inv:
  assumes "ring_inv r"
  shows "\<exists>r'. RingBuffer_Put r k v = Inr r' \<and> ring_inv r' \<and> rb_capacity r' = rb_capacity r"
proof (cases "rb_index r k")
  case None
  with assms show ?thesis
    using RingBuffer_Put_fresh [OF ring_inv_wf, of r k v] ring_push_inv [of r k v] by simp
next
  case (Some s)
  with assms show ?thesis
    using RingBuffer_Put_existing [OF assms Some, of v] ring_update_inv [OF assms Some, of v] by simp
qed

text \<open>A \<open>Put\<close> is answered by the next lookup of its key, whether the key was present or not.\<close>

lemma RingBuffer_Put_Get:
  assumes inv: "ring_inv r" and put: "RingBuffer_Put r k v = Inr r'"
  shows "RingBuffer_Get r' k = Inr (Some v)"
proof (cases "rb_index r k")
  case None
  then have r': "r' = ring_push r k v"
    using put RingBuffer_Put_fresh [OF ring_inv_wf [OF inv] None, of v] by simp
  then show ?thesis
    using ring_inv_Get [OF ring_push_inv [OF inv None], of v k]
      ring_wf_tail [OF ring_inv_wf [OF inv]] ring_inv_wf [OF inv]
    by (simp add: ring_push_index ring_wf_def)
next
  case (Some s)
  then have r': "r' = r\<lparr>rb_data := (rb_data r)[s := (rb_data r ! s)\<lparr>entry_value := v\<rparr>]\<rparr>"
    using put RingBuffer_Put_existing [OF inv Some, of v] by simp
  moreover have "s < length (rb_data r)" using inv Some by (rule ring_inv_indexed)
  ultimately show ?thesis
    using ring_inv_Get [OF ring_update_inv [OF inv Some, of v], of k] Some by simp
qed

section \<open>A buffer filled by Put alone is a bounded first-in-first-out map\<close>

text \<open>The abstract specification, on the list of entries from the oldest to the newest.\<close>

definition fifo_put :: "nat \<Rightarrow> string \<Rightarrow> 'v \<Rightarrow> (string \<times> 'v) list \<Rightarrow> (string \<times> 'v) list" where
  "fifo_put cap k v xs =
     (if k \<in> fst ` set xs then map (\<lambda>(k', v'). (k', if k' = k then v else v')) xs
      else (if length xs = cap then tl xs else xs) @ [(k, v)])"

lemma ring_exact_indexD:
  "ring_exact r \<Longrightarrow> i < rb_size r \<Longrightarrow>
     rb_index r (entry_key (rb_data r ! slot_of r i)) = Some (slot_of r i)"
  by (simp add: ring_exact_def)

lemma ring_exact_key_inject:
  assumes "ring_exact r" "i < rb_size r" "j < rb_size r"
    "entry_key (rb_data r ! slot_of r i) = entry_key (rb_data r ! slot_of r j)"
  shows "i = j"
proof -
  have wf: "ring_wf r" using assms(1) by (simp add: ring_exact_def ring_inv_def)
  have "slot_of r i = slot_of r j"
    using ring_exact_indexD [OF assms(1,2)] ring_exact_indexD [OF assms(1,3)] assms(4)
    by (metis option.inject)
  moreover have "i < rb_capacity r" "j < rb_capacity r" using wf assms(2,3) by (auto simp: ring_wf_def)
  ultimately show ?thesis by (rule slot_of_inject [OF wf, rotated 2])
qed

lemma ring_exact_distinct:
  assumes "ring_exact r"
  shows "distinct (map fst (ring_list r))"
  unfolding distinct_conv_nth
proof (intro allI impI)
  fix i j
  assume "i < length (map fst (ring_list r))" "j < length (map fst (ring_list r))" "i \<noteq> j"
  then show "map fst (ring_list r) ! i \<noteq> map fst (ring_list r) ! j"
    using ring_exact_key_inject [OF assms, of i j] by (auto simp: ring_list_nth)
qed

lemma ring_exact_mem:
  assumes "ring_exact r"
  shows "k \<in> fst ` set (ring_list r) \<longleftrightarrow> rb_index r k \<noteq> None"
proof
  assume "k \<in> fst ` set (ring_list r)"
  then obtain i where "i < rb_size r" "k = entry_key (rb_data r ! slot_of r i)"
    by (auto simp: ring_list_def)
  then show "rb_index r k \<noteq> None" using ring_exact_indexD [OF assms] by simp
next
  assume "rb_index r k \<noteq> None"
  then obtain i where "i < rb_size r" "entry_key (rb_data r ! slot_of r i) = k"
    using ring_exact_inv [OF assms] by (auto elim: ring_inv_indexed)
  then show "k \<in> fst ` set (ring_list r)" by (force simp: ring_list_def)
qed

lemma ring_exact_Get:
  assumes "ring_exact r"
  shows "RingBuffer_Get r k = Inr (map_of (ring_list r) k)"
proof (cases "rb_index r k")
  case None
  then have "map_of (ring_list r) k = None"
    using ring_exact_mem [OF assms, of k] by (simp add: map_of_eq_None_iff)
  with None show ?thesis using ring_inv_Get [OF ring_exact_inv [OF assms]] by simp
next
  case (Some s)
  then obtain i where i: "i < rb_size r" "s = slot_of r i" "entry_key (rb_data r ! s) = k"
    using ring_exact_inv [OF assms] by (auto elim: ring_inv_indexed)
  then have "(k, entry_value (rb_data r ! s)) \<in> set (ring_list r)" by (force simp: ring_list_def)
  then have "map_of (ring_list r) k = Some (entry_value (rb_data r ! s))"
    by (rule map_of_is_SomeI [OF ring_exact_distinct [OF assms]])
  with Some show ?thesis using ring_inv_Get [OF ring_exact_inv [OF assms]] by simp
qed

lemma ring_update_list:
  assumes "ring_exact r" "rb_index r k = Some s"
  shows "ring_list (r\<lparr>rb_data := (rb_data r)[s := (rb_data r ! s)\<lparr>entry_value := v\<rparr>]\<rparr>) =
    map (\<lambda>(k', v'). (k', if k' = k then v else v')) (ring_list r)" (is "ring_list ?r' = _")
proof (rule nth_equalityI)
  fix i
  assume "i < length (ring_list ?r')"
  then have i: "i < rb_size r" by simp
  have wf: "ring_wf r" using assms(1) by (simp add: ring_exact_def ring_inv_def)
  from ring_exact_inv [OF assms(1)] assms(2) have s: "entry_key (rb_data r ! s) = k" "s < length (rb_data r)"
    by (auto elim: ring_inv_indexed [of r k s])
  have "slot_of r i = s \<longleftrightarrow> entry_key (rb_data r ! slot_of r i) = k"
    using ring_exact_indexD [OF assms(1) i] assms(2) s(1) by (metis option.inject)
  moreover have "slot_of ?r' i = slot_of r i" by (simp add: slot_of_def)
  moreover have "slot_of r i < length (rb_data r)"
    using slot_of_less [OF wf] wf by (simp add: ring_wf_def)
  ultimately show "ring_list ?r' ! i = map (\<lambda>(k', v'). (k', if k' = k then v else v')) (ring_list r) ! i"
    using i s by (cases "slot_of r i = s") (auto simp: ring_list_nth)
qed simp

lemma ring_update_exact:
  assumes ex: "ring_exact r" and idx: "rb_index r k = Some s"
  shows "ring_exact (r\<lparr>rb_data := (rb_data r)[s := (rb_data r ! s)\<lparr>entry_value := v\<rparr>]\<rparr>)"
    (is "ring_exact ?r'")
proof -
  have wf: "ring_wf r" using ex by (simp add: ring_exact_def ring_inv_def)
  have "entry_key (rb_data ?r' ! slot_of ?r' i) = entry_key (rb_data r ! slot_of r i)" for i
    using slot_of_less [OF wf, of i] wf
    by (cases "slot_of r i = s") (auto simp: ring_wf_def slot_of_def)
  moreover have "slot_of ?r' i = slot_of r i" for i by (simp add: slot_of_def)
  ultimately show ?thesis
    using ex ring_update_inv [OF ring_exact_inv [OF ex] idx, of v] by (simp add: ring_exact_def)
qed

lemma ring_push_exact:
  assumes ex: "ring_exact r" and fresh: "rb_index r k = None"
  shows "ring_exact (ring_push r k v)"
proof -
  have wf: "ring_wf r" using ex by (simp add: ring_exact_def ring_inv_def)
  have "rb_index (ring_push r k v) (entry_key (rb_data (ring_push r k v) ! slot_of (ring_push r k v) i))
          = Some (slot_of (ring_push r k v) i)"
    if i: "i < rb_size (ring_push r k v)" for i
  proof (cases "i + dropped r < rb_size r")
    case True
    let ?k = "entry_key (rb_data r ! slot_of r (i + dropped r))"
    have idx: "rb_index r ?k = Some (slot_of r (i + dropped r))"
      using ring_exact_indexD [OF ex True] .
    have "?k \<noteq> k" using idx fresh by auto
    moreover have "?k \<noteq> entry_key (rb_data r ! rb_head r)" if "dropped r = 1"
      using ring_exact_key_inject [OF ex True, of 0] that True slot_of_0 [OF wf] by fastforce
    ultimately show ?thesis
      using ring_push_survivor [OF wf True, of k v] idx
      by (simp add: ring_push_index slot_of_push)
  next
    case False
    with i have "i + dropped r = rb_size r" by simp
    from ring_push_newest [OF wf this, of k v] show ?thesis
      by (simp only: ring_push_index ring_entry.simps if_True refl)
  qed
  with ring_push_inv [OF ring_exact_inv [OF ex] fresh] show ?thesis
    unfolding ring_exact_def by blast
qed

lemma drop_dropped: "ring_wf r \<Longrightarrow> drop (dropped r) (ring_list r) =
    (if length (ring_list r) = rb_capacity r then tl (ring_list r) else ring_list r)"
  by (simp add: dropped_def drop_Suc)

lemma RingBuffer_Put_refines_fifo:
  assumes "ring_exact r"
  shows "\<exists>r'. RingBuffer_Put r k v = Inr r' \<and> ring_exact r' \<and> rb_capacity r' = rb_capacity r \<and>
    ring_list r' = fifo_put (rb_capacity r) k v (ring_list r)"
proof (cases "rb_index r k")
  case None
  have wf: "ring_wf r" using assms by (simp add: ring_exact_def ring_inv_def)
  from None show ?thesis
    using RingBuffer_Put_fresh [OF wf None, of v] ring_push_exact [OF assms None, of v]
      ring_push_list [OF wf, of k v] drop_dropped [OF wf] ring_exact_mem [OF assms, of k]
    by (simp add: fifo_put_def)
next
  case (Some s)
  then show ?thesis
    using RingBuffer_Put_existing [OF ring_exact_inv [OF assms] Some, of v]
      ring_update_exact [OF assms Some, of v] ring_update_list [OF assms Some, of v]
      ring_exact_mem [OF assms, of k]
    by (simp add: fifo_put_def)
qed

section \<open>How long an entry stays\<close>

text \<open>
  \<open>held r k v n\<close>: key \<open>k\<close> is indexed with value \<open>v\<close>, its slot is the only live one that
  holds \<open>k\<close>, and at most \<open>n\<close> slots were filled after it.
\<close>

definition held :: "'v RingBuffer \<Rightarrow> string \<Rightarrow> 'v \<Rightarrow> nat \<Rightarrow> bool" where
  "held r k v n \<longleftrightarrow> ring_inv r \<and>
     (\<exists>i < rb_size r. rb_index r k = Some (slot_of r i) \<and> entry_value (rb_data r ! slot_of r i) = v \<and>
        rb_size r \<le> i + 1 + n \<and>
        (\<forall>j < rb_size r. entry_key (rb_data r ! slot_of r j) = k \<longrightarrow> j = i))"

lemma held_Get: "held r k v n \<Longrightarrow> RingBuffer_Get r k = Inr (Some v)"
  using ring_inv_Get [of r k] by (auto simp: held_def)

lemma held_after_push:
  assumes inv: "ring_inv r" and fresh: "k \<notin> fst ` set (ring_list r)"
  shows "held (ring_push r k v) k v 0"
proof -
  have wf: "ring_wf r" using inv by (rule ring_inv_wf)
  have nokey: "entry_key (rb_data r ! slot_of r j) \<noteq> k" if "j < rb_size r" for j
    using fresh that by (force simp: ring_list_def)
  then have "rb_index r k = None"
    using inv by (cases "rb_index r k") (auto elim: ring_inv_indexed [of r k])
  then have inv': "ring_inv (ring_push r k v)" by (rule ring_push_inv [OF inv])
  let ?i = "rb_size r - dropped r"
  have eq: "?i + dropped r = rb_size r" using dropped_le_size [OF wf] by simp
  have "entry_key (rb_data (ring_push r k v) ! slot_of (ring_push r k v) j) = k \<longrightarrow> j = ?i"
    if "j < rb_size (ring_push r k v)" for j
    using that nokey [of "j + dropped r"] ring_push_survivor [OF wf, of j k v]
    by (cases "j + dropped r < rb_size r") auto
  moreover have "rb_index (ring_push r k v) k = Some (slot_of (ring_push r k v) ?i)"
    using ring_push_newest(1) [OF wf eq, of k v] by (simp only: ring_push_index if_True refl)
  moreover have "entry_value (rb_data (ring_push r k v) ! slot_of (ring_push r k v) ?i) = v"
    using ring_push_newest [OF wf eq, of k v] by (simp only: ring_entry.simps)
  ultimately show ?thesis
    unfolding held_def using inv' eq by (intro conjI exI [of _ ?i]) auto
qed

lemma held_push_other:
  assumes h: "held r k v n" and room: "n + 1 < rb_capacity r" and "k' \<noteq> k"
    and fresh: "rb_index r k' = None"
  shows "held (ring_push r k' v') k v (n + 1)"
proof -
  have inv: "ring_inv r" and wf: "ring_wf r" using h by (auto simp: held_def ring_inv_def)
  from h obtain i where i: "i < rb_size r" "rb_index r k = Some (slot_of r i)"
    "entry_value (rb_data r ! slot_of r i) = v" "rb_size r \<le> i + 1 + n"
    and only: "\<And>j. j < rb_size r \<Longrightarrow> entry_key (rb_data r ! slot_of r j) = k \<Longrightarrow> j = i"
    by (auto simp: held_def)
  have ge: "dropped r \<le> i" using i(1,4) room by (auto simp: dropped_def)
  then have eq: "i - dropped r + dropped r = i" by simp
  have kept: "rb_index (ring_push r k' v') k = Some (slot_of r i)"
  proof -
    have "entry_key (rb_data r ! rb_head r) \<noteq> k" if "dropped r = 1"
    proof
      assume "entry_key (rb_data r ! rb_head r) = k"
      then have "0 = i" using only [of 0] slot_of_0 [OF wf] i(1) by simp
      with ge that show False by simp
    qed
    then show ?thesis using \<open>k' \<noteq> k\<close> i(2) by (auto simp: ring_push_index)
  qed
  have "j = i - dropped r"
    if j: "j < rb_size (ring_push r k' v')"
      "entry_key (rb_data (ring_push r k' v') ! slot_of (ring_push r k' v') j) = k" for j
  proof (cases "j + dropped r < rb_size r")
    case True
    then show ?thesis using only [OF True] j(2) ring_push_survivor [OF wf True, of k' v'] by auto
  next
    case False
    with j(1) have "j + dropped r = rb_size r" by simp
    from ring_push_newest [OF wf this, of k' v'] j(2) \<open>k' \<noteq> k\<close> show ?thesis by simp
  qed
  then show ?thesis
    unfolding held_def
    using ring_push_inv [OF inv fresh, of v'] kept i ge eq ring_push_survivor [OF wf, of "i - dropped r" k' v']
    by (intro conjI exI [of _ "i - dropped r"]) (auto simp: slot_of_push)
qed

lemma held_delete_other:
  "held r k v n \<Longrightarrow> k' \<noteq> k \<Longrightarrow> held (r\<lparr>rb_index := (rb_index r)(k' := None)\<rparr>) k v n"
  by (auto simp: held_def ring_inv_delete)

lemma held_mono: "held r k v n \<Longrightarrow> n \<le> m \<Longrightarrow> held r k v m"
  unfolding held_def by fastforce

section \<open>Runs\<close>

text \<open>The operations that change the buffer, as a step relation, and the states they reach.\<close>

inductive ring_step :: "'v RingBuffer \<Rightarrow> 'v RingBuffer \<Rightarrow> bool" where
  put: "RingBuffer_Put r k v = Inr r' \<Longrightarrow> ring_step r r'"
| take: "RingBuffer_GetAndDelete r k = Inr (found, r') \<Longrightarrow> ring_step r r'"

inductive ring_reachable :: "'v RingBuffer \<Rightarrow> bool" where
  new: "RingBuffer_New zero capacity = Inr r \<Longrightarrow> ring_reachable r"
| step: "ring_reachable r \<Longrightarrow> ring_step r r' \<Longrightarrow> ring_reachable r'"

lemma ring_step_inv: "ring_step r r' \<Longrightarrow> ring_inv r \<Longrightarrow> ring_inv r'"
proof (induction rule: ring_step.induct)
  case (put r k v r')
  then show ?case using RingBuffer_Put_inv [of r k v] by auto
next
  case (take r k found r')
  then show ?case using ring_inv_GetAndDelete [of r k] ring_inv_delete [of r k] by auto
qed

lemma ring_reachable_inv: "ring_reachable r \<Longrightarrow> ring_inv r"
proof (induction rule: ring_reachable.induct)
  case (new zero capacity r)
  then have "1 \<le> capacity" by (auto simp: RingBuffer_New_def split: if_splits)
  with RingBuffer_New_exact [of capacity zero] new show ?case by (auto intro: ring_exact_inv)
next
  case (step r r')
  then show ?case by (blast intro: ring_step_inv)
qed

section \<open>The buffer as a cache of one-shot entries\<close>

interpretation ring: pair_cache ring_inv RingBuffer_Put RingBuffer_GetAndDelete
proof unfold_locales
  fix c :: "'a RingBuffer" and k v
  assume "ring_inv c"
  then show "\<exists>c'. RingBuffer_Put c k v = Inr c' \<and> ring_inv c'"
    using RingBuffer_Put_inv [of c k v] by blast
next
  fix c :: "'a RingBuffer" and k
  assume "ring_inv c"
  then show "\<exists>x c'. RingBuffer_GetAndDelete c k = Inr (x, c') \<and> ring_inv c'"
    using ring_inv_GetAndDelete [of c k] ring_inv_delete [of c k] by simp
next
  fix c c' :: "'a RingBuffer" and k v
  assume inv: "ring_inv c" and put: "RingBuffer_Put c k v = Inr c'"
  then have "ring_inv c'" using RingBuffer_Put_inv [of c k v] by auto
  then show "\<exists>c''. RingBuffer_GetAndDelete c' k = Inr (Some v, c'')"
    using RingBuffer_Put_Get [OF inv put] ring_inv_Get [of c' k] ring_inv_GetAndDelete [of c' k] by simp
next
  fix c c' :: "'a RingBuffer" and k x
  assume "ring_inv c" and "RingBuffer_GetAndDelete c k = Inr (x, c')"
  then show "RingBuffer_GetAndDelete c' k = Inr (None, c')"
    using ring_inv_GetAndDelete [of c k] by (auto simp: RingBuffer_GetAndDelete_def)
qed

section \<open>Properties\<close>

text \<open>
  C3: in every state reached from \<open>New\<close> by \<open>Put\<close> and \<open>GetAndDelete\<close> the representation
  invariant holds (indices in range, every indexed key points to a live slot that holds
  it), and none of the operations panics there.
\<close>

theorem ring_reachable_safe:
  assumes "ring_reachable r"
  shows "ring_inv r \<and> (\<forall>k v. \<exists>r'. RingBuffer_Put r k v = Inr r') \<and>
    (\<forall>k. \<exists>x r'. RingBuffer_GetAndDelete r k = Inr (x, r')) \<and> (\<forall>k. \<exists>x. RingBuffer_Get r k = Inr x) \<and>
    RingBuffer_Entries r = Inr (ring_list r) \<and> (\<exists>x. RingBuffer_Oldest r = Inr x) \<and>
    (\<exists>x. RingBuffer_Newest r = Inr x)"
proof -
  have inv: "ring_inv r" using assms by (rule ring_reachable_inv)
  then have wf: "ring_wf r" by (rule ring_inv_wf)
  have "\<forall>k v. \<exists>r'. RingBuffer_Put r k v = Inr r'" using RingBuffer_Put_inv [OF inv] by blast
  moreover have "(\<exists>x. RingBuffer_Oldest r = Inr x) \<and> (\<exists>x. RingBuffer_Newest r = Inr x)"
    using wf by (auto simp: RingBuffer_Oldest_def RingBuffer_Newest_def ring_wf_def)
  ultimately show ?thesis
    using inv ring_inv_GetAndDelete [OF inv] ring_inv_Get [OF inv] RingBuffer_Entries_list [OF wf] by simp
qed

theorem ring_reachable_safe_witness:
  "ring_inv (ring_push \<lparr>rb_data = [\<lparr>entry_key = '''', entry_value = 0 :: nat\<rparr>], rb_index = Map.empty,
     rb_head = 0, rb_tail = 0, rb_size = 0, rb_capacity = 1\<rparr> ''a'' 5)"
proof -
  let ?r = "\<lparr>rb_data = [\<lparr>entry_key = '''', entry_value = 0 :: nat\<rparr>], rb_index = Map.empty,
     rb_head = 0, rb_tail = 0, rb_size = 0, rb_capacity = 1\<rparr>"
  have "ring_reachable ?r" by (rule ring_reachable.new [of 0 1]) (simp add: RingBuffer_New_def)
  then have "ring_reachable (ring_push ?r ''a'' 5)"
    by (rule ring_reachable.step) (rule ring_step.put, rule RingBuffer_Put_fresh, simp_all add: ring_wf_def)
  from ring_reachable_safe [OF this] show ?thesis by blast
qed

text \<open>
  C4: a buffer filled by \<open>Put\<close> alone is a bounded first-in-first-out map.  \<open>Put\<close>
  never panics and acts on the list of entries, oldest first, as the specification
  \<open>fifo_put\<close> does: an existing key keeps its place and gets the new value, a new key goes to
  the end and pushes the oldest entry out when the buffer is full.  \<open>Get\<close> is the lookup in
  this list and \<open>Keys\<close> returns its keys, oldest first and without repetition.
\<close>

theorem Put_refines_bounded_fifo:
  assumes "ring_exact r"
  shows "\<exists>r'. RingBuffer_Put r k v = Inr r' \<and> ring_exact r' \<and> rb_capacity r' = rb_capacity r \<and>
    RingBuffer_Entries r' = Inr (fifo_put (rb_capacity r) k v (ring_list r)) \<and>
    (\<forall>k'. RingBuffer_Get r' k' = Inr (map_of (fifo_put (rb_capacity r) k v (ring_list r)) k')) \<and>
    RingBuffer_Keys r' = Inr (map fst (fifo_put (rb_capacity r) k v (ring_list r))) \<and>
    distinct (map fst (fifo_put (rb_capacity r) k v (ring_list r))) \<and>
    length (fifo_put (rb_capacity r) k v (ring_list r)) \<le> rb_capacity r"
proof -
  obtain r' where r': "RingBuffer_Put r k v = Inr r'" "ring_exact r'" "rb_capacity r' = rb_capacity r"
    "ring_list r' = fifo_put (rb_capacity r) k v (ring_list r)"
    using RingBuffer_Put_refines_fifo [OF assms] by blast
  have wf: "ring_wf r'" using r'(2) by (simp add: ring_exact_def ring_inv_def)
  show ?thesis
    using r' RingBuffer_Entries_list [OF wf] RingBuffer_Keys_list [OF wf] ring_exact_Get [OF r'(2)]
      ring_exact_distinct [OF r'(2)] wf ring_list_length [of r']
    by (auto simp: ring_wf_def)
qed

theorem Put_refines_bounded_fifo_witness:
  "\<exists>r'. RingBuffer_Put \<lparr>rb_data = [\<lparr>entry_key = ''a'', entry_value = 1 :: nat\<rparr>], rb_index = [''a'' \<mapsto> 0],
     rb_head = 0, rb_tail = 0, rb_size = 1, rb_capacity = 1\<rparr> ''b'' 2 = Inr r' \<and>
     RingBuffer_Entries r' = Inr [(''b'', 2)]"
proof -
  let ?r = "\<lparr>rb_data = [\<lparr>entry_key = ''a'', entry_value = 1 :: nat\<rparr>], rb_index = [''a'' \<mapsto> 0],
     rb_head = 0, rb_tail = 0, rb_size = 1, rb_capacity = 1\<rparr>"
  have "ring_exact ?r" by (auto simp: ring_exact_def ring_inv_def ring_wf_def slot_of_def split: if_splits)
  from Put_refines_bounded_fifo [OF this, of "''b''" 2] show ?thesis
    by (auto simp: fifo_put_def ring_list_def slot_of_def)
qed

text \<open>
  \<open>GetAndDelete\<close> forgets the key but not its slot, and evicting that slot later
  deletes the index entry of its key even when the key has been inserted again since.  In a
  buffer of capacity two, after inserting, taking and inserting the key again, one insertion
  of another key loses the newer entry: the slot is still counted and listed, and \<open>Get\<close> does
  not find it.
\<close>

theorem deleted_slot_evicts_newer_entry:
  "\<exists>r0 r1 r2 r3 r4. RingBuffer_New 0 2 = Inr r0 \<and>
     RingBuffer_Put r0 ''a'' (1 :: nat) = Inr r1 \<and>
     RingBuffer_GetAndDelete r1 ''a'' = Inr (Some 1, r2) \<and> RingBuffer_Len r2 = 1 \<and>
     RingBuffer_Put r2 ''a'' 2 = Inr r3 \<and> RingBuffer_Get r3 ''a'' = Inr (Some 2) \<and>
     RingBuffer_Put r3 ''b'' 3 = Inr r4 \<and>
     RingBuffer_Entries r4 = Inr [(''a'', 2), (''b'', 3)] \<and> RingBuffer_Get r4 ''a'' = Inr None"
  by (simp add: RingBuffer_New_def RingBuffer_Put_def RingBuffer_GetAndDelete_def RingBuffer_Get_def
      RingBuffer_Len_def RingBuffer_Entries_def ring_nth_def next_slot_def numeral_2_eq_2)

end
