(* ===== verification/Go_Strings.thy ===== *)
theory Go_Strings
  imports Go_Base "HOL-Library.Sublist"
begin

text \<open>
  What the program uses of Go's packages \<open>strings\<close> and \<open>strconv\<close>.  A Go string is its
  list of bytes, the type \<open>string\<close>.  Separators are nonempty at every call the program
  makes; \<open>strings_Split\<close> and \<open>strings_SplitN\<close> are only meant there.
\<close>

section \<open>Package strings\<close>

fun strings_Join :: "string list \<Rightarrow> string \<Rightarrow> string" where
  "strings_Join [] sep = []"
| "strings_Join [x] sep = x"
| "strings_Join (x # y # xs) sep = x @ sep @ strings_Join (y # xs) sep"

lemma sep_head_inject:
  "x @ c # u = x' @ c # u' \<Longrightarrow> c \<notin> set x \<Longrightarrow> c \<notin> set x' \<Longrightarrow> x = x'"
  by (auto simp: append_eq_append_conv2 append_eq_Cons_conv Cons_eq_append_conv)

fun strings_Index :: "string \<Rightarrow> string \<Rightarrow> nat option" where
  "strings_Index [] sep = (if sep = [] then Some 0 else None)"
| "strings_Index (c # cs) sep =
     (if prefix sep (c # cs) then Some 0 else map_option Suc (strings_Index cs sep))"

definition strings_Contains :: "string \<Rightarrow> string \<Rightarrow> bool" where
  "strings_Contains s sub = (strings_Index s sub \<noteq> None)"

definition strings_HasPrefix :: "string \<Rightarrow> string \<Rightarrow> bool" where
  "strings_HasPrefix s pre = prefix pre s"

lemma strings_Index_Some:
  "strings_Index s sep = Some i \<Longrightarrow> s = take i s @ sep @ drop (i + length sep) s \<and> i + length sep \<le> length s"
proof (induction s arbitrary: i)
  case Nil
  then show ?case by (auto split: if_splits)
next
  case (Cons c cs)
  show ?case
  proof (cases "prefix sep (c # cs)")
    case True
    with Cons.prems have "i = 0" by simp
    with True show ?thesis by (auto simp: prefix_def dest: arg_cong [where f = length])
  next
    case False
    with Cons.prems obtain j where "i = Suc j" "strings_Index cs sep = Some j" by auto
    with Cons.IH show ?thesis by simp
  qed
qed

lemma strings_Contains_sublist: "strings_Contains s sub \<longleftrightarrow> sublist sub s"
  unfolding strings_Contains_def
proof (induction s)
  case Nil
  then show ?case by simp
next
  case (Cons c cs)
  then show ?case by (simp add: sublist_Cons_right)
qed

function strings_Split :: "string \<Rightarrow> string \<Rightarrow> string list" where
  "strings_Split s sep =
     (if sep = [] then [s]
      else case strings_Index s sep of
        None \<Rightarrow> [s]
      | Some i \<Rightarrow> take i s # strings_Split (drop (i + length sep) s) sep)"
  by pat_completeness auto
termination
proof (relation "measure (length \<circ> fst)")
  fix s sep :: string and i
  assume "sep \<noteq> []" "strings_Index s sep = Some i"
  then have "i + length sep \<le> length s" "0 < i + length sep" "0 < length s"
    using strings_Index_Some by (fastforce, simp, fastforce)
  then show "((drop (i + length sep) s, sep), s, sep) \<in> measure (length \<circ> fst)"
    by (simp add: diff_less)
qed simp

declare strings_Split.simps [simp del]

lemma strings_Split_code [code]:
  "strings_Split s sep =
     (if sep = [] then [s]
      else case strings_Index s sep of
        None \<Rightarrow> [s]
      | Some i \<Rightarrow> take i s # strings_Split (drop (i + length sep) s) sep)"
  by (rule strings_Split.simps)

lemma strings_Index_char: "c \<notin> set x \<Longrightarrow> strings_Index (x @ c # r) [c] = Some (length x)"
  by (induction x) (auto simp: prefix_def)

lemma strings_Index_char_None: "c \<notin> set x \<Longrightarrow> strings_Index x [c] = None"
  by (induction x) (auto simp: prefix_def)

lemma strings_Split_Join:
  "xs \<noteq> [] \<Longrightarrow> \<forall>x \<in> set xs. c \<notin> set x \<Longrightarrow> strings_Split (strings_Join xs [c]) [c] = xs"
proof (induction xs rule: induct_list012)
  case (2 x)
  then show ?case by (subst strings_Split.simps) (simp add: strings_Index_char_None)
next
  case (3 x y ys)
  then show ?case by (subst strings_Split.simps) (simp add: strings_Index_char)
qed simp

lemma strings_Split_nonempty: "strings_Split s sep \<noteq> []"
  by (subst strings_Split.simps) (simp split: option.splits)

text \<open>At most \<open>n\<close> pieces, for \<open>n > 0\<close>; the last piece is the unsplit rest.\<close>

fun strings_SplitN :: "string \<Rightarrow> string \<Rightarrow> nat \<Rightarrow> string list" where
  "strings_SplitN s sep 0 = []"
| "strings_SplitN s sep (Suc 0) = [s]"
| "strings_SplitN s sep (Suc (Suc n)) =
     (case strings_Index s sep of
        None \<Rightarrow> [s]
      | Some i \<Rightarrow> take i s # strings_SplitN (drop (i + length sep) s) sep (Suc n))"

text \<open>\<open>strings.Replace(s, old, new, 1)\<close> with a nonempty \<open>old\<close>.\<close>

definition strings_Replace1 :: "string \<Rightarrow> string \<Rightarrow> string \<Rightarrow> string" where
  "strings_Replace1 s old new =
     (case strings_Index s old of
        None \<Rightarrow> s
      | Some i \<Rightarrow> take i s @ new @ drop (i + length old) s)"

text \<open>\<open>strings.ReplaceAll\<close> where \<open>old\<close> is one byte and \<open>new\<close> is one byte.\<close>

definition strings_ReplaceByte :: "string \<Rightarrow> char \<Rightarrow> char \<Rightarrow> string" where
  "strings_ReplaceByte s old new = map (\<lambda>c. if c = old then new else c) s"

text \<open>
  The encodings of the code points that \<open>unicode.IsSpace\<close> accepts, which
  \<open>strings.TrimSpace\<close> removes at both ends of a string.
\<close>

definition space_encodings :: "string list" where
  "space_encodings =
    [[CHR 0x09], [CHR 0x0A], [CHR 0x0B], [CHR 0x0C], [CHR 0x0D], [CHR 0x20], [CHR 0xC2, CHR
      0x85], [CHR 0xC2, CHR 0xA0], [CHR 0xE1, CHR 0x9A, CHR 0x80], [CHR 0xE2, CHR 0x80, CHR
      0xA8], [CHR 0xE2, CHR 0x80, CHR 0xA9], [CHR 0xE2, CHR 0x80, CHR 0xAF], [CHR 0xE2, CHR
      0x81, CHR 0x9F], [CHR 0xE3, CHR 0x80, CHR 0x80], [CHR 0xE2, CHR 0x80, CHR 0x80], [CHR
      0xE2, CHR 0x80, CHR 0x81], [CHR 0xE2, CHR 0x80, CHR 0x82], [CHR 0xE2, CHR 0x80, CHR
      0x83], [CHR 0xE2, CHR 0x80, CHR 0x84], [CHR 0xE2, CHR 0x80, CHR 0x85], [CHR 0xE2, CHR
      0x80, CHR 0x86], [CHR 0xE2, CHR 0x80, CHR 0x87], [CHR 0xE2, CHR 0x80, CHR 0x88], [CHR
      0xE2, CHR 0x80, CHR 0x89], [CHR 0xE2, CHR 0x80, CHR 0x8A]]"

fun trim_left :: "nat \<Rightarrow> string \<Rightarrow> string" where
  "trim_left 0 s = s"
| "trim_left (Suc n) s =
     (case find (\<lambda>e. prefix e s) space_encodings of
        None \<Rightarrow> s
      | Some e \<Rightarrow> trim_left n (drop (length e) s))"

fun trim_right :: "nat \<Rightarrow> string \<Rightarrow> string" where
  "trim_right 0 s = s"
| "trim_right (Suc n) s =
     (case find (\<lambda>e. suffix e s) space_encodings of
        None \<Rightarrow> s
      | Some e \<Rightarrow> trim_right n (take (length s - length e) s))"

text \<open>Every encoding has at least one byte, so the length of the string bounds the turns.\<close>

definition strings_TrimSpace :: "string \<Rightarrow> string" where
  "strings_TrimSpace s = (let l = trim_left (length s) s in trim_right (length l) l)"

text \<open>\<open>strings.ToLower\<close> on ASCII text; other letters are left as they are.\<close>

definition char_lower :: "char \<Rightarrow> char" where
  "char_lower c = (let n = of_char c :: nat in if 65 \<le> n \<and> n \<le> 90 then char_of (n + 32) else c)"

definition strings_ToLower :: "string \<Rightarrow> string" where
  "strings_ToLower = map char_lower"

definition strings_HasSuffix :: "string \<Rightarrow> string \<Rightarrow> bool" where
  "strings_HasSuffix s suf \<longleftrightarrow> suffix suf s"

section \<open>Package strconv\<close>

definition is_digit :: "char \<Rightarrow> bool" where
  "is_digit c = (48 \<le> (of_char c :: int) \<and> (of_char c :: int) \<le> 57)"

definition digit_val :: "char \<Rightarrow> int" where
  "digit_val c = of_char c - 48"

definition decimal_val :: "string \<Rightarrow> int" where
  "decimal_val s = foldl (\<lambda>n c. n * 10 + digit_val c) 0 s"

text \<open>\<open>strconv.Atoi\<close> for 64-bit \<open>int\<close>; \<open>None\<close> is the error.\<close>

definition strconv_Atoi :: "string \<Rightarrow> i64 option" where
  "strconv_Atoi s =
     (let (neg, ds) = (case s of [] \<Rightarrow> (False, []) | c # cs \<Rightarrow>
                         if c = CHR ''-'' then (True, cs) else if c = CHR ''+'' then (False, cs)
                         else (False, s));
          n = decimal_val ds; v = (if neg then - n else n)
      in if ds = [] \<or> \<not> list_all is_digit ds then None
         else if - (2 ^ 63) \<le> v \<and> v < 2 ^ 63 then Some (word_of_int v) else None)"

fun nat_digits :: "nat \<Rightarrow> string" where
  "nat_digits n = (if n < 10 then [char_of (n + 48)] else nat_digits (n div 10) @ [char_of (n mod 10 + 48)])"

declare nat_digits.simps [simp del]

text \<open>\<open>strconv.Itoa\<close> and \<open>strconv.FormatInt\<close> in base 10.\<close>

definition strconv_Itoa :: "i64 \<Rightarrow> string" where
  "strconv_Itoa w = (let v = sint w in if v < 0 then CHR ''-'' # nat_digits (nat (- v)) else nat_digits (nat v))"

end
