(* ===== verification/Kt_Types.thy ===== *)
theory Kt_Types
  imports Go_Strings
begin

text \<open>
  The flow record of \<open>pkg/kt/types.go\<close>, its untyped map view and its stitching key.
  A Go map that may be nil is an \<open>option\<close>: reading nil is reading the empty map, writing
  nil panics.  The value of an interface in the map view is a \<open>gvalue\<close> with one
  constructor per dynamic type that \<open>ToMap\<close> and \<open>Flatten\<close> store.  A \<open>float32\<close> is kept
  as its bits.  The fields of \<open>JCHF\<close> that no modelled operation reads (\<open>CustomMetrics\<close>,
  \<open>CustomTables\<close>, \<open>MatchAttr\<close>, \<open>Har\<close>) are left out.
\<close>

section \<open>The record\<close>

datatype gvalue =
    VString string
  | VInt64 i64
  | VInt32 i32
  | VFloat32 u32
  | VProvider string
  | VStrMap "string \<Rightarrow> string option"
  | VInt32Map "string \<Rightarrow> i32 option"
  | VInt64Map "string \<Rightarrow> i64 option"
  | VFloat32Map "string \<Rightarrow> u32 option"

type_synonym gmap = "string \<Rightarrow> gvalue option"

record JCHF =
  Timestamp :: i64
  DstAs :: u32
  DstGeo :: string
  HeaderLen :: u32
  InBytes :: u64
  InPkts :: u64
  InputPort :: u64
  IpSize :: u32
  DstAddr :: string
  SrcAddr :: string
  L4DstPort :: u32
  L4SrcPort :: u32
  OutputPort :: u64
  Protocol :: string
  SampledPacketSize :: u32
  SrcAs :: u32
  SrcGeo :: string
  TcpFlags :: u32
  Tos :: u32
  VlanIn :: u32
  VlanOut :: u32
  NextHop :: string
  MplsType :: u32
  OutBytes :: u64
  OutPkts :: u64
  TcpRetransmit :: u32
  SrcFlowTags :: string
  DstFlowTags :: string
  SampleRate :: u32
  DeviceId :: u64
  DeviceName :: string
  CompanyId :: u64
  DstBgpAsPath :: string
  DstBgpCommunity :: string
  SrcBgpAsPath :: string
  SrcBgpCommunity :: string
  SrcNextHopAs :: u32
  DstNextHopAs :: u32
  SrcGeoRegion :: string
  DstGeoRegion :: string
  SrcGeoCity :: string
  DstGeoCity :: string
  DstNextHop :: string
  SrcNextHop :: string
  SrcRoutePrefix :: string
  DstRoutePrefix :: string
  SrcSecondAsn :: u32
  DstSecondAsn :: u32
  SrcThirdAsn :: u32
  DstThirdAsn :: u32
  SrcEthMac :: string
  DstEthMac :: string
  InputIntDesc :: string
  OutputIntDesc :: string
  InputIntAlias :: string
  OutputIntAlias :: string
  InputInterfaceCapacity :: i64
  OutputInterfaceCapacity :: i64
  InputInterfaceIP :: string
  OutputInterfaceIP :: string
  CustomStr :: "(string \<Rightarrow> string option) option"
  CustomInt :: "(string \<Rightarrow> i32 option) option"
  CustomBigInt :: "(string \<Rightarrow> i64 option) option"
  CustomFloat :: "(string \<Rightarrow> u32 option) option"
  EventType :: string
  Provider :: string
  avroSet :: "gmap option"
  hasSetAvro :: bool
  ApplySample :: bool

definition zero_JCHF :: JCHF where
  "zero_JCHF = \<lparr>Timestamp = 0,
     DstAs = 0,
     DstGeo = '''',
     HeaderLen = 0,
     InBytes = 0,
     InPkts = 0,
     InputPort = 0,
     IpSize = 0,
     DstAddr = '''',
     SrcAddr = '''',
     L4DstPort = 0,
     L4SrcPort = 0,
     OutputPort = 0,
     Protocol = '''',
     SampledPacketSize = 0,
     SrcAs = 0,
     SrcGeo = '''',
     TcpFlags = 0,
     Tos = 0,
     VlanIn = 0,
     VlanOut = 0,
     NextHop = '''',
     MplsType = 0,
     OutBytes = 0,
     OutPkts = 0,
     TcpRetransmit = 0,
     SrcFlowTags = '''',
     DstFlowTags = '''',
     SampleRate = 0,
     DeviceId = 0,
     DeviceName = '''',
     CompanyId = 0,
     DstBgpAsPath = '''',
     DstBgpCommunity = '''',
     SrcBgpAsPath = '''',
     SrcBgpCommunity = '''',
     SrcNextHopAs = 0,
     DstNextHopAs = 0,
     SrcGeoRegion = '''',
     DstGeoRegion = '''',
     SrcGeoCity = '''',
     DstGeoCity = '''',
     DstNextHop = '''',
     SrcNextHop = '''',
     SrcRoutePrefix = '''',
     DstRoutePrefix = '''',
     SrcSecondAsn = 0,
     DstSecondAsn = 0,
     SrcThirdAsn = 0,
     DstThirdAsn = 0,
     SrcEthMac = '''',
     DstEthMac = '''',
     InputIntDesc = '''',
     OutputIntDesc = '''',
     InputIntAlias = '''',
     OutputIntAlias = '''',
     InputInterfaceCapacity = 0,
     OutputInterfaceCapacity = 0,
     InputInterfaceIP = '''',
     OutputInterfaceIP = '''',
     CustomStr = None,
     CustomInt = None,
     CustomBigInt = None,
     CustomFloat = None,
     EventType = '''',
     Provider = '''',
     avroSet = None, hasSetAvro = False, ApplySample = False\<rparr>"

definition NewJCHF :: JCHF where
  "NewJCHF = zero_JCHF\<lparr>avroSet := Some Map.empty, hasSetAvro := False\<rparr>"

text \<open>Reading and writing a Go map that may be nil.\<close>

definition map_read :: "('k \<Rightarrow> 'v option) option \<Rightarrow> 'k \<Rightarrow> 'v option" where
  "map_read m = (case m of None \<Rightarrow> Map.empty | Some f \<Rightarrow> f)"

definition map_write :: "('k \<Rightarrow> 'v option) option \<Rightarrow> 'k \<Rightarrow> 'v \<Rightarrow> go_panic + ('k \<Rightarrow> 'v option) option" where
  "map_write m k v = (case m of None \<Rightarrow> Inl NilMapWrite | Some f \<Rightarrow> Inr (Some (f(k \<mapsto> v))))"

text \<open>\<open>m[k]\<close> on a \<open>map[string]string\<close>: the zero value when the key is absent.\<close>

definition map_string :: "(string \<Rightarrow> string option) option \<Rightarrow> string \<Rightarrow> string" where
  "map_string m k = (case map_read m k of None \<Rightarrow> '''' | Some v \<Rightarrow> v)"

definition JCHF_Reset :: "JCHF \<Rightarrow> JCHF" where
  "JCHF_Reset j = j\<lparr>hasSetAvro := False\<rparr>"

definition JCHF_SetMap :: "JCHF \<Rightarrow> JCHF" where
  "JCHF_SetMap j = j\<lparr>avroSet := Some Map.empty, CustomStr := Some Map.empty,
     CustomInt := Some Map.empty, CustomBigInt := Some Map.empty, CustomFloat := Some Map.empty\<rparr>"

definition JCHF_SetIFPorts :: "JCHF \<Rightarrow> u64 \<Rightarrow> JCHF" where
  "JCHF_SetIFPorts j p = j\<lparr>OutputPort := p, InputPort := p\<rparr>"

section \<open>The map view\<close>

definition JCHF_columns :: "JCHF \<Rightarrow> (string \<times> gvalue) list" where
  "JCHF_columns j =
    [(''timestamp'', VInt64 (Timestamp j)),
     (''dst_as'', VInt64 (ucast (DstAs j))),
     (''dst_geo'', VString (DstGeo j)),
     (''header_len'', VInt64 (ucast (HeaderLen j))),
     (''in_bytes'', VInt64 (InBytes j)),
     (''in_pkts'', VInt64 (InPkts j)),
     (''input_port'', VInt64 (InputPort j)),
     (''dst_addr'', VString (DstAddr j)),
     (''src_addr'', VString (SrcAddr j)),
     (''l4_dst_port'', VInt64 (ucast (L4DstPort j))),
     (''l4_src_port'', VInt64 (ucast (L4SrcPort j))),
     (''output_port'', VInt64 (OutputPort j)),
     (''protocol'', VString (Protocol j)),
     (''sampled_packet_size'', VInt64 (ucast (SampledPacketSize j))),
     (''src_as'', VInt64 (ucast (SrcAs j))),
     (''src_geo'', VString (SrcGeo j)),
     (''tcp_flags'', VInt64 (ucast (TcpFlags j))),
     (''tos'', VInt64 (ucast (Tos j))),
     (''vlan_in'', VInt64 (ucast (VlanIn j))),
     (''vlan_out'', VInt64 (ucast (VlanOut j))),
     (''out_bytes'', VInt64 (OutBytes j)),
     (''out_pkts'', VInt64 (OutPkts j)),
     (''tcp_rx'', VInt64 (ucast (TcpRetransmit j))),
     (''src_flow_tags'', VString (SrcFlowTags j)),
     (''dst_flow_tags'', VString (DstFlowTags j)),
     (''sample_rate'', VInt64 (ucast (SampleRate j))),
     (''device_id'', VInt64 (DeviceId j)),
     (''device_name'', VString (DeviceName j)),
     (''company_id'', VInt64 (CompanyId j)),
     (''dst_bgp_as_path'', VString (DstBgpAsPath j)),
     (''dst_bgp_comm'', VString (DstBgpCommunity j)),
     (''src_bpg_as_path'', VString (SrcBgpAsPath j)),
     (''src_bgp_comm'', VString (SrcBgpCommunity j)),
     (''src_nexthop_as'', VInt64 (ucast (SrcNextHopAs j))),
     (''dst_nexthop_as'', VInt64 (ucast (DstNextHopAs j))),
     (''src_geo_region'', VString (SrcGeoRegion j)),
     (''dst_geo_region'', VString (DstGeoRegion j)),
     (''src_geo_city'', VString (SrcGeoCity j)),
     (''dst_geo_city'', VString (DstGeoCity j)),
     (''dst_nexthop'', VString (DstNextHop j)),
     (''src_nexthop'', VString (SrcNextHop j)),
     (''src_route_prefix'', VString (SrcRoutePrefix j)),
     (''dst_route_prefix'', VString (DstRoutePrefix j)),
     (''src_second_asn'', VInt64 (ucast (SrcSecondAsn j))),
     (''dst_second_asn'', VInt64 (ucast (DstSecondAsn j))),
     (''src_third_asn'', VInt64 (ucast (SrcThirdAsn j))),
     (''dst_third_asn'', VInt64 (ucast (DstThirdAsn j))),
     (''src_eth_mac'', VString (SrcEthMac j)),
     (''dst_eth_mac'', VString (DstEthMac j)),
     (''input_int_desc'', VString (InputIntDesc j)),
     (''output_int_desc'', VString (OutputIntDesc j)),
     (''input_int_alias'', VString (InputIntAlias j)),
     (''output_int_alias'', VString (OutputIntAlias j)),
     (''input_interface_capacity'', VInt64 (InputInterfaceCapacity j)),
     (''output_interface_capacity'', VInt64 (OutputInterfaceCapacity j)),
     (''input_interface_ip'', VString (InputInterfaceIP j)),
     (''output_interface_ip'', VString (OutputInterfaceIP j)),
     (''custom_str'', VStrMap (map_read (CustomStr j))),
     (''custom_int'', VInt32Map (map_read (CustomInt j))),
     (''custom_bigint'', VInt64Map (map_read (CustomBigInt j))),
     (''custom_float'', VFloat32Map (map_read (CustomFloat j))),
     (''eventType'', VString (EventType j)),
     (''provider'', VProvider (Provider j))]"

text \<open>\<open>ToMap\<close> fills the map once and hands out the cached one from then on.\<close>

definition JCHF_ToMap :: "JCHF \<Rightarrow> go_panic + gmap \<times> JCHF" where
  "JCHF_ToMap j =
     (if hasSetAvro j then Inr (map_read (avroSet j), j)
      else case avroSet j of
        None \<Rightarrow> Inl NilMapWrite
      | Some m \<Rightarrow> (let m' = m ++ map_of (JCHF_columns j)
                  in Inr (m', j\<lparr>avroSet := Some m', hasSetAvro := True\<rparr>)))"

text \<open>
  One turn of the loop of \<open>Flatten\<close> for the key \<open>k\<close>: the loop ranges over the map it
  changes, and that map is the cached one itself.
\<close>

definition flatten_visit :: "string \<Rightarrow> gmap \<Rightarrow> gmap" where
  "flatten_visit k m =
     (case m k of
        Some (VStrMap mv) \<Rightarrow> (m ++ (\<lambda>ki. map_option VString (mv ki)))(k := None)
      | Some (VInt32Map mv) \<Rightarrow> (m ++ (\<lambda>ki. map_option VInt32 (mv ki)))(k := None)
      | Some (VInt64Map mv) \<Rightarrow> (m ++ (\<lambda>ki. map_option VInt64 (mv ki)))(k := None)
      | Some (VFloat32Map mv) \<Rightarrow> (m ++ (\<lambda>ki. map_option VFloat32 (mv ki)))(k := None)
      | Some (VString s) \<Rightarrow> if s = ''<nil>'' then m(k \<mapsto> VString '''') else m
      | _ \<Rightarrow> m)"

text \<open>
  Go leaves the order of the loop open, and whether a key added by the loop is visited.
  The order is the argument \<open>order\<close>: a list of keys without repetition that covers the
  keys the map had at the start; a key that is absent when its turn comes is skipped.
\<close>

definition JCHF_Flatten :: "string list \<Rightarrow> JCHF \<Rightarrow> go_panic + gmap \<times> JCHF" where
  "JCHF_Flatten order j =
     go_bind (JCHF_ToMap j) (\<lambda>(m, j1).
       let m' = fold flatten_visit order m in Inr (m', j1\<lparr>avroSet := Some m'\<rparr>))"

section \<open>The stitching key\<close>

definition JCHF_GetKey :: "JCHF \<Rightarrow> string" where
  "JCHF_GetKey j =
     (let src = map_string (CustomStr j) ''src_endpoint''; dst = map_string (CustomStr j) ''dst_endpoint''
      in if L4SrcPort j < 32768 then strings_Join [src, dst, Protocol j] ''|''
         else strings_Join [dst, src, Protocol j] ''|'')"

section \<open>Lemmas\<close>

lemma map_read_simps [simp]: "map_read None = Map.empty" "map_read (Some f) = f"
  by (simp_all add: map_read_def)

lemma JCHF_columns_keys_distinct: "distinct (map fst (JCHF_columns j))"
  by (simp add: JCHF_columns_def)

text \<open>The second call answers from the cache, without looking at the record.\<close>

lemma JCHF_ToMap_cached:
  "JCHF_ToMap j = Inr (m, j') \<Longrightarrow> JCHF_ToMap j' = Inr (m, j') \<and> hasSetAvro j' \<and> map_read (avroSet j') = m"
  by (auto simp: JCHF_ToMap_def Let_def split: if_splits option.splits)

lemma JCHF_ToMap_ok:
  "avroSet j \<noteq> None \<Longrightarrow> \<exists>m j'. JCHF_ToMap j = Inr (m, j') \<and> avroSet j' = Some m"
  by (auto simp: JCHF_ToMap_def Let_def)

lemma JCHF_ToMap_fresh:
  "\<not> hasSetAvro j \<Longrightarrow> avroSet j = Some m0 \<Longrightarrow>
     JCHF_ToMap j = Inr (m0 ++ map_of (JCHF_columns j),
       j\<lparr>avroSet := Some (m0 ++ map_of (JCHF_columns j)), hasSetAvro := True\<rparr>)"
  by (simp add: JCHF_ToMap_def Let_def)

section \<open>Properties\<close>

text \<open>
  The two directions of a flow get the same stitching key exactly when one of the
  source ports is below 32768 and the other is not.  The endpoints are different strings
  without the separator, and the two records have them swapped.
\<close>

theorem GetKey_pairs_directions:
  assumes "map_string (CustomStr b) ''src_endpoint'' = map_string (CustomStr a) ''dst_endpoint''"
    and "map_string (CustomStr b) ''dst_endpoint'' = map_string (CustomStr a) ''src_endpoint''"
    and "Protocol b = Protocol a"
    and "map_string (CustomStr a) ''src_endpoint'' \<noteq> map_string (CustomStr a) ''dst_endpoint''"
    and "CHR ''|'' \<notin> set (map_string (CustomStr a) ''src_endpoint'')"
    and "CHR ''|'' \<notin> set (map_string (CustomStr a) ''dst_endpoint'')"
  shows "JCHF_GetKey a = JCHF_GetKey b \<longleftrightarrow> (L4SrcPort a < 32768 \<longleftrightarrow> \<not> L4SrcPort b < 32768)"
  using assms by (auto simp: JCHF_GetKey_def Let_def dest: sep_head_inject)

theorem GetKey_pairs_directions_witness:
  "JCHF_GetKey (NewJCHF\<lparr>CustomStr := Some [''src_endpoint'' \<mapsto> ''10.0.0.1:443'', ''dst_endpoint'' \<mapsto> ''10.0.0.2:50000''],
       L4SrcPort := 443\<rparr>) =
   JCHF_GetKey (NewJCHF\<lparr>CustomStr := Some [''src_endpoint'' \<mapsto> ''10.0.0.2:50000'', ''dst_endpoint'' \<mapsto> ''10.0.0.1:443''],
       L4SrcPort := 50000\<rparr>)"
  by (subst GetKey_pairs_directions) (simp_all add: map_string_def NewJCHF_def zero_JCHF_def)

end
