(* ===== verification/Stitch.thy ===== *)
theory Stitch
  imports Ring_Buffer Kt_Types
begin

text \<open>
  The flow stitcher of \<open>pkg/stitch/stitch.go\<close>: it remembers one direction of a flow in
  the ring buffer and, when the other direction arrives under the same key, copies the
  remembered counters into the message.  The two meters are kept as the number of marks.
\<close>

section \<open>Model\<close>

record stitchSnapshot =
  snap_TcpFlags :: u32
  snap_InBytes :: u64
  snap_InPkts :: u64
  snap_TcpRetransmit :: u32
  snap_Timestamp :: i64

record Stitcher =
  st_cache :: "stitchSnapshot RingBuffer"
  st_FlowsIn :: nat
  st_FlowsMatched :: nat

definition zero_snapshot :: stitchSnapshot where
  "zero_snapshot = \<lparr>snap_TcpFlags = 0, snap_InBytes = 0, snap_InPkts = 0, snap_TcpRetransmit = 0,
     snap_Timestamp = 0\<rparr>"

text \<open>No stitcher (a nil pointer) when stitching is not enabled.\<close>

definition NewStitcher :: "bool \<Rightarrow> int \<Rightarrow> go_panic + Stitcher option" where
  "NewStitcher enable bufLen =
     (if \<not> enable then Inr None
      else go_bind (RingBuffer_New zero_snapshot bufLen) (\<lambda>c.
           Inr (Some \<lparr>st_cache = c, st_FlowsIn = 0, st_FlowsMatched = 0\<rparr>)))"

definition snapshot_of :: "JCHF \<Rightarrow> stitchSnapshot" where
  "snapshot_of msg = \<lparr>snap_TcpFlags = TcpFlags msg, snap_InBytes = InBytes msg,
     snap_InPkts = InPkts msg, snap_TcpRetransmit = TcpRetransmit msg, snap_Timestamp = Timestamp msg\<rparr>"

text \<open>The five assignments of the match branch, in the order of the source.\<close>

definition record_pair :: "stitchSnapshot \<Rightarrow> JCHF \<Rightarrow> go_panic + JCHF" where
  "record_pair nm msg =
     go_bind (map_write (CustomInt msg) ''pair_tcp_flags'' (snap_TcpFlags nm)) (\<lambda>ci.
     go_bind (map_write (CustomBigInt msg) ''pair_in_bytes'' (snap_InBytes nm)) (\<lambda>cb.
     go_bind (map_write cb ''pair_in_pkts'' (snap_InPkts nm)) (\<lambda>cb.
     go_bind (map_write ci ''pair_tcp_rx'' (snap_TcpRetransmit nm)) (\<lambda>ci.
     go_bind (map_write cb ''pair_timestamp'' (snap_Timestamp nm)) (\<lambda>cb.
     Inr (msg\<lparr>CustomInt := ci, CustomBigInt := cb\<rparr>))))))"

definition Stitcher_Stitch :: "Stitcher \<Rightarrow> JCHF \<Rightarrow> go_panic + bool \<times> JCHF \<times> Stitcher" where
  "Stitcher_Stitch s msg =
     (let key = JCHF_GetKey msg; s = s\<lparr>st_FlowsIn := st_FlowsIn s + 1\<rparr>
      in go_bind (RingBuffer_GetAndDelete (st_cache s) key) (\<lambda>(found, c).
         case found of
           Some nm \<Rightarrow>
             go_bind (record_pair nm msg) (\<lambda>msg'.
             Inr (True, msg', s\<lparr>st_cache := c, st_FlowsMatched := st_FlowsMatched s + 1\<rparr>))
         | None \<Rightarrow>
             go_bind (RingBuffer_Put c key (snapshot_of msg)) (\<lambda>c'.
             Inr (False, msg, s\<lparr>st_cache := c'\<rparr>))))"

section \<open>Lemmas\<close>

definition stitch_ready :: "JCHF \<Rightarrow> bool" where
  "stitch_ready msg \<longleftrightarrow> CustomInt msg \<noteq> None \<and> CustomBigInt msg \<noteq> None"

lemma record_pair_ready:
  "stitch_ready msg \<Longrightarrow> record_pair nm msg = Inr (msg
     \<lparr>CustomInt := Some ((map_read (CustomInt msg))(''pair_tcp_flags'' \<mapsto> snap_TcpFlags nm,
        ''pair_tcp_rx'' \<mapsto> snap_TcpRetransmit nm)),
      CustomBigInt := Some ((map_read (CustomBigInt msg))(''pair_in_bytes'' \<mapsto> snap_InBytes nm,
        ''pair_in_pkts'' \<mapsto> snap_InPkts nm, ''pair_timestamp'' \<mapsto> snap_Timestamp nm))\<rparr>)"
  by (auto simp: stitch_ready_def record_pair_def map_write_def)

lemma Stitch_store:
  assumes "ring_inv (st_cache s)" "rb_index (st_cache s) (JCHF_GetKey msg) = None"
  shows "Stitcher_Stitch s msg = Inr (False, msg, s
    \<lparr>st_FlowsIn := st_FlowsIn s + 1,
     st_cache := ring_push (st_cache s) (JCHF_GetKey msg) (snapshot_of msg)\<rparr>)"
  using assms RingBuffer_Put_fresh [OF ring_inv_wf [OF assms(1)] assms(2)]
  by (simp add: Stitcher_Stitch_def RingBuffer_GetAndDelete_def)

lemma Stitch_match:
  assumes "RingBuffer_GetAndDelete (st_cache s) (JCHF_GetKey msg) = Inr (Some nm, c)" "stitch_ready msg"
  obtains msg' where "record_pair nm msg = Inr msg'" "Stitcher_Stitch s msg = Inr (True, msg', s
    \<lparr>st_FlowsIn := st_FlowsIn s + 1, st_cache := c, st_FlowsMatched := st_FlowsMatched s + 1\<rparr>)"
  using assms record_pair_ready [OF assms(2), of nm] by (simp add: Stitcher_Stitch_def)

lemma Stitch_total:
  assumes "ring_inv (st_cache s)" "stitch_ready msg"
  shows "\<exists>b msg' s'. Stitcher_Stitch s msg = Inr (b, msg', s') \<and> ring_inv (st_cache s')"
proof (cases "rb_index (st_cache s) (JCHF_GetKey msg)")
  case None
  with assms show ?thesis using Stitch_store [OF assms(1) None] ring_push_inv [OF assms(1) None] by auto
next
  case (Some slot)
  obtain x c where c: "RingBuffer_GetAndDelete (st_cache s) (JCHF_GetKey msg) = Inr (x, c)" "ring_inv c"
    using ring.take_ok [OF assms(1)] by blast
  with Some obtain nm where nm: "x = Some nm"
    using ring_inv_GetAndDelete [OF assms(1), of "JCHF_GetKey msg"] by auto
  obtain msg' where "Stitcher_Stitch s msg = Inr (True, msg', s
      \<lparr>st_FlowsIn := st_FlowsIn s + 1, st_cache := c, st_FlowsMatched := st_FlowsMatched s + 1\<rparr>)"
    using Stitch_match [of s msg nm c] c(1) nm assms(2) by blast
  with c(2) show ?thesis by auto
qed

text \<open>A sequence of calls of \<open>Stitch\<close>, with the answer and the message of each.\<close>

fun stitch_run :: "Stitcher \<Rightarrow> JCHF list \<Rightarrow> go_panic + (bool \<times> JCHF) list \<times> Stitcher" where
  "stitch_run s [] = Inr ([], s)"
| "stitch_run s (m # ms) =
     go_bind (Stitcher_Stitch s m) (\<lambda>(b, m', s1).
     go_bind (stitch_run s1 ms) (\<lambda>(os, s2). Inr ((b, m') # os, s2)))"

lemma stitch_run_append:
  "stitch_run s ms = Inr (os, s1) \<Longrightarrow> stitch_run s1 ms' = Inr (os', s2) \<Longrightarrow>
     stitch_run s (ms @ ms') = Inr (os @ os', s2)"
  by (induction ms arbitrary: s os) (auto simp: go_simps split: prod.splits)

lemma held_Stitch_other:
  assumes h: "held (st_cache s) k v n" and room: "n + 1 < rb_capacity (st_cache s)"
    and key: "JCHF_GetKey msg \<noteq> k" and ready: "stitch_ready msg"
  shows "\<exists>b msg' s'. Stitcher_Stitch s msg = Inr (b, msg', s') \<and> held (st_cache s') k v (n + 1) \<and>
    rb_capacity (st_cache s') = rb_capacity (st_cache s)"
proof (cases "rb_index (st_cache s) (JCHF_GetKey msg)")
  case None
  have inv: "ring_inv (st_cache s)" using h by (simp add: held_def)
  show ?thesis
    using Stitch_store [OF inv None] held_push_other [OF h room key None, of "snapshot_of msg"] by auto
next
  case (Some slot)
  let ?c = "(st_cache s)\<lparr>rb_index := (rb_index (st_cache s))(JCHF_GetKey msg := None)\<rparr>"
  have inv: "ring_inv (st_cache s)" using h by (simp add: held_def)
  have "RingBuffer_GetAndDelete (st_cache s) (JCHF_GetKey msg) =
      Inr (Some (entry_value (rb_data (st_cache s) ! slot)), ?c)"
    using ring_inv_GetAndDelete [OF inv, of "JCHF_GetKey msg"] Some by simp
  then obtain msg' where "Stitcher_Stitch s msg = Inr (True, msg', s
      \<lparr>st_FlowsIn := st_FlowsIn s + 1, st_cache := ?c, st_FlowsMatched := st_FlowsMatched s + 1\<rparr>)"
    using Stitch_match ready by blast
  moreover have "held ?c k v (n + 1)"
    using held_mono [OF held_delete_other [OF h key]] by simp
  ultimately show ?thesis by auto
qed

lemma held_stitch_run_others:
  assumes "held (st_cache s) k v n" "n + length ms < rb_capacity (st_cache s)"
    "\<And>m. m \<in> set ms \<Longrightarrow> JCHF_GetKey m \<noteq> k \<and> stitch_ready m"
  shows "\<exists>os s'. stitch_run s ms = Inr (os, s') \<and> held (st_cache s') k v (n + length ms)"
  using assms
proof (induction ms arbitrary: s n)
  case Nil
  then show ?case by simp
next
  case (Cons m ms)
  then obtain b m' s1 where s1: "Stitcher_Stitch s m = Inr (b, m', s1)"
    "held (st_cache s1) k v (n + 1)" "rb_capacity (st_cache s1) = rb_capacity (st_cache s)"
    using held_Stitch_other [of s k v n m] by auto
  with Cons.IH [of s1 "n + 1"] Cons.prems(2,3) show ?case by auto
qed

section \<open>Properties\<close>

text \<open>
  C5: the two directions of a flow are paired.  If no slot of the buffer holds the
  key of the first message, fewer than \<open>capacity\<close> messages with other keys come in
  between, and the second message has the same key, then the run does not panic and the
  second message is answered with a match that carries exactly the counters of the first.
\<close>

theorem Stitch_pairs_within_capacity:
  assumes inv: "ring_inv (st_cache s)"
    and fresh: "JCHF_GetKey first \<notin> fst ` set (ring_list (st_cache s))"
    and room: "length ms < rb_capacity (st_cache s)"
    and others: "\<And>m. m \<in> set ms \<Longrightarrow> JCHF_GetKey m \<noteq> JCHF_GetKey first \<and> stitch_ready m"
    and key: "JCHF_GetKey second = JCHF_GetKey first" and ready: "stitch_ready second"
  shows "\<exists>os s' msg'. stitch_run s (first # ms @ [second]) = Inr (os @ [(True, msg')], s') \<and>
    record_pair (snapshot_of first) second = Inr msg'"
proof -
  have none: "rb_index (st_cache s) (JCHF_GetKey first) = None"
    using inv fresh ring_indexed_listed [OF inv] by (cases "rb_index (st_cache s) (JCHF_GetKey first)") auto
  let ?s1 = "s\<lparr>st_FlowsIn := st_FlowsIn s + 1,
     st_cache := ring_push (st_cache s) (JCHF_GetKey first) (snapshot_of first)\<rparr>"
  have h: "held (st_cache ?s1) (JCHF_GetKey first) (snapshot_of first) 0"
    using held_after_push [OF inv fresh] by simp
  have "0 + length ms < rb_capacity (st_cache ?s1)" using room by simp
  from held_stitch_run_others [OF h this others] obtain os s2 where s2: "stitch_run ?s1 ms = Inr (os, s2)"
      "held (st_cache s2) (JCHF_GetKey first) (snapshot_of first) (length ms)" by auto
  have inv2: "ring_inv (st_cache s2)" using s2(2) by (simp add: held_def)
  obtain c where "RingBuffer_GetAndDelete (st_cache s2) (JCHF_GetKey second) = Inr (Some (snapshot_of first), c)"
    using held_Get [OF s2(2)] ring_inv_Get [OF inv2] ring_inv_GetAndDelete [OF inv2] key by auto
  from Stitch_match [OF this ready] obtain msg' s3 where
    "record_pair (snapshot_of first) second = Inr msg'" "Stitcher_Stitch s2 second = Inr (True, msg', s3)"
    by blast
  then show ?thesis
    using Stitch_store [OF inv none] stitch_run_append [OF s2(1), of "[second]"] by auto
qed

theorem Stitch_pairs_within_capacity_witness:
  "\<exists>os s' msg'. stitch_run
     \<lparr>st_cache = \<lparr>rb_data = replicate 2 \<lparr>entry_key = '''', entry_value = zero_snapshot\<rparr>,
        rb_index = Map.empty, rb_head = 0, rb_tail = 0, rb_size = 0, rb_capacity = 2\<rparr>,
      st_FlowsIn = 0, st_FlowsMatched = 0\<rparr>
     ((JCHF_SetMap NewJCHF)\<lparr>L4SrcPort := 50000, InBytes := 7\<rparr> # [(JCHF_SetMap NewJCHF)\<lparr>Protocol := ''UDP''\<rparr>]
      @ [(JCHF_SetMap NewJCHF)\<lparr>L4SrcPort := 443\<rparr>]) = Inr (os @ [(True, msg')], s') \<and>
     record_pair (snapshot_of ((JCHF_SetMap NewJCHF)\<lparr>L4SrcPort := 50000, InBytes := 7\<rparr>))
       ((JCHF_SetMap NewJCHF)\<lparr>L4SrcPort := 443\<rparr>) = Inr msg'"
  by (rule Stitch_pairs_within_capacity)
    (auto simp: ring_inv_def ring_wf_def ring_list_def JCHF_GetKey_def JCHF_SetMap_def NewJCHF_def
      zero_JCHF_def map_string_def stitch_ready_def)

text \<open>
  C38: a message that is stored (answered \<open>false\<close>) leaves the message unchanged
  and the buffer in its invariant, and the very next message with its key is matched with
  its counters; the match hands the entry out once, after it the key is free again.
\<close>

theorem Stitch_stored_matched_once:
  assumes "ring_inv (st_cache s)" "stitch_ready msg" "stitch_ready msg2"
    "JCHF_GetKey msg2 = JCHF_GetKey msg" "Stitcher_Stitch s msg = Inr (False, msg', s')"
  shows "ring_inv (st_cache s') \<and> msg' = msg \<and>
    (\<exists>msg2' s''. Stitcher_Stitch s' msg2 = Inr (True, msg2', s'') \<and>
       record_pair (snapshot_of msg) msg2 = Inr msg2' \<and>
       rb_index (st_cache s'') (JCHF_GetKey msg) = None \<and> ring_inv (st_cache s''))"
proof -
  have "rb_index (st_cache s) (JCHF_GetKey msg) = None"
  proof (cases "rb_index (st_cache s) (JCHF_GetKey msg)")
    case (Some slot)
    then obtain nm c where "RingBuffer_GetAndDelete (st_cache s) (JCHF_GetKey msg) = Inr (Some nm, c)"
      using ring_inv_GetAndDelete [OF assms(1), of "JCHF_GetKey msg"] by auto
    from Stitch_match [OF this assms(2)] assms(5) show ?thesis by auto
  qed
  note store = Stitch_store [OF assms(1) this]
  have put: "RingBuffer_Put (st_cache s) (JCHF_GetKey msg) (snapshot_of msg) = Inr (st_cache s')"
    using RingBuffer_Put_fresh [OF ring_inv_wf [OF assms(1)] \<open>rb_index _ _ = None\<close>] store assms(5) by auto
  have inv': "ring_inv (st_cache s')" using ring.put_invar [OF assms(1) put] .
  obtain c where c: "RingBuffer_GetAndDelete (st_cache s') (JCHF_GetKey msg2) = Inr (Some (snapshot_of msg), c)"
    "ring_inv c"
    using ring.handed_out_once [OF assms(1) put] assms(4) by auto
  moreover have "rb_index c (JCHF_GetKey msg) = None"
    using c(1) ring_inv_GetAndDelete [OF inv'] assms(4) by auto
  ultimately show ?thesis
    using Stitch_match [OF c(1) assms(3)] store assms(5) inv' by fastforce
qed

theorem Stitch_stored_matched_once_witness:
  "\<exists>msg2' s''. Stitcher_Stitch
     \<lparr>st_cache = \<lparr>rb_data = [\<lparr>entry_key = ''||'', entry_value = zero_snapshot\<rparr>],
        rb_index = [''||'' \<mapsto> 0], rb_head = 0, rb_tail = 0, rb_size = 1, rb_capacity = 1\<rparr>,
      st_FlowsIn = 1, st_FlowsMatched = 0\<rparr> (JCHF_SetMap NewJCHF) = Inr (True, msg2', s'') \<and>
     rb_index (st_cache s'') ''||'' = None"
proof -
  let ?m = "JCHF_SetMap NewJCHF"
  let ?s = "\<lparr>st_cache = \<lparr>rb_data = [\<lparr>entry_key = '''', entry_value = zero_snapshot\<rparr>],
        rb_index = Map.empty, rb_head = 0, rb_tail = 0, rb_size = 0, rb_capacity = 1\<rparr>,
      st_FlowsIn = 0, st_FlowsMatched = 0\<rparr>"
  have key: "JCHF_GetKey ?m = ''||''" and ready: "stitch_ready ?m"
    and snap: "snapshot_of ?m = zero_snapshot"
    by (simp_all add: JCHF_GetKey_def JCHF_SetMap_def NewJCHF_def zero_JCHF_def map_string_def
        stitch_ready_def snapshot_of_def zero_snapshot_def)
  have inv: "ring_inv (st_cache ?s)" by (simp add: ring_inv_def ring_wf_def)
  have "Stitcher_Stitch ?s ?m = Inr (False, ?m,
     \<lparr>st_cache = \<lparr>rb_data = [\<lparr>entry_key = ''||'', entry_value = zero_snapshot\<rparr>],
        rb_index = [''||'' \<mapsto> 0], rb_head = 0, rb_tail = 0, rb_size = 1, rb_capacity = 1\<rparr>,
      st_FlowsIn = 1, st_FlowsMatched = 0\<rparr>)"
    using key snap Stitch_store [OF inv, of ?m] by (simp add: ring_push_def dropped_def)
  from Stitch_stored_matched_once [OF inv ready ready refl this] show ?thesis using key by auto
qed

end
