(* ===== verification/Nf_Read.thy ===== *)
theory Nf_Read
  imports Go_Base
begin

text \<open>
  Byte readers: the package \<open>read\<close> of \<open>pkg/util/netflow/read/read.go\<close> and what it uses of
  Go's \<open>io\<close>, \<open>bytes\<close> and \<open>encoding/binary\<close>.  A reader over a \<open>bytes.Buffer\<close> is a
  function from the unread bytes to an error or a value with the bytes left.
  \<open>io.ReadFull\<close> fails unless all bytes are there; a direct \<open>Read\<close> returns what there is,
  leaves the rest of the target zero, and fails only on an empty buffer.  A packet that is
  returned beside an error is never used by the program and is not modelled.

  \<open>strict n r\<close> says that reader \<open>r\<close> takes exactly \<open>n\<close> bytes and fails on fewer; the
  decoders are shown strict field by field.
\<close>

unbundle bit_operations_syntax

named_theorems rd_simps "evaluation of readers"

datatype nf_error =
    IoEOF
  | IoUnexpectedEOF
  | IoShortBuffer
  | FlowsOutOfBounds u16
  | HeaderTruncated string nf_error
  | ZeroLengthBody
  | FlowSetHeaderTruncated nat
  | IllegalSetSize nat int
  | FlowSetTruncated nat int nat
  | MessageTooBig u16
  | MessageTruncated int nat nf_error
  | InvalidSetId
  | ScopeCountTooHigh u16 u16
  | WrongTemplateType nat u32 u16
  | InvalidVersion u16
  | UnsupportedVersion u16
  | VersionUnreadable nf_error
  | NfPanic go_panic

type_synonym 'a reader = "u8 list \<Rightarrow> nf_error + 'a \<times> u8 list"

section \<open>Readers\<close>

definition rd_return :: "'a \<Rightarrow> 'a reader" where
  "rd_return a = (\<lambda>bs. Inr (a, bs))"

definition rd_fail :: "nf_error \<Rightarrow> 'a reader" where
  "rd_fail e = (\<lambda>bs. Inl e)"

definition rd_bind :: "'a reader \<Rightarrow> ('a \<Rightarrow> 'b reader) \<Rightarrow> 'b reader" where
  "rd_bind r f = (\<lambda>bs. case r bs of Inl e \<Rightarrow> Inl e | Inr (a, rest) \<Rightarrow> f a rest)"

text \<open>The wrapping of an error with a message: \<open>fmt.Errorf("...: %v", err)\<close>.\<close>

definition rd_wrap :: "(nf_error \<Rightarrow> nf_error) \<Rightarrow> 'a reader \<Rightarrow> 'a reader" where
  "rd_wrap w r = (\<lambda>bs. case r bs of Inl e \<Rightarrow> Inl (w e) | Inr x \<Rightarrow> Inr x)"

text \<open>\<open>buffer.ReadFrom(r)\<close> into a fresh buffer and reading from that: the source is drained, whatever
  the reader takes.\<close>

definition rd_drain :: "'a reader \<Rightarrow> 'a reader" where
  "rd_drain r = (\<lambda>bs. case r bs of Inl e \<Rightarrow> Inl e | Inr (a, rest) \<Rightarrow> Inr (a, []))"

text \<open>A step that reads nothing and may fail.\<close>

definition rd_lift :: "nf_error + 'a \<Rightarrow> 'a reader" where
  "rd_lift m = (\<lambda>bs. map_sum id (\<lambda>a. (a, bs)) m)"

fun rd_many :: "nat \<Rightarrow> 'a reader \<Rightarrow> 'a list reader" where
  "rd_many 0 r = rd_return []"
| "rd_many (Suc n) r = rd_bind r (\<lambda>x. rd_bind (rd_many n r) (\<lambda>xs. rd_return (x # xs)))"

definition io_ReadFull :: "nat \<Rightarrow> u8 list reader" where
  "io_ReadFull n bs =
     (if n \<le> length bs then Inr (take n bs, drop n bs)
      else if bs = [] then Inl IoEOF else Inl IoUnexpectedEOF)"

definition buffer_Read :: "nat \<Rightarrow> u8 list reader" where
  "buffer_Read n bs =
     (if bs = [] then (if n = 0 then Inr ([], []) else Inl IoEOF)
      else Inr (take n bs @ replicate (n - length bs) 0, drop n bs))"

text \<open>\<open>binary.BigEndian.UintN\<close> and \<open>PutUintN\<close>, for any width.\<close>

definition be_word :: "u8 list \<Rightarrow> 'w::len word" where
  "be_word bs = foldl (\<lambda>acc b. push_bit 8 acc OR ucast b) 0 bs"

fun be_put :: "nat \<Rightarrow> 'w::len word \<Rightarrow> u8 list" where
  "be_put 0 w = []"
| "be_put (Suc n) w = be_put n (drop_bit 8 w) @ [ucast w]"

declare be_put.simps [simp del]

definition read_Uint8 :: "u8 reader" where
  "read_Uint8 = rd_bind (io_ReadFull 1) (\<lambda>b. rd_return (be_word b))"

definition read_Uint16 :: "u16 reader" where
  "read_Uint16 = rd_bind (io_ReadFull 2) (\<lambda>b. rd_return (be_word b))"

definition read_Uint32 :: "u32 reader" where
  "read_Uint32 = rd_bind (io_ReadFull 4) (\<lambda>b. rd_return (be_word b))"

definition read_Uint64 :: "u64 reader" where
  "read_Uint64 = rd_bind (io_ReadFull 8) (\<lambda>b. rd_return (be_word b))"

text \<open>
  \<open>VariableLength(nil, r)\<close>, the only call the program makes: a fresh slice of the announced
  length, filled by one direct \<open>Read\<close>.
\<close>

definition read_VariableLength :: "u8 list reader" where
  "read_VariableLength =
     rd_bind read_Uint8 (\<lambda>l0.
     if l0 < 255 then buffer_Read (unat l0)
     else rd_bind read_Uint16 (\<lambda>l1. buffer_Read (unat l1)))"

section \<open>Big-endian round trip\<close>

lemma be_word_snoc: "be_word (bs @ [b]) = push_bit 8 (be_word bs) OR ucast b"
  by (simp add: be_word_def)

lemma be_put_length [simp]: "length (be_put n w) = n"
  by (induction n arbitrary: w) (auto simp: be_put.simps)

lemma be_put_1 [simp]: "be_put (Suc 0) w = [ucast w]"
  by (simp add: be_put.simps)

lemma be_word_put_take_bit: "be_word (be_put n (w :: 'w::len word)) = take_bit (8 * n) w"
proof (induction n arbitrary: w)
  case 0
  then show ?case by (simp add: be_word_def be_put.simps)
next
  case (Suc n)
  have "be_word (be_put (Suc n) w) = push_bit 8 (take_bit (8 * n) (drop_bit 8 w)) OR ucast (ucast w :: u8)"
    by (simp add: be_word_snoc Suc.IH be_put.simps)
  also have "\<dots> = take_bit (8 * Suc n) w"
    by (rule bit_word_eqI) (auto simp: bit_simps)
  finally show ?case .
qed

lemma be_word_put: "LENGTH('w::len) \<le> 8 * n \<Longrightarrow> be_word (be_put n (w :: 'w word)) = w"
  by (simp add: be_word_put_take_bit take_bit_word_eq_self)

lemma be_put_word:
  assumes "8 * length bs \<le> LENGTH('w::len)"
  shows "be_put (length bs) (be_word bs :: 'w word) = bs"
  using assms
proof (induction bs rule: rev_induct)
  case Nil
  then show ?case by (simp add: be_put.simps)
next
  case (snoc b bs)
  have "drop_bit 8 (push_bit 8 (be_word bs :: 'w word) OR ucast b) = be_word bs" if small: "8 * length bs + 8 \<le> LENGTH('w)"
  proof -
    have tb: "take_bit (8 * length bs) (be_word bs :: 'w word) = be_word bs"
      using snoc.IH snoc.prems be_word_put_take_bit [of "length bs" "be_word bs :: 'w word"] by simp
    have "i < 8 * length bs" if "bit (be_word bs :: 'w word) i" for i
      using arg_cong [OF tb, of "\<lambda>w. bit w i"] that by (simp add: bit_simps)
    then show ?thesis using small
      by (intro bit_word_eqI) (fastforce simp: bit_simps dest: bit_imp_le_length)
  qed
  moreover have "ucast (push_bit 8 (be_word bs :: 'w word) OR ucast b) = b"
    using snoc.prems by (intro bit_word_eqI) (auto simp: bit_simps)
  ultimately show ?case using snoc by (simp add: be_word_snoc be_put.simps)
qed

lemma u16_ge_1: "1 \<le> (w :: u16) \<longleftrightarrow> w \<noteq> 0"
  by (simp add: word_le_nat_alt Suc_le_eq unat_gt_0)

section \<open>Evaluating readers\<close>

lemma rd_return_apply [simp]: "rd_return a bs = Inr (a, bs)"
  by (simp add: rd_return_def)

lemma rd_fail_apply [simp]: "rd_fail e bs = Inl e"
  by (simp add: rd_fail_def)

lemma rd_bind_Inr: "r bs = Inr (a, rest) \<Longrightarrow> rd_bind r f bs = f a rest"
  by (simp add: rd_bind_def)

lemma rd_bind_eq_Inr:
  "rd_bind r f bs = Inr y \<longleftrightarrow> (\<exists>a rest. r bs = Inr (a, rest) \<and> f a rest = Inr y)"
  by (auto simp: rd_bind_def split: sum.splits prod.splits)

lemma rd_drain_eq_Inr: "rd_drain r bs = Inr (a, rest) \<longleftrightarrow> rest = [] \<and> (\<exists>rest'. r bs = Inr (a, rest'))"
  by (auto simp: rd_drain_def split: sum.splits)

lemma rd_lift_eq_Inr: "rd_lift m bs = Inr (a, rest) \<longleftrightarrow> m = Inr a \<and> rest = bs"
  by (cases m) (auto simp: rd_lift_def)

lemma rd_lift_Inr [simp]: "rd_lift (Inr a) bs = Inr (a, bs)"
  by (simp add: rd_lift_def)

lemma rd_wrap_Inr: "r bs = Inr x \<Longrightarrow> rd_wrap w r bs = Inr x"
  by (simp add: rd_wrap_def)

lemma io_ReadFull_append [rd_simps]: "n = length xs \<Longrightarrow> io_ReadFull n (xs @ rest) = Inr (xs, rest)"
  by (simp add: io_ReadFull_def)

lemma read_Uint8_put [rd_simps]: "read_Uint8 (w # rest) = Inr (w, rest)"
  by (simp add: read_Uint8_def rd_bind_def io_ReadFull_def be_word_def)

lemma read_Uint16_put [rd_simps]: "read_Uint16 (be_put 2 w @ rest) = Inr (w, rest)"
  by (simp add: read_Uint16_def rd_bind_def io_ReadFull_append be_word_put)

lemma read_Uint32_put [rd_simps]: "read_Uint32 (be_put 4 w @ rest) = Inr (w, rest)"
  by (simp add: read_Uint32_def rd_bind_def io_ReadFull_append be_word_put)

lemma read_Uint64_put [rd_simps]: "read_Uint64 (be_put 8 w @ rest) = Inr (w, rest)"
  by (simp add: read_Uint64_def rd_bind_def io_ReadFull_append be_word_put)

lemma buffer_Read_append [rd_simps]: "n = length xs \<Longrightarrow> buffer_Read n (xs @ rest) = Inr (xs, rest)"
  by (auto simp: buffer_Read_def)

lemma rd_many_append:
  assumes "\<And>x rest. x \<in> set xs \<Longrightarrow> r (enc x @ rest) = Inr (x, rest)"
  shows "rd_many (length xs) r (concat (map enc xs) @ rest) = Inr (xs, rest)"
  using assms by (induction xs) (simp_all add: rd_bind_def)

section \<open>Readers that take an exact number of bytes\<close>

definition strict :: "nat \<Rightarrow> 'a reader \<Rightarrow> bool" where
  "strict n r \<longleftrightarrow> (\<forall>bs x rest. r bs = Inr (x, rest) \<longrightarrow> n \<le> length bs \<and> rest = drop n bs)"

lemma strictD: "strict n r \<Longrightarrow> r bs = Inr (x, rest) \<Longrightarrow> n \<le> length bs \<and> rest = drop n bs"
  by (simp add: strict_def)

lemma strict_return: "strict 0 (rd_return a)"
  by (simp add: strict_def rd_return_def)

lemma strict_fail: "strict n (rd_fail e)"
  by (simp add: strict_def rd_fail_def)

lemma strict_if: "strict n r \<Longrightarrow> strict n r' \<Longrightarrow> strict n (if c then r else r')"
  by simp

lemma strict_wrap: "strict n r \<Longrightarrow> strict n (rd_wrap w r)"
  by (auto simp: strict_def rd_wrap_def split: sum.splits)

lemma strict_ReadFull: "strict n (io_ReadFull n)"
  by (auto simp: strict_def io_ReadFull_def split: if_splits)

lemma strict_bind:
  assumes "strict n r" "\<And>x. strict m (f x)"
  shows "strict (n + m) (rd_bind r f)"
  unfolding strict_def
proof (intro allI impI)
  fix bs x rest
  assume "rd_bind r f bs = Inr (x, rest)"
  then obtain a mid where "r bs = Inr (a, mid)" "f a mid = Inr (x, rest)"
    by (auto simp: rd_bind_eq_Inr)
  with assms have "n \<le> length bs" "mid = drop n bs" "m \<le> length mid" "rest = drop m mid"
    by (auto dest: strictD)
  then show "n + m \<le> length bs \<and> rest = drop (n + m) bs" by (simp add: add.commute)
qed

text \<open>A direct read is strict as soon as something strict must be read after it.\<close>

lemma strict_Read_bind:
  assumes "0 < m" "\<And>x. strict m (f x)"
  shows "strict (n + m) (rd_bind (buffer_Read n) f)"
  unfolding strict_def
proof (intro allI impI)
  fix bs x rest
  assume "rd_bind (buffer_Read n) f bs = Inr (x, rest)"
  then obtain a mid where "buffer_Read n bs = Inr (a, mid)" "f a mid = Inr (x, rest)"
    by (auto simp: rd_bind_eq_Inr)
  moreover from this(1) have mid: "mid = drop n bs"
    by (auto simp: buffer_Read_def split: if_splits)
  ultimately have "m \<le> length mid \<and> rest = drop m mid"
    using strictD [OF assms(2)] by metis
  then show "n + m \<le> length bs \<and> rest = drop (n + m) bs"
    using assms(1) mid by (auto simp: add.commute)
qed

lemma strict_Uint8: "strict 1 read_Uint8"
  using strict_bind [OF strict_ReadFull [of 1] strict_return] by (simp add: read_Uint8_def)

lemma strict_Uint16: "strict 2 read_Uint16"
  using strict_bind [OF strict_ReadFull [of 2] strict_return] by (simp add: read_Uint16_def)

lemma strict_Uint32: "strict 4 read_Uint32"
  using strict_bind [OF strict_ReadFull [of 4] strict_return] by (simp add: read_Uint32_def)

lemma strict_Uint64: "strict 8 read_Uint64"
  using strict_bind [OF strict_ReadFull [of 8] strict_return] by (simp add: read_Uint64_def)

lemma strict_many: "strict n r \<Longrightarrow> strict (k * n) (rd_many k r)"
proof (induction k)
  case 0
  show ?case unfolding mult_0 rd_many.simps by (rule strict_return)
next
  case (Suc k)
  have "strict (n + (k * n + 0)) (rd_many (Suc k) r)"
    unfolding rd_many.simps
    by (rule strict_bind [OF Suc.prems strict_bind [OF Suc.IH [OF Suc.prems] strict_return]])
  then show ?case by simp
qed

lemma rd_many_length: "rd_many n r bs = Inr (xs, rest) \<Longrightarrow> length xs = n"
  by (induction n arbitrary: bs xs) (auto simp: rd_bind_eq_Inr rd_return_def)

text \<open>A weaker notion, for readers whose length depends on what they read.\<close>

definition consumes :: "nat \<Rightarrow> 'a reader \<Rightarrow> bool" where
  "consumes n r \<longleftrightarrow> (\<forall>bs x rest. r bs = Inr (x, rest) \<longrightarrow> length rest + n \<le> length bs)"

lemma consumesD: "consumes n r \<Longrightarrow> r bs = Inr (x, rest) \<Longrightarrow> length rest + n \<le> length bs"
  by (simp add: consumes_def)

lemma consumes_strict: "strict n r \<Longrightarrow> consumes n r"
  by (auto simp: consumes_def dest!: strictD)

lemma consumes_mono: "consumes n r \<Longrightarrow> m \<le> n \<Longrightarrow> consumes m r"
  by (fastforce simp: consumes_def)

lemma consumes_bind:
  assumes "consumes n r" "\<And>x. consumes m (f x)"
  shows "consumes (n + m) (rd_bind r f)"
  using assms by (fastforce simp: consumes_def rd_bind_eq_Inr)

lemma consumes_return: "consumes 0 (rd_return a)"
  by (simp add: consumes_def)

lemma consumes_Read: "consumes 0 (buffer_Read n)"
  by (auto simp: consumes_def buffer_Read_def split: if_splits)

lemma consumes_many: "consumes n r \<Longrightarrow> consumes 0 (rd_many k r)"
proof (induction k)
  case (Suc k)
  have "consumes (n + (0 + 0)) (rd_many (Suc k) r)"
    unfolding rd_many.simps
    by (intro consumes_bind consumes_return Suc.IH Suc.prems)
  then show ?case by (rule consumes_mono) simp
qed (simp add: consumes_return)

section \<open>Readers that never panic\<close>

fun nf_panics :: "nf_error + 'a \<Rightarrow> bool" where
  "nf_panics (Inl (NfPanic pn)) = True"
| "nf_panics _ = False"

lemma nf_panics_iff: "nf_panics r \<longleftrightarrow> (\<exists>pn. r = Inl (NfPanic pn))"
  by (cases r rule: nf_panics.cases) auto

lemma nf_panics_Inl: "nf_panics (Inl e) \<longleftrightarrow> (\<exists>pn. e = NfPanic pn)"
  by (simp add: nf_panics_iff)

definition no_panic :: "'a reader \<Rightarrow> bool" where
  "no_panic r \<longleftrightarrow> (\<forall>bs pn. r bs \<noteq> Inl (NfPanic pn))"

lemma no_panicD: "no_panic r \<Longrightarrow> r bs \<noteq> Inl (NfPanic pn)"
  by (simp add: no_panic_def)

lemma no_panic_not: "no_panic r \<Longrightarrow> \<not> nf_panics (r bs)"
  by (auto simp: no_panic_def nf_panics_iff)

lemma no_panic_return: "no_panic (rd_return a)"
  by (simp add: no_panic_def)

lemma no_panic_fail: "(\<And>pn. e \<noteq> NfPanic pn) \<Longrightarrow> no_panic (rd_fail e)"
  by (simp add: no_panic_def)

lemma no_panic_if: "no_panic r \<Longrightarrow> no_panic r' \<Longrightarrow> no_panic (if c then r else r')"
  by simp

lemma no_panic_ReadFull: "no_panic (io_ReadFull n)"
  by (simp add: no_panic_def io_ReadFull_def)

lemma no_panic_Read: "no_panic (buffer_Read n)"
  by (simp add: no_panic_def buffer_Read_def)

lemma no_panic_bind: "no_panic r \<Longrightarrow> (\<And>x. no_panic (f x)) \<Longrightarrow> no_panic (rd_bind r f)"
  by (auto simp: no_panic_def rd_bind_def split: sum.splits)

lemma no_panic_wrap: "(\<And>e pn. w e \<noteq> NfPanic pn) \<Longrightarrow> no_panic (rd_wrap w r)"
  by (auto simp: no_panic_def rd_wrap_def split: sum.splits)

lemma no_panic_drain: "no_panic r \<Longrightarrow> no_panic (rd_drain r)"
  by (auto simp: no_panic_def rd_drain_def split: sum.splits)

lemma no_panic_Uint8: "no_panic read_Uint8"
  unfolding read_Uint8_def by (intro no_panic_bind no_panic_ReadFull no_panic_return)

lemma no_panic_Uint16: "no_panic read_Uint16"
  unfolding read_Uint16_def by (intro no_panic_bind no_panic_ReadFull no_panic_return)

lemma no_panic_Uint32: "no_panic read_Uint32"
  unfolding read_Uint32_def by (intro no_panic_bind no_panic_ReadFull no_panic_return)

lemma no_panic_Uint64: "no_panic read_Uint64"
  unfolding read_Uint64_def by (intro no_panic_bind no_panic_ReadFull no_panic_return)

lemma no_panic_many: "no_panic r \<Longrightarrow> no_panic (rd_many n r)"
  by (induction n) (auto intro!: no_panic_bind no_panic_return)

lemma no_panic_VariableLength: "no_panic read_VariableLength"
  unfolding read_VariableLength_def
  by (intro no_panic_bind no_panic_Uint8) (simp add: no_panic_Read no_panic_bind no_panic_Uint16)

lemmas no_panic_intros =
  no_panic_bind no_panic_return no_panic_Read no_panic_drain no_panic_many no_panic_Uint8 no_panic_Uint16
  no_panic_Uint32 no_panic_Uint64

lemmas strict_intros =
  strict_return strict_fail strict_wrap strict_ReadFull strict_Uint8 strict_Uint16 strict_Uint32 strict_Uint64

end
