(* ===== verification/Netflow_Fixed.thy ===== *)
theory Netflow_Fixed
  imports Nf_Read
begin

text \<open>
  The decoders of the fixed-layout NetFlow versions 1, 5, 6 and 7
  (\<open>pkg/util/netflow/netflow1\<close>, \<open>netflow5\<close>, \<open>netflow6\<close>, \<open>netflow7\<close>; \<open>packet.go\<close> and
  \<open>decoder.go\<close>): the header with its count of flows, then that many records.  A duration is
  its number of nanoseconds, a time the pair of Unix seconds and nanoseconds.

  The four versions share the contract \<open>fixed_format\<close>: the locale proves the packet round
  trip from the header's and the record's, and \<open>strict_format\<close> proves that a decoded packet
  has taken exactly the bytes its count announces.  Version 7 only meets the first.
\<close>

unbundle bit_operations_syntax

text \<open>\<open>time.Unix(sec, nsec)\<close>: nanoseconds outside \<open>[0, 999999999]\<close> are carried over.\<close>

definition time_Unix :: "int \<Rightarrow> int \<Rightarrow> int \<times> int" where
  "time_Unix sec nsec = (sec + nsec div 1000000000, nsec mod 1000000000)"

section \<open>The shared contract\<close>

locale fixed_format =
  fixes unmarshal_header :: "'h reader"
    and cnt :: "'h \<Rightarrow> u16"
    and unmarshal_record :: "'r reader"
    and packet :: "'h \<Rightarrow> 'r list \<Rightarrow> 'p"
    and hsize :: nat
    and rlayout :: "'r \<Rightarrow> u8 list"
    and rok :: "'r \<Rightarrow> bool"
  assumes header_strict: "strict hsize unmarshal_header"
    and header_count: "unmarshal_header bs = Inr (h, rest) \<Longrightarrow> 1 \<le> cnt h \<and> cnt h \<le> 32"
    and record_roundtrip: "rok r \<Longrightarrow> unmarshal_record (rlayout r @ rest) = Inr (r, rest)"
begin

lemma packet_roundtrip:
  assumes "\<And>rest. unmarshal_header (hbytes @ rest) = Inr (h, rest)"
    and "length rs = unat (cnt h)" "\<And>r. r \<in> set rs \<Longrightarrow> rok r"
  shows "rd_bind unmarshal_header (\<lambda>h. rd_bind (rd_many (unat (cnt h)) unmarshal_record)
           (\<lambda>rs. rd_return (packet h rs))) (hbytes @ concat (map rlayout rs) @ rest) =
         Inr (packet h rs, rest)"
proof -
  have "rd_many (unat (cnt h)) unmarshal_record (concat (map rlayout rs) @ rest) = Inr (rs, rest)"
    using rd_many_append [of rs unmarshal_record rlayout rest] assms(2,3) record_roundtrip by simp
  then show ?thesis using assms(1) by (simp add: rd_bind_def)
qed

end

locale strict_format = fixed_format +
  fixes rsize :: nat
  assumes record_strict: "strict rsize unmarshal_record"
begin

lemma packet_exact:
  assumes "rd_bind unmarshal_header (\<lambda>h. rd_bind (rd_many (unat (cnt h)) unmarshal_record)
             (\<lambda>rs. rd_return (packet h rs))) bs = Inr (p, rest)"
  shows "\<exists>h rs. p = packet h rs \<and> length rs = unat (cnt h) \<and> 1 \<le> cnt h \<and> cnt h \<le> 32 \<and>
    hsize + rsize * unat (cnt h) \<le> length bs \<and> rest = drop (hsize + rsize * unat (cnt h)) bs"
proof -
  from assms obtain h mid rs where h: "unmarshal_header bs = Inr (h, mid)"
    and rs: "rd_many (unat (cnt h)) unmarshal_record mid = Inr (rs, rest)" and "p = packet h rs"
    by (auto simp: rd_bind_eq_Inr)
  moreover have "hsize \<le> length bs \<and> mid = drop hsize bs" using strictD [OF header_strict h] .
  moreover have "unat (cnt h) * rsize \<le> length mid \<and> rest = drop (unat (cnt h) * rsize) mid"
    using strictD [OF strict_many [OF record_strict] rs] .
  ultimately show ?thesis
    using header_count [OF h] rd_many_length [OF rs]
    by (intro exI [of _ h] exI [of _ rs]) (auto simp: ac_simps)
qed

end

section \<open>NetFlow version 1\<close>

record netflow1_PacketHeader =
  nf1_h_Version :: u16
  nf1_h_Count :: u16
  nf1_h_SysUptime :: i64
  nf1_h_Unix :: "int \<times> int"

record netflow1_FlowRecord =
  nf1_r_SrcAddr :: "u8 list"
  nf1_r_DstAddr :: "u8 list"
  nf1_r_NextHop :: "u8 list"
  nf1_r_Input :: u16
  nf1_r_Output :: u16
  nf1_r_Packets :: u32
  nf1_r_Bytes :: u32
  nf1_r_First :: u32
  nf1_r_Last :: u32
  nf1_r_SrcPort :: u16
  nf1_r_DstPort :: u16
  nf1_r_Pad1 :: u16
  nf1_r_Protocol :: u8
  nf1_r_ToS :: u8
  nf1_r_Flags :: u8
  nf1_r_Pad2 :: u8
  nf1_r_Pad3 :: u16
  nf1_r_Reserved :: u32

record netflow1_Packet =
  nf1_Header :: netflow1_PacketHeader
  nf1_Records :: "netflow1_FlowRecord list"

definition netflow1_PacketHeader_Unmarshal :: "netflow1_PacketHeader reader" where
  "netflow1_PacketHeader_Unmarshal =
     rd_bind read_Uint16 (\<lambda>Version.
     rd_bind read_Uint16 (\<lambda>Count.
     if Count < 1 \<or> 32 < Count then rd_fail (FlowsOutOfBounds Count) else
     rd_bind read_Uint32 (\<lambda>u.
     rd_bind read_Uint64 (\<lambda>t.
     rd_return \<lparr>nf1_h_Version = Version,
       nf1_h_Count = Count,
       nf1_h_SysUptime = ucast u,
       nf1_h_Unix = time_Unix (uint (drop_bit 32 t)) (uint (t AND 0xffffffff))\<rparr>))))"

definition netflow1_FlowRecord_Unmarshal :: "netflow1_FlowRecord reader" where
  "netflow1_FlowRecord_Unmarshal =
     rd_bind (buffer_Read 4) (\<lambda>SrcAddr.
     rd_bind (buffer_Read 4) (\<lambda>DstAddr.
     rd_bind (buffer_Read 4) (\<lambda>NextHop.
     rd_bind read_Uint16 (\<lambda>Input.
     rd_bind read_Uint16 (\<lambda>Output.
     rd_bind read_Uint32 (\<lambda>Packets.
     rd_bind read_Uint32 (\<lambda>Bytes.
     rd_bind read_Uint32 (\<lambda>First.
     rd_bind read_Uint32 (\<lambda>Last.
     rd_bind read_Uint16 (\<lambda>SrcPort.
     rd_bind read_Uint16 (\<lambda>DstPort.
     rd_bind read_Uint16 (\<lambda>Pad1.
     rd_bind read_Uint8 (\<lambda>Protocol.
     rd_bind read_Uint8 (\<lambda>ToS.
     rd_bind read_Uint8 (\<lambda>Flags.
     rd_bind read_Uint8 (\<lambda>Pad2.
     rd_bind read_Uint16 (\<lambda>Pad3.
     rd_bind read_Uint32 (\<lambda>Reserved.
          rd_return \<lparr>nf1_r_SrcAddr = SrcAddr, nf1_r_DstAddr = DstAddr, nf1_r_NextHop =
       NextHop, nf1_r_Input = Input, nf1_r_Output = Output, nf1_r_Packets = Packets, nf1_r_Bytes =
       Bytes, nf1_r_First = First, nf1_r_Last = Last, nf1_r_SrcPort = SrcPort, nf1_r_DstPort =
       DstPort, nf1_r_Pad1 = Pad1, nf1_r_Protocol = Protocol, nf1_r_ToS = ToS, nf1_r_Flags = Flags,
       nf1_r_Pad2 = Pad2, nf1_r_Pad3 = Pad3, nf1_r_Reserved = Reserved\<rparr>))))))))))))))))))"

definition netflow1_Packet_Unmarshal :: "netflow1_Packet reader" where
  "netflow1_Packet_Unmarshal =
     rd_bind netflow1_PacketHeader_Unmarshal (\<lambda>h.
     rd_bind (rd_many (unat (nf1_h_Count h)) netflow1_FlowRecord_Unmarshal) (\<lambda>rs.
     rd_return \<lparr>nf1_Header = h, nf1_Records = rs\<rparr>))"

definition netflow1_Read :: "netflow1_Packet reader" where
  "netflow1_Read = netflow1_Packet_Unmarshal"

text \<open>The wire layout of a flow record, 48 bytes, as the offsets in the source's comments give it.\<close>

definition netflow1_record_layout :: "netflow1_FlowRecord \<Rightarrow> u8 list" where
  "netflow1_record_layout r =
     nf1_r_SrcAddr r @
     nf1_r_DstAddr r @
     nf1_r_NextHop r @
     be_put 2 (nf1_r_Input r) @
     be_put 2 (nf1_r_Output r) @
     be_put 4 (nf1_r_Packets r) @
     be_put 4 (nf1_r_Bytes r) @
     be_put 4 (nf1_r_First r) @
     be_put 4 (nf1_r_Last r) @
     be_put 2 (nf1_r_SrcPort r) @
     be_put 2 (nf1_r_DstPort r) @
     be_put 2 (nf1_r_Pad1 r) @
     [nf1_r_Protocol r] @
     [nf1_r_ToS r] @
     [nf1_r_Flags r] @
     [nf1_r_Pad2 r] @
     be_put 2 (nf1_r_Pad3 r) @
     be_put 4 (nf1_r_Reserved r)"

definition netflow1_record_ok :: "netflow1_FlowRecord \<Rightarrow> bool" where
  "netflow1_record_ok r = (length (nf1_r_SrcAddr r) = 4 \<and> length (nf1_r_DstAddr r) = 4 \<and> length (nf1_r_NextHop r) = 4)"

text \<open>The wire layout of the header, 16 bytes, from the raw uptime and time words.\<close>

definition netflow1_header_layout :: "u16 \<Rightarrow> u16 \<Rightarrow> u32 \<Rightarrow> u64 \<Rightarrow> u8 list" where
  "netflow1_header_layout version cnt uptime unix =
     be_put 2 version @ be_put 2 cnt @ be_put 4 uptime @ be_put 8 unix"

lemma netflow1_header_roundtrip:
  "\<not> (cnt < 1 \<or> 32 < cnt) \<Longrightarrow>
     netflow1_PacketHeader_Unmarshal (netflow1_header_layout version cnt uptime unix @ rest) =
     Inr (\<lparr>nf1_h_Version = version, nf1_h_Count = cnt, nf1_h_SysUptime = ucast uptime, nf1_h_Unix = time_Unix (uint (drop_bit 32 unix)) (uint (unix AND 0xffffffff))\<rparr>, rest)"
  by (simp add: netflow1_PacketHeader_Unmarshal_def netflow1_header_layout_def rd_bind_def rd_simps)

lemma netflow1_record_roundtrip:
  "netflow1_record_ok r \<Longrightarrow> netflow1_FlowRecord_Unmarshal (netflow1_record_layout r @ rest) = Inr (r, rest)"
  by (simp add: netflow1_FlowRecord_Unmarshal_def netflow1_record_layout_def netflow1_record_ok_def
      rd_bind_def rd_simps)

lemma netflow1_header_strict: "strict 16 netflow1_PacketHeader_Unmarshal"
proof -
  have "strict (2 + (2 + (4 + (8 + (0))))) netflow1_PacketHeader_Unmarshal"
    unfolding netflow1_PacketHeader_Unmarshal_def
    by (intro strict_bind strict_if strict_intros)
  then show ?thesis by simp
qed

lemma netflow1_header_count:
  "netflow1_PacketHeader_Unmarshal bs = Inr (h, rest) \<Longrightarrow> 1 \<le> nf1_h_Count h \<and> nf1_h_Count h \<le> 32"
  by (auto simp: netflow1_PacketHeader_Unmarshal_def rd_bind_eq_Inr rd_return_def rd_fail_def u16_ge_1 not_less split: if_splits)

lemma netflow1_record_strict: "strict 48 netflow1_FlowRecord_Unmarshal"
proof -
  have "strict (4 + (4 + (4 + (2 + (2 + (4 + (4 + (4 + (4 + (2 + (2 + (2 + (1 + (1 + (1 + (1 + (2 + (4 + (0))))))))))))))))))) netflow1_FlowRecord_Unmarshal"
    unfolding netflow1_FlowRecord_Unmarshal_def
    by (intro strict_Read_bind strict_bind strict_intros; simp)
  then show ?thesis by simp
qed

interpretation nf1: strict_format netflow1_PacketHeader_Unmarshal nf1_h_Count netflow1_FlowRecord_Unmarshal
    "\<lambda>h rs. \<lparr>nf1_Header = h, nf1_Records = rs\<rparr>" 16 netflow1_record_layout netflow1_record_ok 48
  by unfold_locales
    (use netflow1_header_strict netflow1_header_count netflow1_record_roundtrip netflow1_record_strict in auto)

section \<open>NetFlow version 5\<close>

record netflow5_PacketHeader =
  nf5_h_Version :: u16
  nf5_h_Count :: u16
  nf5_h_SysUptime :: i64
  nf5_h_Unix :: "int \<times> int"
  nf5_h_FlowSequence :: u32
  nf5_h_EngineType :: u8
  nf5_h_EngineID :: u8
  nf5_h_SamplingInterval :: u16

record netflow5_FlowRecord =
  nf5_r_SrcAddr :: "u8 list"
  nf5_r_DstAddr :: "u8 list"
  nf5_r_NextHop :: "u8 list"
  nf5_r_Input :: u16
  nf5_r_Output :: u16
  nf5_r_Packets :: u32
  nf5_r_Bytes :: u32
  nf5_r_First :: u32
  nf5_r_Last :: u32
  nf5_r_SrcPort :: u16
  nf5_r_DstPort :: u16
  nf5_r_Pad1 :: u8
  nf5_r_TCPFlags :: u8
  nf5_r_Protocol :: u8
  nf5_r_ToS :: u8
  nf5_r_SrcAS :: u16
  nf5_r_DstAS :: u16
  nf5_r_SrcMask :: u8
  nf5_r_DstMask :: u8
  nf5_r_Pad2 :: u16

record netflow5_Packet =
  nf5_Header :: netflow5_PacketHeader
  nf5_Records :: "netflow5_FlowRecord list"

definition netflow5_PacketHeader_Unmarshal :: "netflow5_PacketHeader reader" where
  "netflow5_PacketHeader_Unmarshal =
     rd_bind read_Uint16 (\<lambda>Version.
     rd_bind read_Uint16 (\<lambda>Count.
     if Count < 1 \<or> 32 < Count then rd_fail (FlowsOutOfBounds Count) else
     rd_bind read_Uint32 (\<lambda>u.
     rd_bind read_Uint64 (\<lambda>t.
     rd_bind read_Uint32 (\<lambda>FlowSequence.
     rd_bind read_Uint8 (\<lambda>EngineType.
     rd_bind read_Uint8 (\<lambda>EngineID.
     rd_bind read_Uint16 (\<lambda>SamplingInterval.
     rd_return \<lparr>nf5_h_Version = Version,
       nf5_h_Count = Count,
       nf5_h_SysUptime = ucast u * 1000000,
       nf5_h_Unix = time_Unix (uint (drop_bit 32 t)) (uint (t AND 0xffffffff)),
       nf5_h_FlowSequence = FlowSequence,
       nf5_h_EngineType = EngineType,
       nf5_h_EngineID = EngineID,
       nf5_h_SamplingInterval = SamplingInterval\<rparr>))))))))"

definition netflow5_FlowRecord_Unmarshal :: "netflow5_FlowRecord reader" where
  "netflow5_FlowRecord_Unmarshal =
     rd_bind (buffer_Read 4) (\<lambda>SrcAddr.
     rd_bind (buffer_Read 4) (\<lambda>DstAddr.
     rd_bind (buffer_Read 4) (\<lambda>NextHop.
     rd_bind read_Uint16 (\<lambda>Input.
     rd_bind read_Uint16 (\<lambda>Output.
     rd_bind read_Uint32 (\<lambda>Packets.
     rd_bind read_Uint32 (\<lambda>Bytes.
     rd_bind read_Uint32 (\<lambda>First.
     rd_bind read_Uint32 (\<lambda>Last.
     rd_bind read_Uint16 (\<lambda>SrcPort.
     rd_bind read_Uint16 (\<lambda>DstPort.
     rd_bind read_Uint8 (\<lambda>Pad1.
     rd_bind read_Uint8 (\<lambda>TCPFlags.
     rd_bind read_Uint8 (\<lambda>Protocol.
     rd_bind read_Uint8 (\<lambda>ToS.
     rd_bind read_Uint16 (\<lambda>SrcAS.
     rd_bind read_Uint16 (\<lambda>DstAS.
     rd_bind read_Uint8 (\<lambda>SrcMask.
     rd_bind read_Uint8 (\<lambda>DstMask.
     rd_bind read_Uint16 (\<lambda>Pad2.
          rd_return \<lparr>nf5_r_SrcAddr = SrcAddr, nf5_r_DstAddr = DstAddr, nf5_r_NextHop =
       NextHop, nf5_r_Input = Input, nf5_r_Output = Output, nf5_r_Packets = Packets, nf5_r_Bytes =
       Bytes, nf5_r_First = First, nf5_r_Last = Last, nf5_r_SrcPort = SrcPort, nf5_r_DstPort =
       DstPort, nf5_r_Pad1 = Pad1, nf5_r_TCPFlags = TCPFlags, nf5_r_Protocol = Protocol, nf5_r_ToS =
       ToS, nf5_r_SrcAS = SrcAS, nf5_r_DstAS = DstAS, nf5_r_SrcMask = SrcMask, nf5_r_DstMask =
       DstMask, nf5_r_Pad2 = Pad2\<rparr>))))))))))))))))))))"

definition netflow5_Packet_Unmarshal :: "netflow5_Packet reader" where
  "netflow5_Packet_Unmarshal =
     rd_bind netflow5_PacketHeader_Unmarshal (\<lambda>h.
     rd_bind (rd_many (unat (nf5_h_Count h)) netflow5_FlowRecord_Unmarshal) (\<lambda>rs.
     rd_return \<lparr>nf5_Header = h, nf5_Records = rs\<rparr>))"

definition netflow5_Read :: "netflow5_Packet reader" where
  "netflow5_Read = netflow5_Packet_Unmarshal"

text \<open>The wire layout of a flow record, 48 bytes, as the offsets in the source's comments give it.\<close>

definition netflow5_record_layout :: "netflow5_FlowRecord \<Rightarrow> u8 list" where
  "netflow5_record_layout r =
     nf5_r_SrcAddr r @
     nf5_r_DstAddr r @
     nf5_r_NextHop r @
     be_put 2 (nf5_r_Input r) @
     be_put 2 (nf5_r_Output r) @
     be_put 4 (nf5_r_Packets r) @
     be_put 4 (nf5_r_Bytes r) @
     be_put 4 (nf5_r_First r) @
     be_put 4 (nf5_r_Last r) @
     be_put 2 (nf5_r_SrcPort r) @
     be_put 2 (nf5_r_DstPort r) @
     [nf5_r_Pad1 r] @
     [nf5_r_TCPFlags r] @
     [nf5_r_Protocol r] @
     [nf5_r_ToS r] @
     be_put 2 (nf5_r_SrcAS r) @
     be_put 2 (nf5_r_DstAS r) @
     [nf5_r_SrcMask r] @
     [nf5_r_DstMask r] @
     be_put 2 (nf5_r_Pad2 r)"

definition netflow5_record_ok :: "netflow5_FlowRecord \<Rightarrow> bool" where
  "netflow5_record_ok r = (length (nf5_r_SrcAddr r) = 4 \<and> length (nf5_r_DstAddr r) = 4 \<and> length (nf5_r_NextHop r) = 4)"

text \<open>The wire layout of the header, 24 bytes, from the raw uptime and time words.\<close>

definition netflow5_header_layout :: "u16 \<Rightarrow> u16 \<Rightarrow> u32 \<Rightarrow> u64 \<Rightarrow> u32 \<Rightarrow> u8 \<Rightarrow> u8 \<Rightarrow> u16 \<Rightarrow> u8 list" where
  "netflow5_header_layout version cnt uptime unix FlowSequence EngineType EngineID SamplingInterval =
     be_put 2 version @ be_put 2 cnt @ be_put 4 uptime @ be_put 8 unix @ be_put 4 (FlowSequence) @ [EngineType] @ [EngineID] @ be_put 2 (SamplingInterval)"

lemma netflow5_header_roundtrip:
  "\<not> (cnt < 1 \<or> 32 < cnt) \<Longrightarrow>
     netflow5_PacketHeader_Unmarshal (netflow5_header_layout version cnt uptime unix FlowSequence EngineType EngineID SamplingInterval @ rest) =
     Inr (\<lparr>nf5_h_Version = version, nf5_h_Count = cnt, nf5_h_SysUptime = ucast uptime * 1000000, nf5_h_Unix = time_Unix (uint (drop_bit 32 unix)) (uint (unix AND 0xffffffff)), nf5_h_FlowSequence = FlowSequence, nf5_h_EngineType = EngineType, nf5_h_EngineID = EngineID, nf5_h_SamplingInterval = SamplingInterval\<rparr>, rest)"
  by (simp add: netflow5_PacketHeader_Unmarshal_def netflow5_header_layout_def rd_bind_def rd_simps)

lemma netflow5_record_roundtrip:
  "netflow5_record_ok r \<Longrightarrow> netflow5_FlowRecord_Unmarshal (netflow5_record_layout r @ rest) = Inr (r, rest)"
  by (simp add: netflow5_FlowRecord_Unmarshal_def netflow5_record_layout_def netflow5_record_ok_def
      rd_bind_def rd_simps)

lemma netflow5_header_strict: "strict 24 netflow5_PacketHeader_Unmarshal"
proof -
  have "strict (2 + (2 + (4 + (8 + (4 + (1 + (1 + (2 + (0))))))))) netflow5_PacketHeader_Unmarshal"
    unfolding netflow5_PacketHeader_Unmarshal_def
    by (intro strict_bind strict_if strict_intros)
  then show ?thesis by simp
qed

lemma netflow5_header_count:
  "netflow5_PacketHeader_Unmarshal bs = Inr (h, rest) \<Longrightarrow> 1 \<le> nf5_h_Count h \<and> nf5_h_Count h \<le> 32"
  by (auto simp: netflow5_PacketHeader_Unmarshal_def rd_bind_eq_Inr rd_return_def rd_fail_def u16_ge_1 not_less split: if_splits)

lemma netflow5_record_strict: "strict 48 netflow5_FlowRecord_Unmarshal"
proof -
  have "strict (4 + (4 + (4 + (2 + (2 + (4 + (4 + (4 + (4 + (2 + (2 + (1 + (1 + (1 + (1 + (2 + (2 + (1 + (1 + (2 + (0))))))))))))))))))))) netflow5_FlowRecord_Unmarshal"
    unfolding netflow5_FlowRecord_Unmarshal_def
    by (intro strict_Read_bind strict_bind strict_intros; simp)
  then show ?thesis by simp
qed

interpretation nf5: strict_format netflow5_PacketHeader_Unmarshal nf5_h_Count netflow5_FlowRecord_Unmarshal
    "\<lambda>h rs. \<lparr>nf5_Header = h, nf5_Records = rs\<rparr>" 24 netflow5_record_layout netflow5_record_ok 48
  by unfold_locales
    (use netflow5_header_strict netflow5_header_count netflow5_record_roundtrip netflow5_record_strict in auto)

section \<open>NetFlow version 6\<close>

record netflow6_PacketHeader =
  nf6_h_Version :: u16
  nf6_h_Count :: u16
  nf6_h_SysUptime :: i64
  nf6_h_Unix :: "int \<times> int"
  nf6_h_FlowSequence :: u32
  nf6_h_EngineType :: u8
  nf6_h_EngineID :: u8
  nf6_h_SamplingInterval :: u16

record netflow6_FlowRecord =
  nf6_r_SrcAddr :: "u8 list"
  nf6_r_DstAddr :: "u8 list"
  nf6_r_NextHop :: "u8 list"
  nf6_r_Input :: u16
  nf6_r_Output :: u16
  nf6_r_Packets :: u32
  nf6_r_Bytes :: u32
  nf6_r_First :: u32
  nf6_r_Last :: u32
  nf6_r_SrcPort :: u16
  nf6_r_DstPort :: u16
  nf6_r_Pad1 :: u8
  nf6_r_TCPFlags :: u8
  nf6_r_Protocol :: u8
  nf6_r_ToS :: u8
  nf6_r_SrcAS :: u16
  nf6_r_DstAS :: u16
  nf6_r_SrcMask :: u8
  nf6_r_DstMask :: u8
  nf6_r_Pad2 :: u16
  nf6_r_Pad3 :: u32

record netflow6_Packet =
  nf6_Header :: netflow6_PacketHeader
  nf6_Records :: "netflow6_FlowRecord list"

definition netflow6_PacketHeader_Unmarshal :: "netflow6_PacketHeader reader" where
  "netflow6_PacketHeader_Unmarshal =
     rd_bind read_Uint16 (\<lambda>Version.
     rd_bind read_Uint16 (\<lambda>Count.
     if Count < 1 \<or> 32 < Count then rd_fail (FlowsOutOfBounds Count) else
     rd_bind read_Uint32 (\<lambda>u.
     rd_bind read_Uint64 (\<lambda>t.
     rd_bind read_Uint32 (\<lambda>FlowSequence.
     rd_bind read_Uint8 (\<lambda>EngineType.
     rd_bind read_Uint8 (\<lambda>EngineID.
     rd_bind read_Uint16 (\<lambda>SamplingInterval.
     rd_return \<lparr>nf6_h_Version = Version,
       nf6_h_Count = Count,
       nf6_h_SysUptime = ucast u * 1000000,
       nf6_h_Unix = time_Unix (uint (drop_bit 32 t)) (uint (t AND 0xffffffff)),
       nf6_h_FlowSequence = FlowSequence,
       nf6_h_EngineType = EngineType,
       nf6_h_EngineID = EngineID,
       nf6_h_SamplingInterval = SamplingInterval\<rparr>))))))))"

definition netflow6_FlowRecord_Unmarshal :: "netflow6_FlowRecord reader" where
  "netflow6_FlowRecord_Unmarshal =
     rd_bind (buffer_Read 4) (\<lambda>SrcAddr.
     rd_bind (buffer_Read 4) (\<lambda>DstAddr.
     rd_bind (buffer_Read 4) (\<lambda>NextHop.
     rd_bind read_Uint16 (\<lambda>Input.
     rd_bind read_Uint16 (\<lambda>Output.
     rd_bind read_Uint32 (\<lambda>Packets.
     rd_bind read_Uint32 (\<lambda>Bytes.
     rd_bind read_Uint32 (\<lambda>First.
     rd_bind read_Uint32 (\<lambda>Last.
     rd_bind read_Uint16 (\<lambda>SrcPort.
     rd_bind read_Uint16 (\<lambda>DstPort.
     rd_bind read_Uint8 (\<lambda>Pad1.
     rd_bind read_Uint8 (\<lambda>TCPFlags.
     rd_bind read_Uint8 (\<lambda>Protocol.
     rd_bind read_Uint8 (\<lambda>ToS.
     rd_bind read_Uint16 (\<lambda>SrcAS.
     rd_bind read_Uint16 (\<lambda>DstAS.
     rd_bind read_Uint8 (\<lambda>SrcMask.
     rd_bind read_Uint8 (\<lambda>DstMask.
     rd_bind read_Uint16 (\<lambda>Pad2.
     rd_bind read_Uint32 (\<lambda>Pad3.
          rd_return \<lparr>nf6_r_SrcAddr = SrcAddr, nf6_r_DstAddr = DstAddr, nf6_r_NextHop =
       NextHop, nf6_r_Input = Input, nf6_r_Output = Output, nf6_r_Packets = Packets, nf6_r_Bytes =
       Bytes, nf6_r_First = First, nf6_r_Last = Last, nf6_r_SrcPort = SrcPort, nf6_r_DstPort =
       DstPort, nf6_r_Pad1 = Pad1, nf6_r_TCPFlags = TCPFlags, nf6_r_Protocol = Protocol, nf6_r_ToS =
       ToS, nf6_r_SrcAS = SrcAS, nf6_r_DstAS = DstAS, nf6_r_SrcMask = SrcMask, nf6_r_DstMask =
       DstMask, nf6_r_Pad2 = Pad2, nf6_r_Pad3 = Pad3\<rparr>)))))))))))))))))))))"

definition netflow6_Packet_Unmarshal :: "netflow6_Packet reader" where
  "netflow6_Packet_Unmarshal =
     rd_bind netflow6_PacketHeader_Unmarshal (\<lambda>h.
     rd_bind (rd_many (unat (nf6_h_Count h)) netflow6_FlowRecord_Unmarshal) (\<lambda>rs.
     rd_return \<lparr>nf6_Header = h, nf6_Records = rs\<rparr>))"

definition netflow6_Read :: "netflow6_Packet reader" where
  "netflow6_Read = netflow6_Packet_Unmarshal"

text \<open>The wire layout of a flow record, 52 bytes, as the offsets in the source's comments give it.\<close>

definition netflow6_record_layout :: "netflow6_FlowRecord \<Rightarrow> u8 list" where
  "netflow6_record_layout r =
     nf6_r_SrcAddr r @
     nf6_r_DstAddr r @
     nf6_r_NextHop r @
     be_put 2 (nf6_r_Input r) @
     be_put 2 (nf6_r_Output r) @
     be_put 4 (nf6_r_Packets r) @
     be_put 4 (nf6_r_Bytes r) @
     be_put 4 (nf6_r_First r) @
     be_put 4 (nf6_r_Last r) @
     be_put 2 (nf6_r_SrcPort r) @
     be_put 2 (nf6_r_DstPort r) @
     [nf6_r_Pad1 r] @
     [nf6_r_TCPFlags r] @
     [nf6_r_Protocol r] @
     [nf6_r_ToS r] @
     be_put 2 (nf6_r_SrcAS r) @
     be_put 2 (nf6_r_DstAS r) @
     [nf6_r_SrcMask r] @
     [nf6_r_DstMask r] @
     be_put 2 (nf6_r_Pad2 r) @
     be_put 4 (nf6_r_Pad3 r)"

definition netflow6_record_ok :: "netflow6_FlowRecord \<Rightarrow> bool" where
  "netflow6_record_ok r = (length (nf6_r_SrcAddr r) = 4 \<and> length (nf6_r_DstAddr r) = 4 \<and> length (nf6_r_NextHop r) = 4)"

text \<open>The wire layout of the header, 24 bytes, from the raw uptime and time words.\<close>

definition netflow6_header_layout :: "u16 \<Rightarrow> u16 \<Rightarrow> u32 \<Rightarrow> u64 \<Rightarrow> u32 \<Rightarrow> u8 \<Rightarrow> u8 \<Rightarrow> u16 \<Rightarrow> u8 list" where
  "netflow6_header_layout version cnt uptime unix FlowSequence EngineType EngineID SamplingInterval =
     be_put 2 version @ be_put 2 cnt @ be_put 4 uptime @ be_put 8 unix @ be_put 4 (FlowSequence) @ [EngineType] @ [EngineID] @ be_put 2 (SamplingInterval)"

lemma netflow6_header_roundtrip:
  "\<not> (cnt < 1 \<or> 32 < cnt) \<Longrightarrow>
     netflow6_PacketHeader_Unmarshal (netflow6_header_layout version cnt uptime unix FlowSequence EngineType EngineID SamplingInterval @ rest) =
     Inr (\<lparr>nf6_h_Version = version, nf6_h_Count = cnt, nf6_h_SysUptime = ucast uptime * 1000000, nf6_h_Unix = time_Unix (uint (drop_bit 32 unix)) (uint (unix AND 0xffffffff)), nf6_h_FlowSequence = FlowSequence, nf6_h_EngineType = EngineType, nf6_h_EngineID = EngineID, nf6_h_SamplingInterval = SamplingInterval\<rparr>, rest)"
  by (simp add: netflow6_PacketHeader_Unmarshal_def netflow6_header_layout_def rd_bind_def rd_simps)

lemma netflow6_record_roundtrip:
  "netflow6_record_ok r \<Longrightarrow> netflow6_FlowRecord_Unmarshal (netflow6_record_layout r @ rest) = Inr (r, rest)"
  by (simp add: netflow6_FlowRecord_Unmarshal_def netflow6_record_layout_def netflow6_record_ok_def
      rd_bind_def rd_simps)

lemma netflow6_header_strict: "strict 24 netflow6_PacketHeader_Unmarshal"
proof -
  have "strict (2 + (2 + (4 + (8 + (4 + (1 + (1 + (2 + (0))))))))) netflow6_PacketHeader_Unmarshal"
    unfolding netflow6_PacketHeader_Unmarshal_def
    by (intro strict_bind strict_if strict_intros)
  then show ?thesis by simp
qed

lemma netflow6_header_count:
  "netflow6_PacketHeader_Unmarshal bs = Inr (h, rest) \<Longrightarrow> 1 \<le> nf6_h_Count h \<and> nf6_h_Count h \<le> 32"
  by (auto simp: netflow6_PacketHeader_Unmarshal_def rd_bind_eq_Inr rd_return_def rd_fail_def u16_ge_1 not_less split: if_splits)

lemma netflow6_record_strict: "strict 52 netflow6_FlowRecord_Unmarshal"
proof -
  have "strict (4 + (4 + (4 + (2 + (2 + (4 + (4 + (4 + (4 + (2 + (2 + (1 + (1 + (1 + (1 + (2 + (2 + (1 + (1 + (2 + (4 + (0)))))))))))))))))))))) netflow6_FlowRecord_Unmarshal"
    unfolding netflow6_FlowRecord_Unmarshal_def
    by (intro strict_Read_bind strict_bind strict_intros; simp)
  then show ?thesis by simp
qed

interpretation nf6: strict_format netflow6_PacketHeader_Unmarshal nf6_h_Count netflow6_FlowRecord_Unmarshal
    "\<lambda>h rs. \<lparr>nf6_Header = h, nf6_Records = rs\<rparr>" 24 netflow6_record_layout netflow6_record_ok 52
  by unfold_locales
    (use netflow6_header_strict netflow6_header_count netflow6_record_roundtrip netflow6_record_strict in auto)

section \<open>NetFlow version 7\<close>

record netflow7_PacketHeader =
  nf7_h_Version :: u16
  nf7_h_Count :: u16
  nf7_h_SysUptime :: i64
  nf7_h_Unix :: "int \<times> int"
  nf7_h_FlowSequence :: u32
  nf7_h_Reserved :: u32

record netflow7_FlowRecord =
  nf7_r_SrcAddr :: "u8 list"
  nf7_r_DstAddr :: "u8 list"
  nf7_r_NextHop :: "u8 list"
  nf7_r_Input :: u16
  nf7_r_Output :: u16
  nf7_r_Packets :: u32
  nf7_r_Bytes :: u32
  nf7_r_First :: u32
  nf7_r_Last :: u32
  nf7_r_SrcPort :: u16
  nf7_r_DstPort :: u16
  nf7_r_Pad1 :: u8
  nf7_r_TCPFlags :: u8
  nf7_r_Protocol :: u8
  nf7_r_ToS :: u8
  nf7_r_SrcAS :: u16
  nf7_r_DstAS :: u16
  nf7_r_SrcMask :: u8
  nf7_r_DstMask :: u8
  nf7_r_Flags :: u16
  nf7_r_RouterSC :: "u8 list"

record netflow7_Packet =
  nf7_Header :: netflow7_PacketHeader
  nf7_Records :: "netflow7_FlowRecord list"

definition netflow7_PacketHeader_Unmarshal :: "netflow7_PacketHeader reader" where
  "netflow7_PacketHeader_Unmarshal =
     rd_bind read_Uint16 (\<lambda>Version.
     rd_bind read_Uint16 (\<lambda>Count.
     if Count < 1 \<or> 32 < Count then rd_fail (FlowsOutOfBounds Count) else
     rd_bind read_Uint32 (\<lambda>u.
     rd_bind read_Uint64 (\<lambda>t.
     rd_bind read_Uint32 (\<lambda>FlowSequence.
     rd_bind read_Uint32 (\<lambda>Reserved.
     rd_return \<lparr>nf7_h_Version = Version,
       nf7_h_Count = Count,
       nf7_h_SysUptime = ucast u * 1000000,
       nf7_h_Unix = time_Unix (uint (drop_bit 32 t)) (uint (t AND 0xffffffff)),
       nf7_h_FlowSequence = FlowSequence,
       nf7_h_Reserved = Reserved\<rparr>))))))"

definition netflow7_FlowRecord_Unmarshal :: "netflow7_FlowRecord reader" where
  "netflow7_FlowRecord_Unmarshal =
     rd_bind (buffer_Read 4) (\<lambda>SrcAddr.
     rd_bind (buffer_Read 4) (\<lambda>DstAddr.
     rd_bind (buffer_Read 4) (\<lambda>NextHop.
     rd_bind read_Uint16 (\<lambda>Input.
     rd_bind read_Uint16 (\<lambda>Output.
     rd_bind read_Uint32 (\<lambda>Packets.
     rd_bind read_Uint32 (\<lambda>Bytes.
     rd_bind read_Uint32 (\<lambda>First.
     rd_bind read_Uint32 (\<lambda>Last.
     rd_bind read_Uint16 (\<lambda>SrcPort.
     rd_bind read_Uint16 (\<lambda>DstPort.
     rd_bind read_Uint8 (\<lambda>Pad1.
     rd_bind read_Uint8 (\<lambda>TCPFlags.
     rd_bind read_Uint8 (\<lambda>Protocol.
     rd_bind read_Uint8 (\<lambda>ToS.
     rd_bind read_Uint16 (\<lambda>SrcAS.
     rd_bind read_Uint16 (\<lambda>DstAS.
     rd_bind read_Uint8 (\<lambda>SrcMask.
     rd_bind read_Uint8 (\<lambda>DstMask.
     rd_bind read_Uint16 (\<lambda>Flags.
     rd_bind (buffer_Read 4) (\<lambda>RouterSC.
          rd_return \<lparr>nf7_r_SrcAddr = SrcAddr, nf7_r_DstAddr = DstAddr, nf7_r_NextHop =
       NextHop, nf7_r_Input = Input, nf7_r_Output = Output, nf7_r_Packets = Packets, nf7_r_Bytes =
       Bytes, nf7_r_First = First, nf7_r_Last = Last, nf7_r_SrcPort = SrcPort, nf7_r_DstPort =
       DstPort, nf7_r_Pad1 = Pad1, nf7_r_TCPFlags = TCPFlags, nf7_r_Protocol = Protocol, nf7_r_ToS =
       ToS, nf7_r_SrcAS = SrcAS, nf7_r_DstAS = DstAS, nf7_r_SrcMask = SrcMask, nf7_r_DstMask =
       DstMask, nf7_r_Flags = Flags, nf7_r_RouterSC = RouterSC\<rparr>)))))))))))))))))))))"

definition netflow7_Packet_Unmarshal :: "netflow7_Packet reader" where
  "netflow7_Packet_Unmarshal =
     rd_bind netflow7_PacketHeader_Unmarshal (\<lambda>h.
     rd_bind (rd_many (unat (nf7_h_Count h)) netflow7_FlowRecord_Unmarshal) (\<lambda>rs.
     rd_return \<lparr>nf7_Header = h, nf7_Records = rs\<rparr>))"

definition netflow7_Read :: "netflow7_Packet reader" where
  "netflow7_Read = netflow7_Packet_Unmarshal"

text \<open>The wire layout of a flow record, 52 bytes, as the offsets in the source's comments give it.\<close>

definition netflow7_record_layout :: "netflow7_FlowRecord \<Rightarrow> u8 list" where
  "netflow7_record_layout r =
     nf7_r_SrcAddr r @
     nf7_r_DstAddr r @
     nf7_r_NextHop r @
     be_put 2 (nf7_r_Input r) @
     be_put 2 (nf7_r_Output r) @
     be_put 4 (nf7_r_Packets r) @
     be_put 4 (nf7_r_Bytes r) @
     be_put 4 (nf7_r_First r) @
     be_put 4 (nf7_r_Last r) @
     be_put 2 (nf7_r_SrcPort r) @
     be_put 2 (nf7_r_DstPort r) @
     [nf7_r_Pad1 r] @
     [nf7_r_TCPFlags r] @
     [nf7_r_Protocol r] @
     [nf7_r_ToS r] @
     be_put 2 (nf7_r_SrcAS r) @
     be_put 2 (nf7_r_DstAS r) @
     [nf7_r_SrcMask r] @
     [nf7_r_DstMask r] @
     be_put 2 (nf7_r_Flags r) @
     nf7_r_RouterSC r"

definition netflow7_record_ok :: "netflow7_FlowRecord \<Rightarrow> bool" where
  "netflow7_record_ok r = (length (nf7_r_SrcAddr r) = 4 \<and> length (nf7_r_DstAddr r) = 4 \<and> length (nf7_r_NextHop r) = 4 \<and> length (nf7_r_RouterSC r) = 4)"

text \<open>The wire layout of the header, 24 bytes, from the raw uptime and time words.\<close>

definition netflow7_header_layout :: "u16 \<Rightarrow> u16 \<Rightarrow> u32 \<Rightarrow> u64 \<Rightarrow> u32 \<Rightarrow> u32 \<Rightarrow> u8 list" where
  "netflow7_header_layout version cnt uptime unix FlowSequence Reserved =
     be_put 2 version @ be_put 2 cnt @ be_put 4 uptime @ be_put 8 unix @ be_put 4 (FlowSequence) @ be_put 4 (Reserved)"

lemma netflow7_header_roundtrip:
  "\<not> (cnt < 1 \<or> 32 < cnt) \<Longrightarrow>
     netflow7_PacketHeader_Unmarshal (netflow7_header_layout version cnt uptime unix FlowSequence Reserved @ rest) =
     Inr (\<lparr>nf7_h_Version = version, nf7_h_Count = cnt, nf7_h_SysUptime = ucast uptime * 1000000, nf7_h_Unix = time_Unix (uint (drop_bit 32 unix)) (uint (unix AND 0xffffffff)), nf7_h_FlowSequence = FlowSequence, nf7_h_Reserved = Reserved\<rparr>, rest)"
  by (simp add: netflow7_PacketHeader_Unmarshal_def netflow7_header_layout_def rd_bind_def rd_simps)

lemma netflow7_record_roundtrip:
  "netflow7_record_ok r \<Longrightarrow> netflow7_FlowRecord_Unmarshal (netflow7_record_layout r @ rest) = Inr (r, rest)"
  by (simp add: netflow7_FlowRecord_Unmarshal_def netflow7_record_layout_def netflow7_record_ok_def
      rd_bind_def rd_simps)

lemma netflow7_header_strict: "strict 24 netflow7_PacketHeader_Unmarshal"
proof -
  have "strict (2 + (2 + (4 + (8 + (4 + (4 + (0))))))) netflow7_PacketHeader_Unmarshal"
    unfolding netflow7_PacketHeader_Unmarshal_def
    by (intro strict_bind strict_if strict_intros)
  then show ?thesis by simp
qed

lemma netflow7_header_count:
  "netflow7_PacketHeader_Unmarshal bs = Inr (h, rest) \<Longrightarrow> 1 \<le> nf7_h_Count h \<and> nf7_h_Count h \<le> 32"
  by (auto simp: netflow7_PacketHeader_Unmarshal_def rd_bind_eq_Inr rd_return_def rd_fail_def u16_ge_1 not_less split: if_splits)

interpretation nf7: fixed_format netflow7_PacketHeader_Unmarshal nf7_h_Count netflow7_FlowRecord_Unmarshal
    "\<lambda>h rs. \<lparr>nf7_Header = h, nf7_Records = rs\<rparr>" 24 netflow7_record_layout netflow7_record_ok
  by unfold_locales
    (use netflow7_header_strict netflow7_header_count netflow7_record_roundtrip in auto)

section \<open>Properties\<close>

text \<open>
  C29: decoding the wire layout of a NetFlow version 5 packet, with a count between 1
  and 32 and that many records, gives back every header field and every record, with the
  uptime in nanoseconds, and leaves the bytes after the packet unread.
\<close>

theorem netflow5_roundtrip:
  assumes "1 \<le> cnt" "cnt \<le> 32" "length rs = unat cnt" "\<forall>r \<in> set rs. netflow5_record_ok r"
  shows "netflow5_Read (netflow5_header_layout version cnt uptime unix sq etype eid interval
             @ concat (map netflow5_record_layout rs) @ rest) =
    Inr (\<lparr>nf5_Header = \<lparr>nf5_h_Version = version, nf5_h_Count = cnt, nf5_h_SysUptime = ucast uptime * 1000000,
            nf5_h_Unix = time_Unix (uint (drop_bit 32 unix)) (uint (unix AND 0xffffffff)),
            nf5_h_FlowSequence = sq, nf5_h_EngineType = etype, nf5_h_EngineID = eid,
            nf5_h_SamplingInterval = interval\<rparr>, nf5_Records = rs\<rparr>, rest)"
  unfolding netflow5_Read_def netflow5_Packet_Unmarshal_def
proof (rule nf5.packet_roundtrip)
  have "\<not> (cnt < 1 \<or> 32 < cnt)" using assms(1,2) by auto
  then show "netflow5_PacketHeader_Unmarshal
      (netflow5_header_layout version cnt uptime unix sq etype eid interval @ rest') = Inr (\<lparr>nf5_h_Version = version,
        nf5_h_Count = cnt, nf5_h_SysUptime = ucast uptime * 1000000,
        nf5_h_Unix = time_Unix (uint (drop_bit 32 unix)) (uint (unix AND 0xffffffff)),
        nf5_h_FlowSequence = sq, nf5_h_EngineType = etype, nf5_h_EngineID = eid,
        nf5_h_SamplingInterval = interval\<rparr>, rest')" for rest'
    by (rule netflow5_header_roundtrip)
qed (use assms(3,4) in auto)

theorem netflow5_roundtrip_witness:
  "\<exists>p. netflow5_Read (netflow5_header_layout 5 1 1000 (2 ^ 32) 7 0 0 0 @ concat (map netflow5_record_layout
      [\<lparr>nf5_r_SrcAddr = [10, 0, 0, 1], nf5_r_DstAddr = [10, 0, 0, 2], nf5_r_NextHop = [0, 0, 0, 0],
        nf5_r_Input = 1, nf5_r_Output = 2, nf5_r_Packets = 3, nf5_r_Bytes = 400, nf5_r_First = 0, nf5_r_Last = 0,
        nf5_r_SrcPort = 443, nf5_r_DstPort = 50000, nf5_r_Pad1 = 0, nf5_r_TCPFlags = 2, nf5_r_Protocol = 6,
        nf5_r_ToS = 0, nf5_r_SrcAS = 0, nf5_r_DstAS = 0, nf5_r_SrcMask = 0, nf5_r_DstMask = 0, nf5_r_Pad2 = 0\<rparr>])
      @ [9]) = Inr (p, [9]) \<and> nf5_h_SysUptime (nf5_Header p) = 1000000000 \<and> length (nf5_Records p) = 1"
  by (subst netflow5_roundtrip) (simp_all add: netflow5_record_ok_def)

text \<open>
  C30: a packet of version 1, 5 or 6 that decodes has a count between 1 and 32, has
  exactly that many records, and was read from exactly the bytes the count announces: a
  truncated packet of these versions is always refused.
\<close>

theorem fixed_formats_exact:
  "(netflow1_Read bs1 = Inr (p1, rest1) \<longrightarrow>
      length (nf1_Records p1) = unat (nf1_h_Count (nf1_Header p1)) \<and>
      1 \<le> nf1_h_Count (nf1_Header p1) \<and> nf1_h_Count (nf1_Header p1) \<le> 32 \<and>
      length bs1 = 16 + 48 * length (nf1_Records p1) + length rest1) \<and>
   (netflow5_Read bs5 = Inr (p5, rest5) \<longrightarrow>
      length (nf5_Records p5) = unat (nf5_h_Count (nf5_Header p5)) \<and>
      1 \<le> nf5_h_Count (nf5_Header p5) \<and> nf5_h_Count (nf5_Header p5) \<le> 32 \<and>
      length bs5 = 24 + 48 * length (nf5_Records p5) + length rest5) \<and>
   (netflow6_Read bs6 = Inr (p6, rest6) \<longrightarrow>
      length (nf6_Records p6) = unat (nf6_h_Count (nf6_Header p6)) \<and>
      1 \<le> nf6_h_Count (nf6_Header p6) \<and> nf6_h_Count (nf6_Header p6) \<le> 32 \<and>
      length bs6 = 24 + 52 * length (nf6_Records p6) + length rest6)"
  by (auto simp: netflow1_Read_def netflow1_Packet_Unmarshal_def netflow5_Read_def netflow5_Packet_Unmarshal_def
      netflow6_Read_def netflow6_Packet_Unmarshal_def
      dest!: nf1.packet_exact nf5.packet_exact nf6.packet_exact)

definition version_count_packet :: "u8 \<Rightarrow> nat \<Rightarrow> u8 list" where
  "version_count_packet v n = [0, v, 0, 1] @ replicate n 0"

lemma version_count_packets_decode:
  "\<not> isl (netflow1_Read (version_count_packet 1 60))"
  "\<not> isl (netflow5_Read (version_count_packet 5 68))"
  "\<not> isl (netflow6_Read (version_count_packet 6 72))"
  by (code_simp+)

theorem fixed_formats_exact_witness:
  "\<exists>p1 r1 p5 r5 p6 r6. netflow1_Read (version_count_packet 1 60) = Inr (p1, r1) \<and>
     netflow5_Read (version_count_packet 5 68) = Inr (p5, r5) \<and>
     netflow6_Read (version_count_packet 6 72) = Inr (p6, r6) \<and>
     64 = 16 + 48 * length (nf1_Records p1) + length r1 \<and>
     72 = 24 + 48 * length (nf5_Records p5) + length r5 \<and>
     76 = 24 + 52 * length (nf6_Records p6) + length r6"
proof -
  obtain p1 r1 where 1: "netflow1_Read (version_count_packet 1 60) = Inr (p1, r1)"
    using version_count_packets_decode(1) by (cases "netflow1_Read (version_count_packet 1 60)") auto
  obtain p5 r5 where 5: "netflow5_Read (version_count_packet 5 68) = Inr (p5, r5)"
    using version_count_packets_decode(2) by (cases "netflow5_Read (version_count_packet 5 68)") auto
  obtain p6 r6 where 6: "netflow6_Read (version_count_packet 6 72) = Inr (p6, r6)"
    using version_count_packets_decode(3) by (cases "netflow6_Read (version_count_packet 6 72)") auto
  have len: "length (version_count_packet v n) = 4 + n" for v n by (simp add: version_count_packet_def)
  show ?thesis
    using fixed_formats_exact [of "version_count_packet 1 60" p1 r1 "version_count_packet 5 68" p5 r5
        "version_count_packet 6 72" p6 r6] 1 5 6 by (auto simp: len)
qed

text \<open>
  The last field of a version 7 record is filled by a direct \<open>Read\<close>, so a
  packet whose final record lacks one to three bytes of its router address still decodes, with
  the missing bytes read as zero; the other versions refuse such a packet.
\<close>

theorem netflow7_accepts_truncated:
  "\<exists>p. netflow7_Read (version_count_packet 7 71) = Inr (p, []) \<and>
     netflow7_Read (version_count_packet 7 72) = Inr (p, []) \<and>
     isl (netflow7_Read (version_count_packet 7 68))"
proof -
  have "isl (netflow7_Read (version_count_packet 7 68))" by code_simp
  moreover have "netflow7_Read (version_count_packet 7 71) = netflow7_Read (version_count_packet 7 72)"
    by code_simp
  moreover have "(case netflow7_Read (version_count_packet 7 72) of Inl e \<Rightarrow> False | Inr x \<Rightarrow> snd x = [])"
    by code_simp
  ultimately show ?thesis by (auto split: sum.splits)
qed

end
