(* ===== verification/Nf_Session.thy ===== *)
theory Nf_Session
  imports Nf_Read
begin

text \<open>
  Template sessions (\<open>pkg/util/netflow/session/session.go\<close>) and the template records the two
  template-based decoders store in them (\<open>netflow9/packet.go\<close>, \<open>ipfix/packet.go\<close>).  One session
  is shared by both decoders of a \<open>netflow.Decoder\<close>, so the stored \<open>Template\<close> interface value is
  a sum over the four record types.  A nil session is \<open>None\<close>.

  The locale \<open>template_store\<close> states what the decoders rely on: a lookup returns the template
  added last under the same source and template number, and nothing of another source.
\<close>

section \<open>Template records\<close>

record nf9_FieldSpecifier =
  nf9_fs_Type :: u16
  nf9_fs_Length :: u16

record nf9_TemplateRecord =
  nf9_tr_TemplateID :: u16
  nf9_tr_FieldCount :: u16
  nf9_tr_Fields :: "nf9_FieldSpecifier list"

record nf9_OptionsTemplateRecord =
  nf9_otr_TemplateID :: u16
  nf9_otr_ScopeFieldCount :: u16
  nf9_otr_ScopeFields :: "nf9_FieldSpecifier list"
  nf9_otr_FieldCount :: u16
  nf9_otr_Fields :: "nf9_FieldSpecifier list"

record ipfix_FieldSpecifier =
  ipfix_fs_InformationElementID :: u16
  ipfix_fs_Length :: u16
  ipfix_fs_EnterpriseNumber :: u32
  ipfix_fs_EnterpriseBitSet :: bool

record ipfix_TemplateRecord =
  ipfix_tr_TemplateID :: u16
  ipfix_tr_FieldCount :: u16
  ipfix_tr_Fields :: "ipfix_FieldSpecifier list"

record ipfix_OptionsTemplateRecord =
  ipfix_otr_TemplateID :: u16
  ipfix_otr_FieldCount :: u16
  ipfix_otr_Fields :: "ipfix_FieldSpecifier list"
  ipfix_otr_ScopeFieldCount :: u16
  ipfix_otr_ScopeFields :: "ipfix_FieldSpecifier list"

datatype nf_template =
    NF9_Template nf9_TemplateRecord
  | NF9_Options nf9_OptionsTemplateRecord
  | IPFIX_Template ipfix_TemplateRecord
  | IPFIX_Options ipfix_OptionsTemplateRecord

fun template_ID :: "nf_template \<Rightarrow> u16" where
  "template_ID (NF9_Template tr) = nf9_tr_TemplateID tr"
| "template_ID (NF9_Options otr) = nf9_otr_TemplateID otr"
| "template_ID (IPFIX_Template tr) = ipfix_tr_TemplateID tr"
| "template_ID (IPFIX_Options otr) = ipfix_otr_TemplateID otr"

section \<open>Sessions\<close>

type_synonym nf_session = "u32 \<times> u16 \<rightharpoonup> nf_template"

definition session_New :: nf_session where
  "session_New = (\<lambda>k. None)"

definition AddTemplate :: "nf_session \<Rightarrow> u32 \<Rightarrow> nf_template \<Rightarrow> nf_session" where
  "AddTemplate s sourceID t = s((sourceID, template_ID t) \<mapsto> t)"

definition GetTemplate :: "nf_session \<Rightarrow> u32 \<Rightarrow> u16 \<Rightarrow> nf_template option" where
  "GetTemplate s sourceID templateID = s (sourceID, templateID)"

text \<open>\<open>register\<close> of each record type: nothing without a session, \<open>AddTemplate\<close> otherwise.\<close>

definition register_template :: "u32 \<Rightarrow> nf_session option \<Rightarrow> nf_template \<Rightarrow> nf_session option" where
  "register_template sourceID s t = map_option (\<lambda>s. AddTemplate s sourceID t) s"

definition register_all :: "u32 \<Rightarrow> nf_template list \<Rightarrow> nf_session option \<Rightarrow> nf_session option" where
  "register_all sourceID ts s = foldl (register_template sourceID) s ts"

section \<open>The contract of a session\<close>

locale template_store =
  fixes new :: 's
    and add :: "'s \<Rightarrow> 'd \<Rightarrow> 't \<Rightarrow> 's"
    and get :: "'s \<Rightarrow> 'd \<Rightarrow> 'k \<Rightarrow> 't option"
    and ident :: "'t \<Rightarrow> 'k"
  assumes get_new: "get new d k = None"
    and get_add: "get (add s d t) d' k = (if d' = d \<and> k = ident t then Some t else get s d' k)"
begin

lemma get_add_all:
  "get (foldl (\<lambda>s t. add s d t) s ts) d' k =
     (case find (\<lambda>t. d' = d \<and> ident t = k) (rev ts) of Some t \<Rightarrow> Some t | None \<Rightarrow> get s d' k)"
proof (induction ts rule: rev_induct)
  case (snoc t ts)
  then show ?case by (auto simp: get_add)
qed simp

lemma add_all_other: "d' \<noteq> d \<Longrightarrow> get (foldl (\<lambda>s t. add s d t) s ts) d' k = get s d' k"
  by (induction ts arbitrary: s) (simp_all add: get_add)

text \<open>A store is well keyed when every template is found under its own number.\<close>

lemma keyed_new: "get new d k = Some t \<Longrightarrow> ident t = k"
  by (simp add: get_new)

lemma keyed_add:
  assumes "\<And>d k t. get s d k = Some t \<Longrightarrow> ident t = k" "get (add s d0 t0) d k = Some t"
  shows "ident t = k"
  using assms by (auto simp: get_add split: if_splits)

end

interpretation session: template_store session_New AddTemplate GetTemplate template_ID
  by unfold_locales (auto simp: session_New_def AddTemplate_def GetTemplate_def)

definition lookup_template :: "nf_session option \<Rightarrow> u32 \<Rightarrow> u16 \<Rightarrow> nf_template option" where
  "lookup_template s sourceID templateID = Option.bind s (\<lambda>s. GetTemplate s sourceID templateID)"

lemma register_all_Some:
  "register_all d ts (Some s) = Some (foldl (\<lambda>s t. AddTemplate s d t) s ts)"
  unfolding register_all_def by (induction ts arbitrary: s) (simp_all add: register_template_def)

lemma register_all_None [simp]: "register_all d ts None = None"
  unfolding register_all_def by (induction ts) (simp_all add: register_template_def)

lemma register_all_other:
  "d' \<noteq> d \<Longrightarrow> lookup_template (register_all d ts s) d' k = lookup_template s d' k"
  by (cases s) (simp_all add: lookup_template_def register_all_Some session.add_all_other)

end
