(* ===== verification/Nf_Translate.thy ===== *)
theory Nf_Translate
  imports Nf_Session
begin

text \<open>
  Translating raw field bytes into Go values: \<open>pkg/util/netflow/translate/translate.go\<close>.  A value
  of \<open>interface{}\<close> is a \<open>tvalue\<close>; a float is kept as its bits.  \<open>binary.BigEndian.UintN\<close> panics on
  a slice that is too short, and so do the index expressions, so \<open>Bytes\<close> may panic in the model;
  that it never does is a theorem.
\<close>

unbundle bit_operations_syntax

datatype FieldType =
    FT_Unknown | FT_Uint8 | FT_Uint16 | FT_Uint32 | FT_Uint64 | FT_Int8 | FT_Int16 | FT_Int32 | FT_Int64
  | FT_Float32 | FT_Float64 | FT_Boolean | FT_MacAddress | FT_OctetArray | FT_String | FT_DateTimeSeconds
  | FT_DateTimeMilliseconds | FT_DateTimeMicroseconds | FT_DateTimeNanoseconds | FT_Ipv4Address | FT_Ipv6Address

definition FieldTypes :: "string \<Rightarrow> FieldType" where
  "FieldTypes name = (case map_of
     [(''unsigned8'', FT_Uint8), (''unsigned16'', FT_Uint16), (''unsigned32'', FT_Uint32),
      (''unsigned64'', FT_Uint64), (''signed8'', FT_Int8), (''signed16'', FT_Int16), (''signed32'', FT_Int32),
      (''signed64'', FT_Int64), (''float32'', FT_Float32), (''float64'', FT_Float64), (''boolean'', FT_Boolean),
      (''macAddress'', FT_MacAddress), (''octetArray'', FT_OctetArray), (''string'', FT_String),
      (''dateTimeSeconds'', FT_DateTimeSeconds), (''dateTimeMilliseconds'', FT_DateTimeMilliseconds),
      (''dateTimeMicroseconds'', FT_DateTimeMicroseconds), (''dateTimeNanoseconds'', FT_DateTimeNanoseconds),
      (''ipv4Address'', FT_Ipv4Address), (''ipv6Address'', FT_Ipv6Address)] name of
       Some t \<Rightarrow> t | None \<Rightarrow> FT_Unknown)"

fun minLength :: "FieldType \<Rightarrow> nat" where
  "minLength FT_Uint8 = 1"
| "minLength FT_Int8 = 1"
| "minLength FT_Boolean = 1"
| "minLength FT_Uint16 = 1"
| "minLength FT_Int16 = 1"
| "minLength FT_Uint32 = 1"
| "minLength FT_Int32 = 1"
| "minLength FT_Float32 = 4"
| "minLength FT_DateTimeSeconds = 4"
| "minLength FT_Uint64 = 1"
| "minLength FT_Int64 = 1"
| "minLength FT_Float64 = 4"
| "minLength FT_DateTimeMilliseconds = 8"
| "minLength FT_DateTimeMicroseconds = 8"
| "minLength FT_DateTimeNanoseconds = 8"
| "minLength FT_MacAddress = 6"
| "minLength FT_Ipv4Address = 4"
| "minLength FT_Ipv6Address = 16"
| "minLength _ = 0"

record InformationElementEntry =
  iee_Name :: string
  iee_FieldID :: u16
  iee_EnterpriseID :: u32
  iee_Type :: FieldType

type_synonym element_key = "u32 \<times> u16"
type_synonym informationElements = "element_key \<rightharpoonup> InformationElementEntry"

text \<open>\<open>Key\<close>: the entry of an element, if there is one.\<close>

definition Translate_Key :: "informationElements \<Rightarrow> u32 \<Rightarrow> u16 \<Rightarrow> InformationElementEntry option" where
  "Translate_Key elements EnterpriseID FieldID = elements (EnterpriseID, FieldID)"

datatype tvalue =
    TNil
  | TU8 u8 | TU16 u16 | TU32 u32 | TU64 u64
  | TI8 u8 | TI16 u16 | TI32 i32 | TI64 i64
  | TFloat32 u32 | TFloat64 u64 | TFloat64of32 u32
  | TBool bool | TBytes "u8 list" | TString "u8 list" | TMac "u8 list" | TIP "u8 list"
  | TTime int int

section \<open>Reduced-size integers\<close>

definition be_Uint16 :: "u8 list \<Rightarrow> go_panic + u16" where
  "be_Uint16 bs = (if 2 \<le> length bs then Inr (be_word (take 2 bs)) else Inl IndexOutOfRange)"

definition be_Uint32 :: "u8 list \<Rightarrow> go_panic + u32" where
  "be_Uint32 bs = (if 4 \<le> length bs then Inr (be_word (take 4 bs)) else Inl IndexOutOfRange)"

definition be_Uint64 :: "u8 list \<Rightarrow> go_panic + u64" where
  "be_Uint64 bs = (if 8 \<le> length bs then Inr (be_word (take 8 bs)) else Inl IndexOutOfRange)"

text \<open>The two errors of the readers, \<open>tooManyBitsErr\<close> and \<open>reducedSizeErr\<close>, are one \<open>None\<close>: the
  caller only tests for an error.\<close>

definition reducedSizeReadUnsigned :: "u8 list \<Rightarrow> nat \<Rightarrow> go_panic + u64 option" where
  "reducedSizeReadUnsigned bs maxBits =
     (if maxBits < length bs * 8 then Inr None
      else if length bs = 1 then go_bind (slice_get bs 0) (\<lambda>b. Inr (Some (ucast b)))
      else if length bs = 2 then go_bind (be_Uint16 bs) (\<lambda>w. Inr (Some (ucast w)))
      else if length bs = 3 then
        go_bind (slice_get bs 0) (\<lambda>b0. go_bind (slice_get bs 1) (\<lambda>b1. go_bind (slice_get bs 2) (\<lambda>b2.
          Inr (Some (ucast (push_bit 16 (ucast b0 :: u32) + push_bit 8 (ucast b1) + ucast b2))))))
      else if length bs = 4 then go_bind (be_Uint32 bs) (\<lambda>w. Inr (Some (ucast w)))
      else if length bs = 8 then go_bind (be_Uint64 bs) (\<lambda>w. Inr (Some w))
      else Inr None)"

definition reducedSizeReadSigned :: "u8 list \<Rightarrow> nat \<Rightarrow> go_panic + i64 option" where
  "reducedSizeReadSigned bs maxBits =
     (if maxBits < length bs * 8 then Inr None
      else if length bs = 1 then go_bind (slice_get bs 0) (\<lambda>b. Inr (Some (scast b)))
      else if length bs = 2 then go_bind (be_Uint16 bs) (\<lambda>w. Inr (Some (scast w)))
      else if length bs = 4 then go_bind (be_Uint32 bs) (\<lambda>w. Inr (Some (scast w)))
      else if length bs = 8 then go_bind (be_Uint64 bs) (\<lambda>w. Inr (Some w))
      else Inr None)"

text \<open>\<open>reducedSizeRead(bs, &i)\<close> followed by the test of its error: the conversion of the value
  read, or the raw bytes.\<close>

definition reducedSizeRead :: "u8 list \<Rightarrow> (u64 \<Rightarrow> tvalue) \<Rightarrow> go_panic + u64 option \<Rightarrow> go_panic + tvalue" where
  "reducedSizeRead bs conv m =
     go_bind m (\<lambda>v. Inr (case v of Some w \<Rightarrow> conv w | None \<Rightarrow> TBytes bs))"

text \<open>\<open>time.Unix(0, 0).Add(d)\<close> for a duration of signed nanoseconds.\<close>

definition epoch_Add :: "i64 \<Rightarrow> tvalue" where
  "epoch_Add d = TTime (sint d div 1000000000) (sint d mod 1000000000)"

definition translate_Bytes :: "u8 list \<Rightarrow> FieldType \<Rightarrow> go_panic + tvalue" where
  "translate_Bytes bs t =
     (if length bs < minLength t then Inr (TBytes bs)
      else case t of
        FT_Uint8 \<Rightarrow> go_bind (slice_get bs 0) (\<lambda>b. Inr (TU8 b))
      | FT_Uint16 \<Rightarrow> reducedSizeRead bs (\<lambda>w. TU16 (ucast w)) (reducedSizeReadUnsigned bs 16)
      | FT_Uint32 \<Rightarrow> reducedSizeRead bs (\<lambda>w. TU32 (ucast w)) (reducedSizeReadUnsigned bs 32)
      | FT_Uint64 \<Rightarrow> reducedSizeRead bs TU64 (reducedSizeReadUnsigned bs 64)
      | FT_Int8 \<Rightarrow> go_bind (slice_get bs 0) (\<lambda>b. Inr (TI8 b))
      | FT_Int16 \<Rightarrow> reducedSizeRead bs (\<lambda>w. TI16 (ucast w)) (reducedSizeReadSigned bs 16)
      | FT_Int32 \<Rightarrow> reducedSizeRead bs (\<lambda>w. TI32 (ucast w)) (reducedSizeReadSigned bs 32)
      | FT_Int64 \<Rightarrow> reducedSizeRead bs TI64 (reducedSizeReadSigned bs 64)
      | FT_Float32 \<Rightarrow> go_bind (be_Uint32 bs) (\<lambda>w. Inr (TFloat32 w))
      | FT_Float64 \<Rightarrow>
          if length bs = 4 then go_bind (be_Uint32 bs) (\<lambda>w. Inr (TFloat64of32 w))
          else if length bs = 8 then go_bind (be_Uint64 bs) (\<lambda>w. Inr (TFloat64 w))
          else Inr (TBytes bs)
      | FT_Boolean \<Rightarrow> go_bind (slice_get bs 0) (\<lambda>b. Inr (TBool (b = 1)))
      | FT_Unknown \<Rightarrow> Inr (TBytes bs)
      | FT_OctetArray \<Rightarrow> Inr (TBytes bs)
      | FT_String \<Rightarrow> Inr (TString bs)
      | FT_MacAddress \<Rightarrow> Inr (TMac bs)
      | FT_Ipv4Address \<Rightarrow> Inr (TIP bs)
      | FT_Ipv6Address \<Rightarrow> Inr (TIP bs)
      | FT_DateTimeSeconds \<Rightarrow> go_bind (be_Uint32 bs) (\<lambda>w. Inr (TTime (uint w) 0))
      | FT_DateTimeMilliseconds \<Rightarrow> go_bind (be_Uint64 bs) (\<lambda>w. Inr (epoch_Add (w * 1000000)))
      | FT_DateTimeMicroseconds \<Rightarrow> go_bind (be_Uint64 bs) (\<lambda>w. Inr (epoch_Add (w * 1000)))
      | FT_DateTimeNanoseconds \<Rightarrow> go_bind (be_Uint64 bs) (\<lambda>w. Inr (epoch_Add w)))"

section \<open>Values of encoded integers\<close>

lemma reducedSizeReadUnsigned_total: "\<exists>v. reducedSizeReadUnsigned bs n = Inr v"
  by (simp add: reducedSizeReadUnsigned_def be_Uint16_def be_Uint32_def be_Uint64_def)

lemma reducedSizeReadSigned_total: "\<exists>v. reducedSizeReadSigned bs n = Inr v"
  by (simp add: reducedSizeReadSigned_def be_Uint16_def be_Uint32_def be_Uint64_def)

lemma reducedSizeRead_total: "\<exists>w. m = Inr w \<Longrightarrow> \<exists>v. reducedSizeRead bs conv m = Inr v"
  by (auto simp: reducedSizeRead_def)

lemma translate_Bytes_total: "\<exists>v. translate_Bytes bs t = Inr v"
  using reducedSizeRead_total [OF reducedSizeReadUnsigned_total [of bs]]
    reducedSizeRead_total [OF reducedSizeReadSigned_total [of bs]]
  by (cases t) (auto simp: translate_Bytes_def be_Uint32_def be_Uint64_def)

lemma ucast_up_down:
  "LENGTH('a::len) \<le> LENGTH('b::len) \<Longrightarrow> (ucast (ucast (w :: 'a word) :: 'b word) :: 'a word) = w"
  by (rule bit_word_eqI) (auto simp: bit_simps)

lemma translate_Bytes_u8 [rd_simps]: "translate_Bytes [b] FT_Uint8 = Inr (TU8 b)"
  by (simp add: translate_Bytes_def)

lemma translate_Bytes_u16 [rd_simps]: "translate_Bytes (be_put 2 w) FT_Uint16 = Inr (TU16 w)"
  by (simp add: translate_Bytes_def reducedSizeRead_def reducedSizeReadUnsigned_def be_Uint16_def be_word_put
      ucast_up_down)

lemma translate_Bytes_u32 [rd_simps]: "translate_Bytes (be_put 4 w) FT_Uint32 = Inr (TU32 w)"
  by (simp add: translate_Bytes_def reducedSizeRead_def reducedSizeReadUnsigned_def be_Uint32_def be_word_put
      ucast_up_down)

lemma translate_Bytes_u64 [rd_simps]: "translate_Bytes (be_put 8 w) FT_Uint64 = Inr (TU64 w)"
  by (simp add: translate_Bytes_def reducedSizeRead_def reducedSizeReadUnsigned_def be_Uint64_def be_word_put)

lemma translate_Bytes_seconds [rd_simps]:
  "translate_Bytes (be_put 4 (w :: u32)) FT_DateTimeSeconds = Inr (TTime (uint w) 0)"
  by (simp add: translate_Bytes_def be_Uint32_def be_word_put)

text \<open>The big-endian value of a byte string, and the unsigned value of a translated integer.\<close>

definition be_value :: "u8 list \<Rightarrow> int" where
  "be_value bs = foldl (\<lambda>acc b. acc * 256 + uint b) 0 bs"

fun unsigned_value :: "tvalue \<Rightarrow> int option" where
  "unsigned_value (TU8 w) = Some (uint w)"
| "unsigned_value (TU16 w) = Some (uint w)"
| "unsigned_value (TU32 w) = Some (uint w)"
| "unsigned_value (TU64 w) = Some (uint w)"
| "unsigned_value _ = None"

fun unsigned_width :: "FieldType \<Rightarrow> nat" where
  "unsigned_width FT_Uint16 = 2"
| "unsigned_width FT_Uint32 = 4"
| "unsigned_width FT_Uint64 = 8"
| "unsigned_width _ = 0"

lemma be_value_snoc: "be_value (bs @ [b]) = be_value bs * 256 + uint b"
  by (simp add: be_value_def)

lemma be_value_bounds: "0 \<le> be_value bs \<and> be_value bs < 256 ^ length bs"
proof (induction bs rule: rev_induct)
  case Nil
  then show ?case by (simp add: be_value_def)
next
  case (snoc b bs)
  have "0 \<le> uint b" "uint b < 256" using uint_lt2p [of b] by simp_all
  then show ?case using snoc by (simp add: be_value_snoc)
qed

lemma be_word_value:
  "8 * length bs \<le> LENGTH('w::len) \<Longrightarrow> uint (be_word bs :: 'w word) = be_value bs"
proof (induction bs rule: rev_induct)
  case Nil
  then show ?case by (simp add: be_value_def be_word_def)
next
  case (snoc b bs)
  let ?x = "be_word bs :: 'w word"
  have "push_bit 8 ?x OR ucast b = push_bit 8 ?x + ucast b"
    by (rule disjunctive_add [symmetric]) (auto simp: bit_simps dest: bit_imp_le_length)
  also have "\<dots> = of_int (be_value bs * 256 + uint b)"
    using snoc by (simp add: push_bit_eq_mult flip: snoc.IH)
  finally have "be_word (bs @ [b]) = (of_int (be_value (bs @ [b])) :: 'w word)"
    by (simp add: be_word_snoc be_value_snoc)
  moreover have "be_value (bs @ [b]) < 2 ^ LENGTH('w)"
  proof -
    have "(256 :: int) ^ length (bs @ [b]) = 2 ^ (8 * length (bs @ [b]))" unfolding power_mult by simp
    also have "\<dots> \<le> 2 ^ LENGTH('w)" using snoc.prems by (intro power_increasing) auto
    finally show ?thesis using be_value_bounds [of "bs @ [b]"] by linarith
  qed
  ultimately show ?case
    using be_value_bounds [of "bs @ [b]"] by (simp add: uint_word_of_int_eq take_bit_int_eq_self)
qed

lemma ucast_be_word:
  assumes "8 * length bs \<le> LENGTH('a::len)" "8 * length bs \<le> LENGTH('b::len)"
  shows "(ucast (be_word bs :: 'a word) :: 'b word) = be_word bs"
proof (rule word_uint_eqI)
  have "uint (be_word bs :: 'a word) < 2 ^ LENGTH('b)"
    using be_word_value [OF assms(1)] be_word_value [OF assms(2)] uint_lt2p [of "be_word bs :: 'b word"] by simp
  then have "uint (ucast (be_word bs :: 'a word) :: 'b word) = uint (be_word bs :: 'a word)"
    by (simp add: unsigned_ucast_eq take_bit_int_eq_self)
  then show "uint (ucast (be_word bs :: 'a word) :: 'b word) = uint (be_word bs :: 'b word)"
    using assms by (simp add: be_word_value)
qed

lemma be_word_3: "be_word [b0, b1, b2] = (push_bit 16 (ucast b0 :: u32) + push_bit 8 (ucast b1) + ucast b2 :: u32)"
proof -
  have "push_bit 16 (ucast b0 :: u32) + push_bit 8 (ucast b1) = push_bit 16 (ucast b0) OR push_bit 8 (ucast b1)"
    by (rule disjunctive_add) (auto simp: bit_simps dest: bit_imp_le_length)
  moreover have "(push_bit 16 (ucast b0 :: u32) OR push_bit 8 (ucast b1)) + ucast b2 =
      (push_bit 16 (ucast b0) OR push_bit 8 (ucast b1)) OR ucast b2"
    by (rule disjunctive_add) (auto simp: bit_simps dest: bit_imp_le_length)
  moreover have "(be_word [b0, b1, b2] :: u32) = push_bit 16 (ucast b0) OR push_bit 8 (ucast b1) OR ucast b2"
    by (simp add: be_word_def push_bit_or or.assoc)
  ultimately show ?thesis by (simp add: or.assoc)
qed

lemma reducedSizeReadUnsigned_eq:
  assumes "maxBits \<le> 64"
  shows "reducedSizeReadUnsigned bs maxBits =
    Inr (if length bs \<in> {1, 2, 3, 4, 8} \<and> length bs * 8 \<le> maxBits then Some (be_word bs) else None)"
proof -
  have 1: "(ucast b :: u64) = be_word [b]" for b by (simp add: be_word_def)
  have 3: "(ucast (push_bit 16 (ucast (bs ! 0) :: u32) + push_bit 8 (ucast (bs ! 1)) + ucast (bs ! 2)) :: u64) = be_word bs"
    if "length bs = 3"
  proof -
    from that have "bs = [bs ! 0, bs ! 1, bs ! 2]" by (auto simp: length_Suc_conv numeral_3_eq_3)
    then have "be_word bs = (push_bit 16 (ucast (bs ! 0) :: u32) + push_bit 8 (ucast (bs ! 1)) + ucast (bs ! 2) :: u32)"
      using be_word_3 [of "bs ! 0" "bs ! 1" "bs ! 2"] by simp
    then show ?thesis using that ucast_be_word [of bs, where 'a = 32 and 'b = 64] by simp
  qed
  have len1: "length bs = 1 \<Longrightarrow> [bs ! 0] = bs" by (auto simp: length_Suc_conv)
  show ?thesis
    using assms 3 len1 ucast_be_word [of bs, where 'a = 16 and 'b = 64] ucast_be_word [of bs, where 'a = 32 and 'b = 64]
    by (auto simp: reducedSizeReadUnsigned_def be_Uint16_def be_Uint32_def be_Uint64_def 1)
qed

lemma reducedSizeRead_conv:
  assumes "\<And>w. unsigned_value (conv w) = Some (uint (ucast w :: 'a::len word))" "LENGTH('a) \<le> 64"
  shows "\<exists>v. reducedSizeRead bs conv (reducedSizeReadUnsigned bs LENGTH('a)) = Inr v \<and>
    (if length bs \<in> {1, 2, 3, 4, 8} \<and> length bs * 8 \<le> LENGTH('a)
     then unsigned_value v = Some (be_value bs) else v = TBytes bs)"
proof -
  have "uint (ucast (be_word bs :: u64) :: 'a word) = be_value bs" if "length bs * 8 \<le> LENGTH('a)"
    using that assms(2) by (simp add: ucast_be_word be_word_value mult.commute)
  then show ?thesis using assms by (auto simp: reducedSizeRead_def reducedSizeReadUnsigned_eq)
qed

text \<open>
  An element of type \<open>unsigned16\<close>, \<open>unsigned32\<close> or \<open>unsigned64\<close>, at its full or at a
  reduced size of 1, 2, 3, 4 or 8 bytes that does not exceed the width of its type, translates to the big-endian value of its bytes; any other size,
  the reduced sizes of 5, 6 and 7 bytes of an \<open>unsigned64\<close> included, is returned as raw bytes.
\<close>

theorem translate_reduced_size:
  assumes "0 < unsigned_width t"
  shows "\<exists>v. translate_Bytes bs t = Inr v \<and>
    (if length bs \<in> {1, 2, 3, 4, 8} \<and> length bs \<le> unsigned_width t
     then unsigned_value v = Some (be_value bs) else v = TBytes bs)"
proof -
  have short: "length bs < 1 \<Longrightarrow> bs = []" by auto
  show ?thesis using assms short
      reducedSizeRead_conv [where 'a = 16 and bs = bs and conv = "\<lambda>w. TU16 (ucast w)"]
      reducedSizeRead_conv [where 'a = 32 and bs = bs and conv = "\<lambda>w. TU32 (ucast w)"]
      reducedSizeRead_conv [where 'a = 64 and bs = bs and conv = TU64]
    by (cases t) (auto simp: translate_Bytes_def split: if_splits)
qed

theorem translate_reduced_size_witness:
  "\<exists>v. translate_Bytes [1, 0, 2] FT_Uint64 = Inr v \<and> unsigned_value v = Some 65538"
  using translate_reduced_size [of FT_Uint64 "[1, 0, 2]"] by (simp add: be_value_def)

end
