(* ===== verification/Nf_Sets.thy ===== *)
theory Nf_Sets
  imports Nf_Session
begin

text \<open>
  What the two template-based decoders share: both read a sequence of sets, and each set either
  registers the templates it carries under the source of the message or is decoded with a template
  of the session.  The locale \<open>set_loop\<close> states this contract for a loop over the sets and derives
  from it that the loop leaves other sources alone, that it never panics, and that it fails to
  return exactly when it reaches a set whose decoding does not return.  \<open>Netflow9\<close> and \<open>Ipfix\<close>
  interpret it.
\<close>

text \<open>The result of decoding a message: \<open>None\<close> when the decoder does not return, otherwise the
  session it leaves and the packet or an error.\<close>

type_synonym 'p decoded = "(nf_session option \<times> (nf_error + 'p)) option"

text \<open>The state of such a loop before it reads a set: what bounds the number of sets, the number of
  the set, the session, the packet decoded so far and the bytes that are left.\<close>

type_synonym ('k, 'p) set_state = "'k \<times> nat \<times> nf_session option \<times> 'p \<times> u8 list"

text \<open>One set that is decoded without an error: \<open>budget\<close> allows another set, \<open>split\<close> cuts the
  header and the body of the next set off the bytes, \<open>decode\<close> decodes the body.\<close>

inductive set_step ::
    "('k \<Rightarrow> 'k option) \<Rightarrow> (u8 list \<Rightarrow> ('h \<times> u8 list \<times> u8 list) option) \<Rightarrow>
     (nat \<Rightarrow> 'h \<Rightarrow> u8 list \<Rightarrow> nf_session option \<Rightarrow> 'p \<Rightarrow> 'p decoded) \<Rightarrow>
     ('k, 'p) set_state \<Rightarrow> ('k, 'p) set_state \<Rightarrow> bool"
  for budget split decode where
  set_step: "budget k = Some k' \<Longrightarrow> split buf = Some (h, data, rest) \<Longrightarrow>
    decode i h data s p = Some (s', Inr p') \<Longrightarrow> set_step budget split decode (k, i, s, p, buf) (k', Suc i, s', p', rest)"

inductive_cases set_stepE: "set_step budget split decode (k, i, s, p, buf) st"

locale set_loop =
  fixes loop :: "'k \<Rightarrow> nat \<Rightarrow> nf_session option \<Rightarrow> 'p \<Rightarrow> u8 list \<Rightarrow> 'p decoded"
    and budget :: "'k \<Rightarrow> 'k option"
    and split :: "u8 list \<Rightarrow> ('h \<times> u8 list \<times> u8 list) option"
    and decode :: "nat \<Rightarrow> 'h \<Rightarrow> u8 list \<Rightarrow> nf_session option \<Rightarrow> 'p \<Rightarrow> 'p decoded"
    and source :: "'p \<Rightarrow> u32"
  assumes stop: "budget k = None \<or> split buf = None \<Longrightarrow> \<exists>r. loop k i s p buf = Some (s, r) \<and> \<not> nf_panics r"
    and turn: "budget k = Some k' \<Longrightarrow> split buf = Some (h, data, rest) \<Longrightarrow>
      loop k i s p buf = Option.bind (decode i h data s p) (\<lambda>(s', r).
        case r of Inl e \<Rightarrow> Some (s', Inl e) | Inr p' \<Rightarrow> loop k' (Suc i) s' p' rest)"
    and shorter: "split buf = Some (h, data, rest) \<Longrightarrow> length rest < length buf"
    and decode_session: "decode i h data s p = Some (s', r) \<Longrightarrow> \<exists>ts. s' = register_all (source p) ts s"
    and decode_source: "decode i h data s p = Some (s', Inr p') \<Longrightarrow> source p' = source p"
    and decode_no_panic: "decode i h data s p = Some (s', r) \<Longrightarrow> \<not> nf_panics r"
begin

lemma loop_cases:
  assumes "\<And>r. loop k i s p buf = Some (s, r) \<Longrightarrow> \<not> nf_panics r \<Longrightarrow> budget k = None \<or> split buf = None \<Longrightarrow> P"
    and "\<And>k' h data rest. budget k = Some k' \<Longrightarrow> split buf = Some (h, data, rest) \<Longrightarrow>
      decode i h data s p = None \<Longrightarrow> loop k i s p buf = None \<Longrightarrow> P"
    and "\<And>k' h data rest s1 e. budget k = Some k' \<Longrightarrow> split buf = Some (h, data, rest) \<Longrightarrow>
      decode i h data s p = Some (s1, Inl e) \<Longrightarrow> loop k i s p buf = Some (s1, Inl e) \<Longrightarrow> P"
    and "\<And>k' h data rest s1 p1. budget k = Some k' \<Longrightarrow> split buf = Some (h, data, rest) \<Longrightarrow>
      decode i h data s p = Some (s1, Inr p1) \<Longrightarrow> loop k i s p buf = loop k' (Suc i) s1 p1 rest \<Longrightarrow> P"
  shows P
proof (cases "budget k = None \<or> split buf = None")
  case True
  then show P using stop assms(1) by blast
next
  case False
  then obtain k' h data rest where go: "budget k = Some k'" "split buf = Some (h, data, rest)"
    by (metis option.exhaust prod_cases3)
  show P
  proof (cases "decode i h data s p")
    case None
    then show P using turn [OF go] assms(2) [OF go] by simp
  next
    case (Some x)
    obtain s1 r1 where x: "x = (s1, r1)" by (cases x)
    show P
    proof (cases r1)
      case (Inl e)
      then show P using Some x turn [OF go] assms(3) [OF go] by simp
    next
      case (Inr p1)
      then show P using Some x turn [OF go] assms(4) [OF go] by simp
    qed
  qed
qed

lemma loop_isolated:
  "loop k i s p buf = Some (s', r) \<Longrightarrow> d \<noteq> source p \<Longrightarrow> lookup_template s' d n = lookup_template s d n"
proof (induction "length buf" arbitrary: k i s p buf rule: less_induct)
  case less
  have one: "lookup_template s1 d n = lookup_template s d n" if "decode i h data s p = Some (s1, r1)" for h data s1 r1
    using decode_session [OF that] less.prems(2) by (auto simp: register_all_other)
  show ?case
    by (rule loop_cases [of k i s p buf]) (use less one decode_source shorter in \<open>fastforce+\<close>)
qed

lemma loop_no_panic: "loop k i s p buf = Some (s', r) \<Longrightarrow> \<not> nf_panics r"
proof (induction "length buf" arbitrary: k i s p buf rule: less_induct)
  case less
  show ?case
    by (rule loop_cases [of k i s p buf]) (use less decode_no_panic shorter in \<open>fastforce+\<close>)
qed

text \<open>A step does not change whether the loop returns, and a loop that does not return gets to a set
  whose decoding does not.\<close>

lemma loop_step:
  assumes "set_step budget split decode (k, i, s, p, buf) (k', i', s', p', buf')"
  shows "loop k i s p buf = loop k' i' s' p' buf'"
  using assms by (elim set_stepE) (simp add: turn)

lemma loop_steps:
  assumes "(set_step budget split decode)\<^sup>*\<^sup>* (k, i, s, p, buf) (k', i', s', p', buf')"
  shows "loop k i s p buf = loop k' i' s' p' buf'"
proof -
  have "case st of (k, i, s, p, buf) \<Rightarrow> case st' of (k', i', s', p', buf') \<Rightarrow> loop k i s p buf = loop k' i' s' p' buf'"
    if "(set_step budget split decode)\<^sup>*\<^sup>* st st'" for st st'
    using that
  proof (induction rule: rtranclp_induct)
    case (step st1 st2)
    then show ?case by (cases st1; cases st2) (auto dest: loop_step)
  qed (simp split: prod.split)
  from this [OF assms] show ?thesis by simp
qed

lemma loop_stuck:
  assumes "loop k i s p buf = None"
  shows "\<exists>k' i' s' p' buf' k'' h data rest. (set_step budget split decode)\<^sup>*\<^sup>* (k, i, s, p, buf) (k', i', s', p', buf') \<and>
    budget k' = Some k'' \<and> split buf' = Some (h, data, rest) \<and> decode i' h data s' p' = None"
  using assms
proof (induction "length buf" arbitrary: k i s p buf rule: less_induct)
  case less
  show ?case
  proof (rule loop_cases [of k i s p buf])
    fix k' h data rest s1 p1
    assume go: "budget k = Some k'" "split buf = Some (h, data, rest)" "decode i h data s p = Some (s1, Inr p1)"
      and "loop k i s p buf = loop k' (Suc i) s1 p1 rest"
    then have "loop k' (Suc i) s1 p1 rest = None" using less.prems by simp
    note IH = less.hyps [OF shorter [OF go(2)] this]
    have "set_step budget split decode (k, i, s, p, buf) (k', Suc i, s1, p1, rest)"
      using go by (rule set_step)
    note step = converse_rtranclp_into_rtranclp [of "set_step budget split decode", OF this]
    from IH show ?thesis by (elim exE conjE) (blast intro: step)
  next
    fix k' h data rest
    assume "budget k = Some k'" "split buf = Some (h, data, rest)" "decode i h data s p = None"
    then show ?thesis by blast
  qed (use less.prems in auto)
qed

theorem loop_None_iff:
  "loop k i s p buf = None \<longleftrightarrow>
    (\<exists>k' i' s' p' buf' k'' h data rest. (set_step budget split decode)\<^sup>*\<^sup>* (k, i, s, p, buf) (k', i', s', p', buf') \<and>
       budget k' = Some k'' \<and> split buf' = Some (h, data, rest) \<and> decode i' h data s' p' = None)"
proof
  assume "\<exists>k' i' s' p' buf' k'' h data rest. (set_step budget split decode)\<^sup>*\<^sup>* (k, i, s, p, buf) (k', i', s', p', buf') \<and>
       budget k' = Some k'' \<and> split buf' = Some (h, data, rest) \<and> decode i' h data s' p' = None"
  then show "loop k i s p buf = None" using loop_steps turn by fastforce
qed (rule loop_stuck)

end

end
