(* ===== verification/Netflow9.thy ===== *)
theory Netflow9
  imports Nf_Translate Nf_Sets
begin

text \<open>
  The NetFlow version 9 decoder: \<open>pkg/util/netflow/netflow9\<close> (\<open>packet.go\<close>, \<open>decoder.go\<close>,
  \<open>translate.go\<close>).  A packet is read as a whole; its flow sets register templates in the session
  or are decoded with the templates found there.  The session keeps what was registered before an
  error, so the decoder returns the session beside the packet or the error.

  The loops over the records of a data set have no bound of their own: they are
  \<open>partial_function\<close>s and \<open>None\<close> means that the decoder does not return.
  A nil translator is \<open>None\<close>; otherwise it is the table of information elements.
\<close>

section \<open>Data\<close>

record nf9_PacketHeader =
  nf9_h_Version :: u16
  nf9_h_Count :: u16
  nf9_h_SysUpTime :: u32
  nf9_h_UnixSecs :: u32
  nf9_h_SequenceNumber :: u32
  nf9_h_SourceID :: u32

record nf9_FlowSetHeader =
  nf9_fsh_ID :: u16
  nf9_fsh_Length :: u16

record nf9_TemplateFlowSet =
  nf9_tfs_Header :: nf9_FlowSetHeader
  nf9_tfs_Records :: "nf9_TemplateRecord list"

record nf9_OptionsTemplateFlowSet =
  nf9_ots_Header :: nf9_FlowSetHeader
  nf9_ots_Records :: "nf9_OptionsTemplateRecord list"

record nf9_TranslatedField =
  nf9_tf_Name :: string
  nf9_tf_Type :: u16
  nf9_tf_Value :: tvalue

record nf9_Field =
  nf9_f_Type :: u16
  nf9_f_Length :: u16
  nf9_f_Translated :: "nf9_TranslatedField option"
  nf9_f_Bytes :: "u8 list"

record nf9_DataRecord =
  nf9_dr_TemplateID :: u16
  nf9_dr_Fields :: "nf9_Field list"

record nf9_DataFlowSet =
  nf9_dfs_Header :: nf9_FlowSetHeader
  nf9_dfs_Records :: "nf9_DataRecord list"

record nf9_OptionsDataRecord =
  nf9_odr_TemplateID :: u16
  nf9_odr_ScopeFields :: "nf9_Field list"
  nf9_odr_Fields :: "nf9_Field list"

record nf9_OptionsDataFlowSet =
  nf9_ods_Header :: nf9_FlowSetHeader
  nf9_ods_Records :: "nf9_OptionsDataRecord list"

record nf9_Packet =
  nf9_Header :: nf9_PacketHeader
  nf9_TemplateFlowSets :: "nf9_TemplateFlowSet list"
  nf9_OptionsTemplateFlowSets :: "nf9_OptionsTemplateFlowSet list"
  nf9_DataFlowSets :: "nf9_DataFlowSet list"
  nf9_OptionsDataFlowSets :: "nf9_OptionsDataFlowSet list"

section \<open>Headers and templates\<close>

definition nf9_PacketHeader_Unmarshal :: "nf9_PacketHeader reader" where
  "nf9_PacketHeader_Unmarshal =
     rd_bind (rd_wrap (HeaderTruncated ''version'') read_Uint16) (\<lambda>Version.
     rd_bind (rd_wrap (HeaderTruncated ''count'') read_Uint16) (\<lambda>Count.
     rd_bind (rd_wrap (HeaderTruncated ''sysUpTime'') read_Uint32) (\<lambda>SysUpTime.
     rd_bind (rd_wrap (HeaderTruncated ''unix-secs'') read_Uint32) (\<lambda>UnixSecs.
     rd_bind (rd_wrap (HeaderTruncated ''sequence-number'') read_Uint32) (\<lambda>SequenceNumber.
     rd_bind (rd_wrap (HeaderTruncated ''source-id'') read_Uint32) (\<lambda>SourceID.
     rd_return \<lparr>nf9_h_Version = Version, nf9_h_Count = Count, nf9_h_SysUpTime = SysUpTime,
       nf9_h_UnixSecs = UnixSecs, nf9_h_SequenceNumber = SequenceNumber, nf9_h_SourceID = SourceID\<rparr>))))))"

definition nf9_FlowSetHeader_Unmarshal :: "nf9_FlowSetHeader reader" where
  "nf9_FlowSetHeader_Unmarshal =
     rd_bind read_Uint16 (\<lambda>ID. rd_bind read_Uint16 (\<lambda>Length.
     rd_return \<lparr>nf9_fsh_ID = ID, nf9_fsh_Length = Length\<rparr>))"

definition nf9_FieldSpecifier_Unmarshal :: "nf9_FieldSpecifier reader" where
  "nf9_FieldSpecifier_Unmarshal =
     rd_bind read_Uint16 (\<lambda>Type. rd_bind read_Uint16 (\<lambda>Length.
     rd_return \<lparr>nf9_fs_Type = Type, nf9_fs_Length = Length\<rparr>))"

definition nf9_FieldSpecifiers_Unmarshal :: "u16 \<Rightarrow> nf9_FieldSpecifier list reader" where
  "nf9_FieldSpecifiers_Unmarshal count = rd_many (unat count) nf9_FieldSpecifier_Unmarshal"

definition nf9_TemplateRecord_Unmarshal :: "nf9_TemplateRecord reader" where
  "nf9_TemplateRecord_Unmarshal =
     rd_bind read_Uint16 (\<lambda>TemplateID. rd_bind read_Uint16 (\<lambda>FieldCount.
     rd_bind (nf9_FieldSpecifiers_Unmarshal FieldCount) (\<lambda>Fields.
     rd_return \<lparr>nf9_tr_TemplateID = TemplateID, nf9_tr_FieldCount = FieldCount, nf9_tr_Fields = Fields\<rparr>)))"

definition nf9_TemplateRecord_Size :: "nf9_TemplateRecord \<Rightarrow> nat" where
  "nf9_TemplateRecord_Size tr = sum_list (map (\<lambda>f. unat (nf9_fs_Length f)) (nf9_tr_Fields tr))"

text \<open>The rest of the set is drained into a buffer of its own before the fields are read.\<close>

definition nf9_OptionsTemplateRecord_Unmarshal :: "nf9_OptionsTemplateRecord reader" where
  "nf9_OptionsTemplateRecord_Unmarshal =
     rd_bind read_Uint16 (\<lambda>TemplateID. rd_bind read_Uint16 (\<lambda>scope_bytes. rd_bind read_Uint16 (\<lambda>field_bytes.
     rd_drain (
     rd_bind (nf9_FieldSpecifiers_Unmarshal (scope_bytes div 4)) (\<lambda>ScopeFields.
     rd_bind (nf9_FieldSpecifiers_Unmarshal (field_bytes div 4)) (\<lambda>Fields.
     rd_return \<lparr>nf9_otr_TemplateID = TemplateID, nf9_otr_ScopeFieldCount = scope_bytes div 4,
       nf9_otr_ScopeFields = ScopeFields, nf9_otr_FieldCount = field_bytes div 4,
       nf9_otr_Fields = Fields\<rparr>))))))"

text \<open>\<open>UnmarshalRecords\<close>: records are read while more than four bytes are left.  Both record readers
  take bytes, so the loop ends.\<close>

function nf9_TemplateRecords :: "u8 list \<Rightarrow> nf_error + nf9_TemplateRecord list" where
  "nf9_TemplateRecords buffer =
     (if length buffer \<le> 4 then Inr []
      else case nf9_TemplateRecord_Unmarshal buffer of
        Inl e \<Rightarrow> Inl e
      | Inr (record, rest) \<Rightarrow>
          (case nf9_TemplateRecords rest of Inl e \<Rightarrow> Inl e | Inr rs \<Rightarrow> Inr (record # rs)))"
  by auto

lemma nf9_FieldSpecifier_strict: "strict 4 nf9_FieldSpecifier_Unmarshal"
  using strict_bind [OF strict_Uint16 strict_bind [OF strict_Uint16 strict_return]]
  unfolding nf9_FieldSpecifier_Unmarshal_def by (simp add: numeral_eq_Suc)

lemma nf9_FieldSpecifiers_consume: "consumes 0 (nf9_FieldSpecifiers_Unmarshal n)"
  unfolding nf9_FieldSpecifiers_Unmarshal_def
  by (rule consumes_many [OF consumes_strict [OF nf9_FieldSpecifier_strict]])

lemma nf9_TemplateRecord_consumes: "consumes 4 nf9_TemplateRecord_Unmarshal"
proof -
  have "consumes (2 + (2 + (0 + 0))) nf9_TemplateRecord_Unmarshal"
    unfolding nf9_TemplateRecord_Unmarshal_def
    by (intro consumes_bind consumes_return consumes_strict [OF strict_Uint16] nf9_FieldSpecifiers_consume)
  then show ?thesis by simp
qed

termination nf9_TemplateRecords
  by (relation "measure length") (auto dest!: consumesD [OF nf9_TemplateRecord_consumes])

declare nf9_TemplateRecords.simps [simp del]

definition nf9_TemplateFlowSet_UnmarshalRecords :: "nf9_FlowSetHeader \<Rightarrow> u8 list \<Rightarrow> nf_error + nf9_TemplateFlowSet" where
  "nf9_TemplateFlowSet_UnmarshalRecords header data =
     map_sum id (\<lambda>rs. \<lparr>nf9_tfs_Header = header, nf9_tfs_Records = rs\<rparr>) (nf9_TemplateRecords data)"

function nf9_OptionsTemplateRecords :: "u8 list \<Rightarrow> nf_error + nf9_OptionsTemplateRecord list" where
  "nf9_OptionsTemplateRecords buffer =
     (if length buffer \<le> 4 then Inr []
      else case nf9_OptionsTemplateRecord_Unmarshal buffer of
        Inl e \<Rightarrow> Inl e
      | Inr (record, rest) \<Rightarrow>
          (case nf9_OptionsTemplateRecords rest of Inl e \<Rightarrow> Inl e | Inr rs \<Rightarrow> Inr (record # rs)))"
  by auto

lemma nf9_OptionsTemplateRecord_drains:
  "nf9_OptionsTemplateRecord_Unmarshal bs = Inr (otr, rest) \<Longrightarrow> rest = []"
  by (auto simp: nf9_OptionsTemplateRecord_Unmarshal_def rd_bind_eq_Inr rd_drain_eq_Inr)

termination nf9_OptionsTemplateRecords
  by (relation "measure length") (auto dest!: nf9_OptionsTemplateRecord_drains)

declare nf9_OptionsTemplateRecords.simps [simp del]

definition nf9_OptionsTemplateFlowSet_UnmarshalRecords ::
    "nf9_FlowSetHeader \<Rightarrow> u8 list \<Rightarrow> nf_error + nf9_OptionsTemplateFlowSet" where
  "nf9_OptionsTemplateFlowSet_UnmarshalRecords header data =
     map_sum id (\<lambda>rs. \<lparr>nf9_ots_Header = header, nf9_ots_Records = rs\<rparr>) (nf9_OptionsTemplateRecords data)"

section \<open>Data records\<close>

text \<open>\<open>Translate.Record\<close>: the element of each field that was read.\<close>

definition nf9_translate_field :: "informationElements \<Rightarrow> nf9_FieldSpecifier \<Rightarrow> nf9_Field \<Rightarrow> nf_error + nf9_Field" where
  "nf9_translate_field elements fs f =
     (case Translate_Key elements 0 (nf9_fs_Type fs) of
        Some element \<Rightarrow>
          (case translate_Bytes (nf9_f_Bytes f) (iee_Type element) of
             Inl p \<Rightarrow> Inl (NfPanic p)
           | Inr v \<Rightarrow> Inr (f\<lparr>nf9_f_Translated := Some \<lparr>nf9_tf_Name = iee_Name element,
                                nf9_tf_Type = nf9_fs_Type fs, nf9_tf_Value = v\<rparr>\<rparr>))
      | None \<Rightarrow> Inr (f\<lparr>nf9_f_Translated := Some \<lparr>nf9_tf_Name = [], nf9_tf_Type = nf9_fs_Type fs,
                                nf9_tf_Value = TNil\<rparr>\<rparr>))"

fun nf9_Translate_Record ::
    "informationElements \<Rightarrow> nf9_Field list \<Rightarrow> nf9_FieldSpecifier list \<Rightarrow> nf_error + nf9_Field list" where
  "nf9_Translate_Record elements flds [] = Inr flds"
| "nf9_Translate_Record elements [] (fs # fss) = Inr []"
| "nf9_Translate_Record elements (f # flds) (fs # fss) =
     go_bind (nf9_translate_field elements fs f) (\<lambda>f'.
     go_bind (nf9_Translate_Record elements flds fss) (\<lambda>flds'. Inr (f' # flds')))"

definition nf9_Field_Unmarshal :: "nf9_FieldSpecifier \<Rightarrow> nf9_Field reader" where
  "nf9_Field_Unmarshal fs =
     rd_bind (buffer_Read (unat (nf9_fs_Length fs))) (\<lambda>b.
     rd_return \<lparr>nf9_f_Type = nf9_fs_Type fs, nf9_f_Length = nf9_fs_Length fs,
       nf9_f_Translated = None, nf9_f_Bytes = b\<rparr>)"

text \<open>The fields of a data record: the loop stops at the end of the buffer.\<close>

fun nf9_DataRecord_fields :: "nf9_FieldSpecifier list \<Rightarrow> nf9_Field list reader" where
  "nf9_DataRecord_fields [] buffer = Inr ([], buffer)"
| "nf9_DataRecord_fields (fs # fss) buffer =
     (if buffer = [] then Inr ([], [])
      else rd_bind (nf9_Field_Unmarshal fs) (\<lambda>f.
           rd_bind (nf9_DataRecord_fields fss) (\<lambda>flds. rd_return (f # flds))) buffer)"

definition nf9_DataRecord_Unmarshal ::
    "u16 \<Rightarrow> nf9_FieldSpecifier list \<Rightarrow> informationElements option \<Rightarrow> u8 list \<Rightarrow> nf_error + nf9_DataRecord" where
  "nf9_DataRecord_Unmarshal templateID fss t data =
     go_bind (nf9_DataRecord_fields fss data) (\<lambda>(flds, _).
     go_bind (case t of
         Some elements \<Rightarrow> if flds \<noteq> [] then nf9_Translate_Record elements flds fss else Inr flds
       | None \<Rightarrow> Inr flds) (\<lambda>flds'.
     Inr \<lparr>nf9_dr_TemplateID = templateID, nf9_dr_Fields = flds'\<rparr>))"

text \<open>\<open>buffer.Next(n)\<close> takes at most what is there.\<close>

partial_function (option) nf9_DataRecords ::
    "nf9_TemplateRecord \<Rightarrow> informationElements option \<Rightarrow> u8 list \<Rightarrow> nf9_DataRecord list \<Rightarrow>
     (nf_error + nf9_DataRecord list) option" where
  "nf9_DataRecords tr t buffer records =
     (if length buffer < 4 then Some (Inr records)
      else case nf9_DataRecord_Unmarshal (nf9_tr_TemplateID tr) (nf9_tr_Fields tr) t
                  (take (nf9_TemplateRecord_Size tr) buffer) of
        Inl e \<Rightarrow> Some (Inl e)
      | Inr dr \<Rightarrow> nf9_DataRecords tr t (drop (nf9_TemplateRecord_Size tr) buffer) (records @ [dr]))"

definition nf9_DataFlowSet_Unmarshal ::
    "nf9_FlowSetHeader \<Rightarrow> nf9_TemplateRecord \<Rightarrow> informationElements option \<Rightarrow> u8 list \<Rightarrow>
     (nf_error + nf9_DataFlowSet) option" where
  "nf9_DataFlowSet_Unmarshal header tr t data =
     map_option (map_sum id (\<lambda>rs. \<lparr>nf9_dfs_Header = header, nf9_dfs_Records = rs\<rparr>))
       (nf9_DataRecords tr t data [])"

section \<open>Options data\<close>

fun nf9_fields :: "nf9_FieldSpecifier list \<Rightarrow> nf9_Field list reader" where
  "nf9_fields [] = rd_return []"
| "nf9_fields (fs # fss) =
     rd_bind (nf9_Field_Unmarshal fs) (\<lambda>f. rd_bind (nf9_fields fss) (\<lambda>flds. rd_return (f # flds)))"

definition nf9_OptionsDataRecord_Unmarshal ::
    "u16 \<Rightarrow> nf9_FieldSpecifier list \<Rightarrow> nf9_FieldSpecifier list \<Rightarrow> informationElements option \<Rightarrow>
     nf9_OptionsDataRecord reader" where
  "nf9_OptionsDataRecord_Unmarshal templateID scopeFss fss t =
     rd_bind (nf9_fields scopeFss) (\<lambda>scope. rd_bind (nf9_fields fss) (\<lambda>flds.
     rd_lift (case t of
       None \<Rightarrow> Inr \<lparr>nf9_odr_TemplateID = templateID, nf9_odr_ScopeFields = scope, nf9_odr_Fields = flds\<rparr>
     | Some elements \<Rightarrow>
         go_bind (nf9_Translate_Record elements scope scopeFss) (\<lambda>scope'.
         go_bind (nf9_Translate_Record elements flds fss) (\<lambda>flds'.
         Inr \<lparr>nf9_odr_TemplateID = templateID, nf9_odr_ScopeFields = scope', nf9_odr_Fields = flds'\<rparr>)))))"

partial_function (option) nf9_OptionsDataRecords ::
    "nf9_OptionsTemplateRecord \<Rightarrow> informationElements option \<Rightarrow> u8 list \<Rightarrow> nf9_OptionsDataRecord list \<Rightarrow>
     (nf_error + nf9_OptionsDataRecord list) option" where
  "nf9_OptionsDataRecords otr t buffer records =
     (if length buffer < 4 then Some (Inr records)
      else case nf9_OptionsDataRecord_Unmarshal (nf9_otr_TemplateID otr) (nf9_otr_ScopeFields otr)
                  (nf9_otr_Fields otr) t buffer of
        Inl e \<Rightarrow> Some (if e = IoEOF then Inr records else Inl e)
      | Inr (odr, rest) \<Rightarrow> nf9_OptionsDataRecords otr t rest (records @ [odr]))"

definition nf9_OptionsDataFlowSet_Unmarshal ::
    "nf9_FlowSetHeader \<Rightarrow> nf9_OptionsTemplateRecord \<Rightarrow> informationElements option \<Rightarrow> u8 list \<Rightarrow>
     (nf_error + nf9_OptionsDataFlowSet) option" where
  "nf9_OptionsDataFlowSet_Unmarshal header otr t data =
     map_option (map_sum id (\<lambda>rs. \<lparr>nf9_ods_Header = header, nf9_ods_Records = rs\<rparr>))
       (nf9_OptionsDataRecords otr t data [])"

section \<open>Packets\<close>

text \<open>The body of the loop of \<open>UnmarshalFlowSets\<close> after the set has been read: the switch on its
  number.\<close>

definition nf9_FlowSet ::
    "informationElements option \<Rightarrow> nat \<Rightarrow> nf9_FlowSetHeader \<Rightarrow> u8 list \<Rightarrow> nf_session option \<Rightarrow> nf9_Packet \<Rightarrow>
     nf9_Packet decoded" where
  "nf9_FlowSet t i header data s p =
     (let sourceID = nf9_h_SourceID (nf9_Header p) in
      if nf9_fsh_ID header = 0 then
        (case nf9_TemplateFlowSet_UnmarshalRecords header data of
           Inl e \<Rightarrow> Some (s, Inl e)
         | Inr tfs \<Rightarrow> Some (register_all sourceID (map NF9_Template (nf9_tfs_Records tfs)) s,
             Inr (p\<lparr>nf9_TemplateFlowSets := nf9_TemplateFlowSets p @ [tfs]\<rparr>)))
      else if nf9_fsh_ID header = 1 then
        (case nf9_OptionsTemplateFlowSet_UnmarshalRecords header data of
           Inl e \<Rightarrow> Some (s, Inl e)
         | Inr ots \<Rightarrow> Some (register_all sourceID (map NF9_Options (nf9_ots_Records ots)) s,
             Inr (p\<lparr>nf9_OptionsTemplateFlowSets := nf9_OptionsTemplateFlowSets p @ [ots]\<rparr>)))
      else case lookup_template s sourceID (nf9_fsh_ID header) of
          None \<Rightarrow> Some (s, Inr p)
        | Some (NF9_Template template) \<Rightarrow>
            map_option (\<lambda>r. (s, map_sum id (\<lambda>dfs. p\<lparr>nf9_DataFlowSets := nf9_DataFlowSets p @ [dfs]\<rparr>) r))
              (nf9_DataFlowSet_Unmarshal header template t data)
        | Some (NF9_Options template) \<Rightarrow>
            map_option (\<lambda>r. (s, map_sum id (\<lambda>ods. p\<lparr>nf9_OptionsDataFlowSets := nf9_OptionsDataFlowSets p @ [ods]\<rparr>) r))
              (nf9_OptionsDataFlowSet_Unmarshal header template t data)
        | Some _ \<Rightarrow> Some (s, Inl (WrongTemplateType i sourceID (nf9_fsh_ID header))))"

text \<open>The loop itself, with the number of iterations that \<open>Count\<close> still allows.\<close>

fun nf9_FlowSets ::
    "informationElements option \<Rightarrow> nat \<Rightarrow> nat \<Rightarrow> nf_session option \<Rightarrow> nf9_Packet \<Rightarrow> u8 list \<Rightarrow> nf9_Packet decoded" where
  "nf9_FlowSets t 0 i s p buffer = Some (s, Inr p)"
| "nf9_FlowSets t (Suc left) i s p buffer =
     (if buffer = [] then Some (s, Inr p)
      else case nf9_FlowSetHeader_Unmarshal buffer of
        Inl e \<Rightarrow> Some (s, Inl (FlowSetHeaderTruncated i))
      | Inr (header, rest) \<Rightarrow>
          (let readSize = uint (nf9_fsh_Length header) - 4 in
           if readSize \<le> 0 then Some (s, Inl (IllegalSetSize i readSize))
           else case io_ReadFull (nat readSize) rest of
             Inl e \<Rightarrow> Some (s, Inl (FlowSetTruncated i readSize (length rest)))
           | Inr (data, rest') \<Rightarrow>
               Option.bind (nf9_FlowSet t i header data s p) (\<lambda>(s', r).
                 case r of Inl e \<Rightarrow> Some (s', Inl e)
                 | Inr p' \<Rightarrow> nf9_FlowSets t left (Suc i) s' p' rest')))"

definition nf9_UnmarshalFlowSets ::
    "informationElements option \<Rightarrow> nf_session option \<Rightarrow> nf9_Packet \<Rightarrow> u8 list \<Rightarrow> nf9_Packet decoded" where
  "nf9_UnmarshalFlowSets t s p buffer =
     (if buffer = [] then Some (s, Inl ZeroLengthBody)
      else nf9_FlowSets t (unat (nf9_h_Count (nf9_Header p))) 0 s p buffer)"

definition nf9_Read ::
    "informationElements \<Rightarrow> nf_session option \<Rightarrow> informationElements option \<Rightarrow> u8 list \<Rightarrow> nf9_Packet decoded" where
  "nf9_Read builtin s t0 bs =
     (let t = (case t0 of Some e \<Rightarrow> Some e | None \<Rightarrow> (case s of Some _ \<Rightarrow> Some builtin | None \<Rightarrow> None)) in
      case nf9_PacketHeader_Unmarshal bs of
        Inl e \<Rightarrow> Some (s, Inl e)
      | Inr (h, rest) \<Rightarrow>
          (let p = \<lparr>nf9_Header = h, nf9_TemplateFlowSets = [], nf9_OptionsTemplateFlowSets = [],
                    nf9_DataFlowSets = [], nf9_OptionsDataFlowSets = []\<rparr> in
           if nf9_h_Version h \<noteq> 9 then Some (s, Inl (InvalidVersion (nf9_h_Version h)))
           else if nf9_h_Count h = 0 then Some (s, Inr p)
           else nf9_UnmarshalFlowSets t s p rest))"

section \<open>Data sets: when the loop ends\<close>

lemma nf9_Field_consumes: "consumes 0 (nf9_Field_Unmarshal fs)"
  unfolding nf9_Field_Unmarshal_def
  using consumes_bind [OF consumes_Read consumes_return] by fastforce

lemma nf9_Translate_Record_total: "\<exists>flds'. nf9_Translate_Record elements flds fss = Inr flds'"
proof (induction elements flds fss rule: nf9_Translate_Record.induct)
  case (3 elements f flds fs fss)
  have "\<exists>f'. nf9_translate_field elements fs f = Inr f'"
  proof (cases "Translate_Key elements 0 (nf9_fs_Type fs)")
    case (Some element)
    then show ?thesis using translate_Bytes_total [of "nf9_f_Bytes f" "iee_Type element"]
      by (auto simp: nf9_translate_field_def)
  qed (simp add: nf9_translate_field_def)
  then show ?case using 3 by auto
qed auto

lemma nf9_Field_Unmarshal_nonempty:
  assumes "buffer \<noteq> []"
  obtains f rest where "nf9_Field_Unmarshal fs buffer = Inr (f, rest)"
  using assms that by (simp add: nf9_Field_Unmarshal_def rd_bind_def buffer_Read_def)

lemma nf9_DataRecord_fields_total: "\<exists>flds rest. nf9_DataRecord_fields fss buffer = Inr (flds, rest)"
proof (induction fss arbitrary: buffer)
  case (Cons fs fss)
  show ?case
  proof (cases "buffer = []")
    case False
    then obtain f mid where f: "nf9_Field_Unmarshal fs buffer = Inr (f, mid)"
      by (rule nf9_Field_Unmarshal_nonempty)
    obtain flds rest where "nf9_DataRecord_fields fss mid = Inr (flds, rest)" using Cons by blast
    with f False show ?thesis by (simp add: rd_bind_def)
  qed simp
qed simp

lemma nf9_DataRecord_Unmarshal_total: "\<exists>dr. nf9_DataRecord_Unmarshal tid fss t data = Inr dr"
proof -
  obtain flds rest where f: "nf9_DataRecord_fields fss data = Inr (flds, rest)"
    using nf9_DataRecord_fields_total by blast
  show ?thesis
  proof (cases t)
    case (Some elements)
    obtain flds' where "nf9_Translate_Record elements flds fss = Inr flds'"
      using nf9_Translate_Record_total by blast
    with f Some show ?thesis by (simp add: nf9_DataRecord_Unmarshal_def)
  qed (simp add: nf9_DataRecord_Unmarshal_def f)
qed

lemma nf9_DataRecord_Unmarshal_ok [simp]: "nf9_DataRecord_Unmarshal tid fss t data \<noteq> Inl e"
  using nf9_DataRecord_Unmarshal_total [of tid fss t data] by auto

lemma nf9_DataRecords_stuck:
  assumes "nf9_DataRecords tr t buffer records = Some r"
  shows "nf9_TemplateRecord_Size tr = 0 \<longrightarrow> length buffer < 4"
proof (rule nf9_DataRecords.raw_induct [OF _ assms,
        where P = "\<lambda>tr t buffer records r. nf9_TemplateRecord_Size tr = 0 \<longrightarrow> length buffer < 4"])
  fix rec tr t buffer records r
  assume IH: "\<And>tr t buffer records r. rec tr t buffer records = Some r \<Longrightarrow>
      nf9_TemplateRecord_Size tr = 0 \<longrightarrow> length buffer < 4"
    and step: "(if length buffer < 4 then Some (Inr records)
      else case nf9_DataRecord_Unmarshal (nf9_tr_TemplateID tr) (nf9_tr_Fields tr) t
                  (take (nf9_TemplateRecord_Size tr) buffer) of
        Inl e \<Rightarrow> Some (Inl e)
      | Inr dr \<Rightarrow> rec tr t (drop (nf9_TemplateRecord_Size tr) buffer) (records @ [dr])) = Some r"
  show "nf9_TemplateRecord_Size tr = 0 \<longrightarrow> length buffer < 4"
  proof
    assume "nf9_TemplateRecord_Size tr = 0"
    with step show "length buffer < 4" using IH [of tr t buffer] by (auto split: if_splits sum.splits)
  qed
qed

lemma nf9_DataRecords_returns:
  assumes "0 < nf9_TemplateRecord_Size tr"
  shows "\<exists>rs. nf9_DataRecords tr t buffer records = Some (Inr rs)"
proof (induction "length buffer" arbitrary: buffer records rule: less_induct)
  case less
  obtain dr where dr: "nf9_DataRecord_Unmarshal (nf9_tr_TemplateID tr) (nf9_tr_Fields tr) t
      (take (nf9_TemplateRecord_Size tr) buffer) = Inr dr"
    using nf9_DataRecord_Unmarshal_total by blast
  show ?case
  proof (cases "length buffer < 4")
    case True
    then show ?thesis by (subst nf9_DataRecords.simps) simp
  next
    case False
    then have "\<exists>rs. nf9_DataRecords tr t (drop (nf9_TemplateRecord_Size tr) buffer) (records @ [dr]) = Some (Inr rs)"
      using assms by (intro less) auto
    then show ?thesis by (subst nf9_DataRecords.simps) (simp add: dr False)
  qed
qed

lemma nf9_DataRecords_None_iff:
  "nf9_DataRecords tr t buffer records = None \<longleftrightarrow> nf9_TemplateRecord_Size tr = 0 \<and> 4 \<le> length buffer"
proof
  assume "nf9_DataRecords tr t buffer records = None"
  moreover from this have "\<not> length buffer < 4" by (subst (asm) nf9_DataRecords.simps) auto
  ultimately show "nf9_TemplateRecord_Size tr = 0 \<and> 4 \<le> length buffer"
    using nf9_DataRecords_returns [of tr t buffer records] by fastforce
next
  assume "nf9_TemplateRecord_Size tr = 0 \<and> 4 \<le> length buffer"
  then show "nf9_DataRecords tr t buffer records = None"
    using nf9_DataRecords_stuck [of tr t buffer records] by (cases "nf9_DataRecords tr t buffer records") auto
qed

definition nf9_option_Size :: "nf9_OptionsTemplateRecord \<Rightarrow> nat" where
  "nf9_option_Size otr =
     sum_list (map (\<lambda>f. unat (nf9_fs_Length f)) (nf9_otr_ScopeFields otr @ nf9_otr_Fields otr))"

lemma nf9_fields_length:
  "nf9_fields fss buffer = Inr (flds, rest) \<Longrightarrow>
     length rest = length buffer - sum_list (map (\<lambda>f. unat (nf9_fs_Length f)) fss)"
proof (induction fss arbitrary: buffer flds)
  case (Cons fs fss)
  from Cons.prems obtain f mid flds' where "nf9_Field_Unmarshal fs buffer = Inr (f, mid)"
    and IH: "nf9_fields fss mid = Inr (flds', rest)"
    by (auto simp: rd_bind_eq_Inr)
  then have "length mid = length buffer - unat (nf9_fs_Length fs)"
    by (auto simp: nf9_Field_Unmarshal_def rd_bind_eq_Inr buffer_Read_def split: if_splits)
  with Cons.IH [OF IH] show ?case by simp
qed simp

lemma nf9_OptionsDataRecord_length:
  assumes "nf9_OptionsDataRecord_Unmarshal tid sfss fss t buffer = Inr (odr, rest)"
  shows "length rest = length buffer - sum_list (map (\<lambda>f. unat (nf9_fs_Length f)) (sfss @ fss))"
proof -
  from assms obtain scope mid flds r where "nf9_fields sfss buffer = Inr (scope, mid)"
    "nf9_fields fss mid = Inr (flds, r)" "rest = r"
    by (auto simp: nf9_OptionsDataRecord_Unmarshal_def rd_bind_eq_Inr rd_lift_eq_Inr)
  then show ?thesis using nf9_fields_length by fastforce
qed

lemma nf9_OptionsDataRecords_returns:
  assumes "0 < nf9_option_Size otr"
  shows "\<exists>r. nf9_OptionsDataRecords otr t buffer records = Some r"
proof (induction "length buffer" arbitrary: buffer records rule: less_induct)
  case less
  show ?case
  proof (cases "length buffer < 4")
    case True
    then show ?thesis by (subst nf9_OptionsDataRecords.simps) simp
  next
    case False
    show ?thesis
    proof (cases "nf9_OptionsDataRecord_Unmarshal (nf9_otr_TemplateID otr) (nf9_otr_ScopeFields otr)
                  (nf9_otr_Fields otr) t buffer")
      case (Inl e)
      then show ?thesis by (subst nf9_OptionsDataRecords.simps) simp
    next
      case (Inr x)
      obtain odr rest where x: "x = (odr, rest)" by (cases x)
      have "length rest < length buffer"
        using nf9_OptionsDataRecord_length [OF Inr [unfolded x]] assms False
        by (auto simp: nf9_option_Size_def)
      from less [OF this, of "records @ [odr]"] show ?thesis
        by (subst nf9_OptionsDataRecords.simps) (simp add: Inr x)
    qed
  qed
qed

section \<open>Packets: sessions and termination\<close>

lemma nf9_fields_empty:
  assumes "buffer \<noteq> []" "\<forall>fs \<in> set fss. nf9_fs_Length fs = 0"
  shows "\<exists>flds. nf9_fields fss buffer = Inr (flds, buffer)"
  using assms(2) by (induction fss) (use assms(1) in \<open>auto simp: rd_bind_def nf9_Field_Unmarshal_def buffer_Read_def\<close>)

lemma nf9_OptionsDataRecord_empty:
  assumes "buffer \<noteq> []" "nf9_option_Size otr = 0"
  shows "\<exists>odr. nf9_OptionsDataRecord_Unmarshal (nf9_otr_TemplateID otr) (nf9_otr_ScopeFields otr) (nf9_otr_Fields otr) t buffer =
    Inr (odr, buffer)"
proof -
  have "\<forall>fs \<in> set (nf9_otr_ScopeFields otr @ nf9_otr_Fields otr). nf9_fs_Length fs = 0"
    using assms(2) by (auto simp: nf9_option_Size_def unat_eq_zero)
  then obtain scope flds where f: "nf9_fields (nf9_otr_ScopeFields otr) buffer = Inr (scope, buffer)"
      "nf9_fields (nf9_otr_Fields otr) buffer = Inr (flds, buffer)"
    using nf9_fields_empty [OF assms(1)] by (metis UnCI set_append)
  show ?thesis
  proof (cases t)
    case (Some elements)
    obtain scope' flds' where "nf9_Translate_Record elements scope (nf9_otr_ScopeFields otr) = Inr scope'"
        "nf9_Translate_Record elements flds (nf9_otr_Fields otr) = Inr flds'"
      using nf9_Translate_Record_total by meson
    with f Some show ?thesis by (simp add: nf9_OptionsDataRecord_Unmarshal_def rd_bind_def rd_lift_def)
  qed (simp add: nf9_OptionsDataRecord_Unmarshal_def f rd_bind_def rd_lift_def rd_return_def)
qed

lemma nf9_OptionsDataRecords_stuck:
  assumes "nf9_OptionsDataRecords otr t buffer records = Some r"
  shows "nf9_option_Size otr = 0 \<longrightarrow> length buffer < 4"
proof (rule nf9_OptionsDataRecords.raw_induct [OF _ assms,
        where P = "\<lambda>otr t buffer records r. nf9_option_Size otr = 0 \<longrightarrow> length buffer < 4"])
  fix rec otr t buffer records r
  assume IH: "\<And>otr t buffer records r. rec otr t buffer records = Some r \<Longrightarrow> nf9_option_Size otr = 0 \<longrightarrow> length buffer < 4"
    and step: "(if length buffer < 4 then Some (Inr records)
      else case nf9_OptionsDataRecord_Unmarshal (nf9_otr_TemplateID otr) (nf9_otr_ScopeFields otr)
                  (nf9_otr_Fields otr) t buffer of
        Inl e \<Rightarrow> Some (if e = IoEOF then Inr records else Inl e)
      | Inr (odr, rest) \<Rightarrow> rec otr t rest (records @ [odr])) = Some r"
  show "nf9_option_Size otr = 0 \<longrightarrow> length buffer < 4"
  proof (intro impI, rule ccontr)
    assume empty: "nf9_option_Size otr = 0" and "\<not> length buffer < 4"
    moreover obtain odr where
      "nf9_OptionsDataRecord_Unmarshal (nf9_otr_TemplateID otr) (nf9_otr_ScopeFields otr) (nf9_otr_Fields otr) t buffer = Inr (odr, buffer)"
      using nf9_OptionsDataRecord_empty [of buffer otr t] calculation by fastforce
    ultimately show False using step IH [of otr t buffer] by auto
  qed
qed

lemma nf9_OptionsDataRecords_None_iff:
  "nf9_OptionsDataRecords otr t buffer records = None \<longleftrightarrow> nf9_option_Size otr = 0 \<and> 4 \<le> length buffer"
proof
  assume "nf9_OptionsDataRecords otr t buffer records = None"
  moreover from this have "\<not> length buffer < 4" by (subst (asm) nf9_OptionsDataRecords.simps) auto
  ultimately show "nf9_option_Size otr = 0 \<and> 4 \<le> length buffer"
    using nf9_OptionsDataRecords_returns [of otr t buffer records] by fastforce
next
  assume "nf9_option_Size otr = 0 \<and> 4 \<le> length buffer"
  then show "nf9_OptionsDataRecords otr t buffer records = None"
    using nf9_OptionsDataRecords_stuck [of otr t buffer records] by (cases "nf9_OptionsDataRecords otr t buffer records") auto
qed

text \<open>A template whose records take no bytes.\<close>

fun nf9_empty_template :: "nf_template \<Rightarrow> bool" where
  "nf9_empty_template (NF9_Template tr) = (nf9_TemplateRecord_Size tr = 0)"
| "nf9_empty_template (NF9_Options otr) = (nf9_option_Size otr = 0)"
| "nf9_empty_template _ = False"

lemma nf9_FlowSet_None_iff:
  "nf9_FlowSet t i header data s p = None \<longleftrightarrow> nf9_fsh_ID header \<noteq> 0 \<and> nf9_fsh_ID header \<noteq> 1 \<and> 4 \<le> length data \<and>
    (\<exists>tm. lookup_template s (nf9_h_SourceID (nf9_Header p)) (nf9_fsh_ID header) = Some tm \<and> nf9_empty_template tm)"
  by (auto simp: nf9_FlowSet_def Let_def nf9_DataFlowSet_Unmarshal_def nf9_OptionsDataFlowSet_Unmarshal_def
      nf9_DataRecords_None_iff nf9_OptionsDataRecords_None_iff split: sum.splits option.splits nf_template.splits)

lemma nf9_FlowSet_session:
  assumes "nf9_FlowSet t i header data s p = Some (s', r)"
  shows "\<exists>ts. s' = register_all (nf9_h_SourceID (nf9_Header p)) ts s"
proof -
  have "s = register_all d [] s" for d by (simp add: register_all_def)
  with assms show ?thesis
    unfolding nf9_FlowSet_def Let_def by (auto split: if_splits sum.splits option.splits nf_template.splits)
qed

lemma nf9_FlowSet_Header:
  "nf9_FlowSet t i header data s p = Some (s', Inr p') \<Longrightarrow> nf9_Header p' = nf9_Header p"
  by (auto simp: nf9_FlowSet_def Let_def go_simps split: if_splits sum.splits option.splits nf_template.splits)

declare nf9_FlowSets.simps(2) [simp del]

text \<open>The next set of a packet: its header, its body and the bytes after it, when they are there.\<close>

definition nf9_next_set :: "u8 list \<Rightarrow> (nf9_FlowSetHeader \<times> u8 list \<times> u8 list) option" where
  "nf9_next_set buffer =
     (case nf9_FlowSetHeader_Unmarshal buffer of
        Inl e \<Rightarrow> None
      | Inr (header, rest) \<Rightarrow>
          (let n = nat (uint (nf9_fsh_Length header) - 4) in
           if n = 0 \<or> length rest < n then None else Some (header, take n rest, drop n rest)))"

fun nf9_budget :: "nat \<Rightarrow> nat option" where
  "nf9_budget 0 = None"
| "nf9_budget (Suc left) = Some left"

lemma nf9_FlowSetHeader_strict: "strict 4 nf9_FlowSetHeader_Unmarshal"
proof -
  have "strict (2 + (2 + 0)) nf9_FlowSetHeader_Unmarshal"
    unfolding nf9_FlowSetHeader_Unmarshal_def by (intro strict_bind strict_Uint16 strict_return)
  then show ?thesis by simp
qed

lemma nf9_next_set_shorter: "nf9_next_set buffer = Some (h, data, rest) \<Longrightarrow> length rest < length buffer"
  by (auto simp: nf9_next_set_def Let_def split: sum.splits if_splits dest!: strictD [OF nf9_FlowSetHeader_strict])

lemma nf9_FlowSets_stop:
  assumes "nf9_budget left = None \<or> nf9_next_set buffer = None"
  shows "\<exists>r. nf9_FlowSets t left i s p buffer = Some (s, r) \<and> \<not> nf_panics r"
  using assms by (cases left) (auto simp: nf9_FlowSets.simps(2) nf9_next_set_def io_ReadFull_def Let_def
      split: sum.splits if_splits)

lemma nf9_FlowSets_turn:
  assumes "nf9_budget left = Some left'" "nf9_next_set buffer = Some (header, data, rest)"
  shows "nf9_FlowSets t left i s p buffer = Option.bind (nf9_FlowSet t i header data s p) (\<lambda>(s', r).
        case r of Inl e \<Rightarrow> Some (s', Inl e) | Inr p' \<Rightarrow> nf9_FlowSets t left' (Suc i) s' p' rest)"
proof -
  have "left = Suc left'" using assms(1) by (cases left) simp_all
  moreover have "buffer \<noteq> []" using nf9_next_set_shorter [OF assms(2)] by auto
  ultimately show ?thesis
    using assms(2) by (auto simp: nf9_FlowSets.simps(2) nf9_next_set_def io_ReadFull_def Let_def
      split: sum.splits if_splits)
qed

section \<open>Errors\<close>

text \<open>No error of the decoder is a panic.\<close>

lemma nf9_OptionsDataRecord_no_panic:
  "nf9_OptionsDataRecord_Unmarshal tid sfss fss t bs \<noteq> Inl (NfPanic pn)"
proof -
  have field: "no_panic (nf9_Field_Unmarshal fs)" for fs
    unfolding nf9_Field_Unmarshal_def by (intro no_panic_intros)
  have flds: "no_panic (nf9_fields fss)" for fss
  proof (induction fss)
    case (Cons fs fss)
    then show ?case unfolding nf9_fields.simps by (intro no_panic_intros field)
  qed (simp add: no_panic_def)
  have "no_panic (rd_lift (case t of
       None \<Rightarrow> Inr \<lparr>nf9_odr_TemplateID = tid, nf9_odr_ScopeFields = scope, nf9_odr_Fields = flds\<rparr>
     | Some elements \<Rightarrow>
         go_bind (nf9_Translate_Record elements scope sfss) (\<lambda>scope'.
         go_bind (nf9_Translate_Record elements flds fss) (\<lambda>flds'.
         Inr \<lparr>nf9_odr_TemplateID = tid, nf9_odr_ScopeFields = scope', nf9_odr_Fields = flds'\<rparr>))))" for scope flds
  proof (cases t)
    case (Some elements)
    obtain scope' where "nf9_Translate_Record elements scope sfss = Inr scope'"
      using nf9_Translate_Record_total by blast
    moreover obtain flds' where "nf9_Translate_Record elements flds fss = Inr flds'"
      using nf9_Translate_Record_total by blast
    ultimately show ?thesis using Some by (simp add: no_panic_def)
  qed (simp add: no_panic_def)
  then have "no_panic (nf9_OptionsDataRecord_Unmarshal tid sfss fss t)"
    unfolding nf9_OptionsDataRecord_Unmarshal_def by (intro no_panic_bind flds)
  then show ?thesis by (simp add: no_panic_def)
qed

lemma nf9_OptionsDataRecords_no_panic:
  assumes "nf9_OptionsDataRecords otr t buffer records = Some r"
  shows "\<not> nf_panics r"
  by (rule nf9_OptionsDataRecords.raw_induct [OF _ assms, where P = "\<lambda>otr t buffer records r. \<not> nf_panics r"])
    (auto split: if_splits sum.splits simp: nf_panics_Inl nf9_OptionsDataRecord_no_panic)

lemma nf9_TemplateRecords_no_panic: "\<not> nf_panics (nf9_TemplateRecords buffer)"
proof (induction buffer rule: nf9_TemplateRecords.induct)
  case (1 buffer)
  have "no_panic nf9_TemplateRecord_Unmarshal"
    unfolding nf9_TemplateRecord_Unmarshal_def nf9_FieldSpecifiers_Unmarshal_def nf9_FieldSpecifier_Unmarshal_def
    by (intro no_panic_intros)
  then have head: "\<not> nf_panics (nf9_TemplateRecord_Unmarshal buffer)" by (rule no_panic_not)
  show ?case
  proof (cases "length buffer \<le> 4 \<or> isl (nf9_TemplateRecord_Unmarshal buffer)")
    case True
    then show ?thesis using head
      by (subst nf9_TemplateRecords.simps) (auto simp: isl_def nf_panics_Inl)
  next
    case False
    then obtain a b where ab: "nf9_TemplateRecord_Unmarshal buffer = Inr (a, b)"
      by (cases "nf9_TemplateRecord_Unmarshal buffer") auto
    with 1 False have "\<not> nf_panics (nf9_TemplateRecords b)" by blast
    then show ?thesis using False ab
      by (subst nf9_TemplateRecords.simps) (auto split: sum.splits simp: nf_panics_Inl)
  qed
qed

lemma nf9_OptionsTemplateRecords_no_panic: "\<not> nf_panics (nf9_OptionsTemplateRecords buffer)"
proof (induction buffer rule: nf9_OptionsTemplateRecords.induct)
  case (1 buffer)
  have "no_panic nf9_OptionsTemplateRecord_Unmarshal"
    unfolding nf9_OptionsTemplateRecord_Unmarshal_def nf9_FieldSpecifiers_Unmarshal_def nf9_FieldSpecifier_Unmarshal_def
    by (intro no_panic_intros)
  then have head: "\<not> nf_panics (nf9_OptionsTemplateRecord_Unmarshal buffer)" by (rule no_panic_not)
  show ?case
  proof (cases "length buffer \<le> 4 \<or> isl (nf9_OptionsTemplateRecord_Unmarshal buffer)")
    case True
    then show ?thesis using head
      by (subst nf9_OptionsTemplateRecords.simps) (auto simp: isl_def nf_panics_Inl)
  next
    case False
    then obtain a b where ab: "nf9_OptionsTemplateRecord_Unmarshal buffer = Inr (a, b)"
      by (cases "nf9_OptionsTemplateRecord_Unmarshal buffer") auto
    with 1 False have "\<not> nf_panics (nf9_OptionsTemplateRecords b)" by blast
    then show ?thesis using False ab
      by (subst nf9_OptionsTemplateRecords.simps) (auto split: sum.splits simp: nf_panics_Inl)
  qed
qed

lemma nf9_DataRecords_no_panic:
  assumes "nf9_DataRecords tr t buffer records = Some r"
  shows "\<not> nf_panics r"
  by (rule nf9_DataRecords.raw_induct [OF _ assms, where P = "\<lambda>tr t buffer records r. \<not> nf_panics r"])
    (auto split: if_splits sum.splits)

lemma nf9_FlowSet_no_panic:
  assumes "nf9_FlowSet t i header data s p = Some (s', r)"
  shows "\<not> nf_panics r"
proof (rule notI)
  assume "nf_panics r"
  then obtain pn where "r = Inl (NfPanic pn)" by (auto simp: nf_panics_iff)
  then consider "nf9_TemplateRecords data = Inl (NfPanic pn)" | "nf9_OptionsTemplateRecords data = Inl (NfPanic pn)"
    | tr where "nf9_DataRecords tr t data [] = Some (Inl (NfPanic pn))"
    | otr where "nf9_OptionsDataRecords otr t data [] = Some (Inl (NfPanic pn))"
    using assms
    by (auto simp: nf9_FlowSet_def Let_def nf9_TemplateFlowSet_UnmarshalRecords_def
      nf9_OptionsTemplateFlowSet_UnmarshalRecords_def nf9_DataFlowSet_Unmarshal_def
      nf9_OptionsDataFlowSet_Unmarshal_def go_simps
      split: sum.splits option.splits nf_template.splits if_splits)
  then show False
    using nf9_TemplateRecords_no_panic [of data] nf9_OptionsTemplateRecords_no_panic [of data]
      nf9_OptionsDataRecords_no_panic [of _ t data "[]"] nf9_DataRecords_no_panic [of _ t data "[]"]
    by cases (fastforce simp: nf_panics_iff)+
qed

interpretation nf9_sets: set_loop "nf9_FlowSets t" nf9_budget nf9_next_set "nf9_FlowSet t"
    "\<lambda>p. nf9_h_SourceID (nf9_Header p)" for t
  by unfold_locales
    (erule nf9_FlowSets_stop nf9_FlowSets_turn nf9_next_set_shorter nf9_FlowSet_session nf9_FlowSet_no_panic, assumption? |
      simp add: nf9_FlowSet_Header)+

section \<open>Properties\<close>

text \<open>The states that the loop over the sets of a packet passes through: how many sets the count of
  the header still allows, the number of the next set, the session, the packet so far and the bytes
  that are left.\<close>

definition nf9_reaches ::
    "informationElements \<Rightarrow> nf_session option \<Rightarrow> informationElements option \<Rightarrow> u8 list \<Rightarrow>
     (nat, nf9_Packet) set_state \<Rightarrow> bool" where
  "nf9_reaches builtin s t0 bs st \<longleftrightarrow>
     (\<exists>h rest. nf9_PacketHeader_Unmarshal bs = Inr (h, rest) \<and> nf9_h_Version h = 9 \<and>
       (set_step nf9_budget nf9_next_set
          (nf9_FlowSet (case t0 of Some e \<Rightarrow> Some e | None \<Rightarrow> (case s of Some _ \<Rightarrow> Some builtin | None \<Rightarrow> None))))\<^sup>*\<^sup>*
         (unat (nf9_h_Count h), 0, s, \<lparr>nf9_Header = h, nf9_TemplateFlowSets = [], nf9_OptionsTemplateFlowSets = [],
            nf9_DataFlowSets = [], nf9_OptionsDataFlowSets = []\<rparr>, rest) st)"

text \<open>
  C8: the NetFlow 9 decoder does not return if and only if, after the sets before it have been
  decoded without an error and have left a session, it comes to a data set of at least four bytes,
  within the count of the header, whose number is that of a template in this session, under the
  source of the packet, whose fields take no bytes.
\<close>

theorem nf9_hangs_iff_empty_template:
  "nf9_Read elements s t bs = None \<longleftrightarrow>
    (\<exists>left i s1 p1 buffer header data rest tm. nf9_reaches elements s t bs (Suc left, i, s1, p1, buffer) \<and>
       nf9_next_set buffer = Some (header, data, rest) \<and> nf9_fsh_ID header \<noteq> 0 \<and> nf9_fsh_ID header \<noteq> 1 \<and> 4 \<le> length data \<and>
       lookup_template s1 (nf9_h_SourceID (nf9_Header p1)) (nf9_fsh_ID header) = Some tm \<and> nf9_empty_template tm)"
proof -
  let ?t = "case t of Some e \<Rightarrow> Some e | None \<Rightarrow> (case s of Some _ \<Rightarrow> Some elements | None \<Rightarrow> None)"
  let ?p = "\<lambda>h. \<lparr>nf9_Header = h, nf9_TemplateFlowSets = [], nf9_OptionsTemplateFlowSets = [],
    nf9_DataFlowSets = [], nf9_OptionsDataFlowSets = []\<rparr>"
  have budget: "nf9_budget k = Some k' \<longleftrightarrow> k = Suc k'" for k k' by (cases k) auto
  have none: "nf9_FlowSets ?t n 0 s p [] = Some (s, Inr p)" for n p
    by (cases n) (simp_all add: nf9_FlowSets.simps(2))
  have "nf9_Read elements s t bs = None \<longleftrightarrow> (\<exists>h rest. nf9_PacketHeader_Unmarshal bs = Inr (h, rest) \<and> nf9_h_Version h = 9 \<and>
      nf9_FlowSets ?t (unat (nf9_h_Count h)) 0 s (?p h) rest = None)"
    by (auto simp: nf9_Read_def nf9_UnmarshalFlowSets_def Let_def none split: sum.splits)
  then show ?thesis
    unfolding nf9_sets.loop_None_iff nf9_FlowSet_None_iff nf9_reaches_def budget by blast
qed

definition nf9_hanging_packet :: "u8 list" where
  "nf9_hanging_packet = [0, 9, 0, 2] @ replicate 16 0 @ [0, 0, 0, 9, 1, 0, 0, 0, 0] @ [1, 0, 0, 8, 0, 0, 0, 0]"

lemma nf9_hanging_packet_hangs: "nf9_Read elements (Some session_New) None nf9_hanging_packet = None"
proof -
  let ?tr = "\<lparr>nf9_tr_TemplateID = 256, nf9_tr_FieldCount = 0, nf9_tr_Fields = []\<rparr>"
  have templates: "nf9_TemplateRecords [1, 0, 0, 0, 0] = Inr [?tr]"
    by code_simp
  have stuck: "nf9_DataRecords ?tr t [0, 0, 0, 0] [] = None" for t
    by (simp add: nf9_DataRecords_None_iff nf9_TemplateRecord_Size_def)
  have head: "nf9_PacketHeader_Unmarshal nf9_hanging_packet =
     Inr (\<lparr>nf9_h_Version = 9, nf9_h_Count = 2, nf9_h_SysUpTime = 0, nf9_h_UnixSecs = 0,
       nf9_h_SequenceNumber = 0, nf9_h_SourceID = 0\<rparr>, [0, 0, 0, 9, 1, 0, 0, 0, 0, 1, 0, 0, 8, 0, 0, 0, 0])"
    by code_simp
  have set1: "nf9_FlowSetHeader_Unmarshal [0, 0, 0, 9, 1, 0, 0, 0, 0, 1, 0, 0, 8, 0, 0, 0, 0] =
     Inr (\<lparr>nf9_fsh_ID = 0, nf9_fsh_Length = 9\<rparr>, [1, 0, 0, 0, 0, 1, 0, 0, 8, 0, 0, 0, 0])"
    by code_simp
  have set2: "nf9_FlowSetHeader_Unmarshal [1, 0, 0, 8, 0, 0, 0, 0] =
     Inr (\<lparr>nf9_fsh_ID = 256, nf9_fsh_Length = 8\<rparr>, [0, 0, 0, 0])"
    by code_simp
  have two: "nf9_FlowSets t 2 i s p b = nf9_FlowSets t (Suc (Suc 0)) i s p b" for t i s p b
    by (simp only: numeral_2_eq_2)
  show ?thesis
    by (simp add: nf9_Read_def head nf9_UnmarshalFlowSets_def nf9_FlowSets.simps(2) set1 set2 two
        io_ReadFull_def nf9_FlowSet_def nf9_TemplateFlowSet_UnmarshalRecords_def templates register_all_Some
        lookup_template_def GetTemplate_def AddTemplate_def nf9_DataFlowSet_Unmarshal_def stuck)
qed

text \<open>
  C28: decoding a NetFlow 9 packet, successfully or not, changes the templates of no other
  source than the one its header names.
\<close>

theorem nf9_sources_isolated:
  assumes "nf9_Read elements s t bs = Some (s', r)"
    and "\<And>h rest. nf9_PacketHeader_Unmarshal bs = Inr (h, rest) \<Longrightarrow> d \<noteq> nf9_h_SourceID h"
  shows "lookup_template s' d k = lookup_template s d k"
proof (cases "nf9_PacketHeader_Unmarshal bs")
  case (Inl e)
  then show ?thesis using assms(1) by (simp add: nf9_Read_def)
next
  case (Inr x)
  obtain h rest where x: "x = (h, rest)" by (cases x)
  then have "d \<noteq> nf9_h_SourceID h" using assms(2) Inr by blast
  with assms(1) Inr x show ?thesis
    by (auto simp: nf9_Read_def nf9_UnmarshalFlowSets_def Let_def split: if_splits dest: nf9_sets.loop_isolated)
qed

definition nf9_template_packet :: "u8 list" where
  "nf9_template_packet = [0, 9, 0, 1] @ replicate 15 0 @ [7] @ [0, 0, 0, 12, 1, 0, 0, 1, 0, 1, 0, 4]"

theorem nf9_sources_isolated_witness:
  "\<exists>s' r. nf9_Read Map.empty (Some session_New) None nf9_template_packet = Some (s', r) \<and>
     lookup_template s' 8 256 = None"
proof -
  have "nf9_Read Map.empty (Some session_New) None nf9_template_packet \<noteq> None"
    by code_simp
  then obtain s' r where 1: "nf9_Read Map.empty (Some session_New) None nf9_template_packet = Some (s', r)"
    by auto
  have "map_sum id (\<lambda>x. nf9_h_SourceID (fst x)) (nf9_PacketHeader_Unmarshal nf9_template_packet) = Inr 7"
    by code_simp
  then have 2: "nf9_PacketHeader_Unmarshal nf9_template_packet = Inr (h, rest) \<Longrightarrow> 8 \<noteq> nf9_h_SourceID h" for h rest
    by auto
  show ?thesis using 1 nf9_sources_isolated [OF 1 2]
    by (auto simp: lookup_template_def GetTemplate_def session_New_def)
qed

section \<open>Data records: the round trip\<close>

text \<open>What a field of a template must decode to: its bytes, translated when there is a translator.\<close>

definition nf9_field_of :: "informationElements option \<Rightarrow> nf9_FieldSpecifier \<Rightarrow> u8 list \<Rightarrow> nf9_Field" where
  "nf9_field_of t fs b = \<lparr>nf9_f_Type = nf9_fs_Type fs, nf9_f_Length = nf9_fs_Length fs,
     nf9_f_Translated = map_option (\<lambda>elements.
       case Translate_Key elements 0 (nf9_fs_Type fs) of
         None \<Rightarrow> \<lparr>nf9_tf_Name = [], nf9_tf_Type = nf9_fs_Type fs, nf9_tf_Value = TNil\<rparr>
       | Some element \<Rightarrow> \<lparr>nf9_tf_Name = iee_Name element, nf9_tf_Type = nf9_fs_Type fs,
           nf9_tf_Value = projr (translate_Bytes b (iee_Type element))\<rparr>) t,
     nf9_f_Bytes = b\<rparr>"

definition nf9_record_of :: "informationElements option \<Rightarrow> nf9_TemplateRecord \<Rightarrow> u8 list list \<Rightarrow> nf9_DataRecord" where
  "nf9_record_of t tr bss = \<lparr>nf9_dr_TemplateID = nf9_tr_TemplateID tr,
     nf9_dr_Fields = map2 (nf9_field_of t) (nf9_tr_Fields tr) bss\<rparr>"

definition nf9_fits :: "nf9_FieldSpecifier list \<Rightarrow> u8 list list \<Rightarrow> bool" where
  "nf9_fits fss bss \<longleftrightarrow> map length bss = map (\<lambda>fs. unat (nf9_fs_Length fs)) fss \<and> [] \<notin> set bss"

lemma nf9_DataRecord_fields_append:
  "nf9_fits fss bss \<Longrightarrow> nf9_DataRecord_fields fss (concat bss) = Inr (map2 (nf9_field_of None) fss bss, [])"
proof (induction fss arbitrary: bss)
  case (Cons fs fss)
  then obtain b bss' where bss: "bss = b # bss'" "length b = unat (nf9_fs_Length fs)" "b \<noteq> []" "nf9_fits fss bss'"
    by (cases bss) (auto simp: nf9_fits_def)
  then have "nf9_Field_Unmarshal fs (concat bss) = Inr (nf9_field_of None fs b, concat bss')"
    by (simp add: nf9_Field_Unmarshal_def rd_bind_def rd_simps nf9_field_of_def)
  with bss Cons.IH show ?case by (simp add: rd_bind_def)
qed (simp add: nf9_fits_def)

lemma nf9_translate_field_of:
  "nf9_translate_field elements fs (nf9_field_of None fs b) = Inr (nf9_field_of (Some elements) fs b)"
proof (cases "Translate_Key elements 0 (nf9_fs_Type fs)")
  case (Some element)
  then show ?thesis using translate_Bytes_total [of b "iee_Type element"]
    by (auto simp: nf9_translate_field_def nf9_field_of_def)
qed (simp add: nf9_translate_field_def nf9_field_of_def)

lemma nf9_Translate_Record_map2:
  "nf9_Translate_Record elements (map2 (nf9_field_of None) fss bss) fss =
     Inr (map2 (nf9_field_of (Some elements)) fss bss)"
proof (induction fss arbitrary: bss)
  case (Cons fs fss)
  then show ?case by (cases bss) (simp_all add: nf9_translate_field_of)
qed simp

lemma nf9_DataRecord_roundtrip:
  assumes "nf9_fits (nf9_tr_Fields tr) bss"
  shows "nf9_DataRecord_Unmarshal (nf9_tr_TemplateID tr) (nf9_tr_Fields tr) t (concat bss) = Inr (nf9_record_of t tr bss)"
  using nf9_DataRecord_fields_append [OF assms] nf9_Translate_Record_map2
  by (cases t) (auto simp: nf9_DataRecord_Unmarshal_def nf9_record_of_def)

lemma nf9_fits_Size: "nf9_fits (nf9_tr_Fields tr) bss \<Longrightarrow> length (concat bss) = nf9_TemplateRecord_Size tr"
  by (simp add: nf9_fits_def nf9_TemplateRecord_Size_def length_concat)

lemma nf9_DataRecords_append:
  assumes "\<forall>bss \<in> set rss. nf9_fits (nf9_tr_Fields tr) bss" "4 \<le> nf9_TemplateRecord_Size tr" "length pad < 4"
  shows "nf9_DataRecords tr t (concat (map concat rss) @ pad) acc = Some (Inr (acc @ map (nf9_record_of t tr) rss))"
  using assms(1)
proof (induction rss arbitrary: acc)
  case Nil
  then show ?case using assms(3) by (subst nf9_DataRecords.simps) simp
next
  case (Cons bss rss)
  have len: "length (concat bss) = nf9_TemplateRecord_Size tr" using Cons.prems nf9_fits_Size by simp
  have rec: "nf9_DataRecord_Unmarshal (nf9_tr_TemplateID tr) (nf9_tr_Fields tr) t (concat bss) = Inr (nf9_record_of t tr bss)"
    using Cons.prems nf9_DataRecord_roundtrip by simp
  have "\<not> length (concat (map concat (bss # rss)) @ pad) < 4" using len assms(2) by simp
  then show ?case using Cons len rec by (subst nf9_DataRecords.simps) simp
qed

text \<open>
  C25: a data set made of any number of records, each with the bytes of every field of the
  template, followed by at most three bytes of padding, decodes to exactly these records, in
  order, every field with its bytes and with the value its information element gives them,
  for a template of at least four bytes without empty fields.
\<close>

theorem nf9_data_roundtrip:
  assumes "\<forall>bss \<in> set rss. nf9_fits (nf9_tr_Fields tr) bss" "4 \<le> nf9_TemplateRecord_Size tr" "length pad < 4"
  shows "nf9_DataFlowSet_Unmarshal header tr t (concat (map concat rss) @ pad) =
    Some (Inr \<lparr>nf9_dfs_Header = header, nf9_dfs_Records = map (nf9_record_of t tr) rss\<rparr>)"
  using nf9_DataRecords_append [OF assms, of t "[]"] by (simp add: nf9_DataFlowSet_Unmarshal_def)

theorem nf9_data_roundtrip_witness:
  "\<exists>dfs. nf9_DataFlowSet_Unmarshal \<lparr>nf9_fsh_ID = 256, nf9_fsh_Length = 16\<rparr>
     \<lparr>nf9_tr_TemplateID = 256, nf9_tr_FieldCount = 2, nf9_tr_Fields =
        [\<lparr>nf9_fs_Type = 1, nf9_fs_Length = 4\<rparr>, \<lparr>nf9_fs_Type = 4, nf9_fs_Length = 1\<rparr>]\<rparr>
     None (concat (map concat [[[0, 0, 1, 0], [6]], [[0, 0, 2, 0], [17]]]) @ [0, 0]) = Some (Inr dfs) \<and>
   map (\<lambda>dr. map nf9_f_Bytes (nf9_dr_Fields dr)) (nf9_dfs_Records dfs) = [[[0, 0, 1, 0], [6]], [[0, 0, 2, 0], [17]]]"
  by (subst nf9_data_roundtrip)
    (simp_all add: nf9_fits_def nf9_TemplateRecord_Size_def nf9_record_of_def nf9_field_of_def)

text \<open>
  Reading an options template takes the rest of its set with it, so of the options templates
  of a set at most the first is decoded, and the others are never registered.
\<close>

theorem nf9_one_options_template_per_set:
  "case nf9_OptionsTemplateRecords body of Inl e \<Rightarrow> True | Inr rs \<Rightarrow> length rs \<le> 1"
proof (cases "length body \<le> 4")
  case True
  then show ?thesis by (simp add: nf9_OptionsTemplateRecords.simps [of body])
next
  case False
  have empty: "nf9_OptionsTemplateRecords [] = Inr []" by (simp add: nf9_OptionsTemplateRecords.simps)
  then show ?thesis using False nf9_OptionsTemplateRecord_drains [of body]
    by (subst nf9_OptionsTemplateRecords.simps) (auto split: sum.splits)
qed

text \<open>No bytes, and no session, make the decoder panic.\<close>

lemma nf9_Read_no_panic: "nf9_Read elements s t bs \<noteq> Some (s', Inl (NfPanic pn))"
proof -
  have "no_panic nf9_PacketHeader_Unmarshal"
    unfolding nf9_PacketHeader_Unmarshal_def by (intro no_panic_bind no_panic_wrap no_panic_return) simp_all
  from no_panicD [OF this, of bs] show ?thesis
    by (auto simp: nf9_Read_def nf9_UnmarshalFlowSets_def Let_def split: sum.splits if_splits dest: nf9_sets.loop_no_panic)
qed

end
