(* ===== verification/Ipfix.thy ===== *)
theory Ipfix
  imports Nf_Translate Nf_Sets
begin

text \<open>
  The IPFIX decoder: \<open>pkg/util/netflow/ipfix\<close> (\<open>packet.go\<close>, \<open>decoder.go\<close>, \<open>translate.go\<close>).  It
  differs from the NetFlow 9 decoder in that the message announces its length, that a field
  specifier may name an enterprise, that a field may have a variable length, and that the records
  of a data set are read from one buffer until it is empty; a record cut short by the end of the
  set is dropped.  Results and the meaning of \<open>None\<close> are as in \<open>Netflow9\<close>.
\<close>

unbundle bit_operations_syntax

section \<open>Data\<close>

record ipfix_MessageHeader =
  ipfix_h_Version :: u16
  ipfix_h_Length :: u16
  ipfix_h_ExportTime :: u32
  ipfix_h_SequenceNumber :: u32
  ipfix_h_ObservationDomainID :: u32

record ipfix_SetHeader =
  ipfix_sh_ID :: u16
  ipfix_sh_Length :: u16

record ipfix_TemplateSet =
  ipfix_ts_Header :: ipfix_SetHeader
  ipfix_ts_Records :: "ipfix_TemplateRecord list"

record ipfix_OptionsTemplateSet =
  ipfix_ots_Header :: ipfix_SetHeader
  ipfix_ots_Records :: "ipfix_OptionsTemplateRecord list"

record ipfix_TranslatedField =
  ipfix_tf_Name :: string
  ipfix_tf_InformationElementID :: u16
  ipfix_tf_EnterpriseNumber :: u32
  ipfix_tf_Value :: tvalue

record ipfix_Field =
  ipfix_f_Bytes :: "u8 list"
  ipfix_f_Translated :: "ipfix_TranslatedField option"

record ipfix_DataRecord =
  ipfix_dr_TemplateID :: u16
  ipfix_dr_Fields :: "ipfix_Field list"

record ipfix_DataSet =
  ipfix_ds_Header :: ipfix_SetHeader
  ipfix_ds_Records :: "ipfix_DataRecord list"

record ipfix_OptionsDataRecord =
  ipfix_odr_TemplateID :: u16
  ipfix_odr_ScopeFields :: "ipfix_Field list"
  ipfix_odr_Fields :: "ipfix_Field list"

record ipfix_OptionsDataSet =
  ipfix_ods_Header :: ipfix_SetHeader
  ipfix_ods_Records :: "ipfix_OptionsDataRecord list"

record ipfix_Message =
  ipfix_Header :: ipfix_MessageHeader
  ipfix_TemplateSets :: "ipfix_TemplateSet list"
  ipfix_OptionsTemplateSets :: "ipfix_OptionsTemplateSet list"
  ipfix_DataSets :: "ipfix_DataSet list"
  ipfix_OptionsDataSets :: "ipfix_OptionsDataSet list"

section \<open>Headers and templates\<close>

definition ipfix_MessageHeader_Unmarshal :: "ipfix_MessageHeader reader" where
  "ipfix_MessageHeader_Unmarshal =
     rd_bind (rd_wrap (HeaderTruncated ''version'') read_Uint16) (\<lambda>Version.
     rd_bind (rd_wrap (HeaderTruncated ''length'') read_Uint16) (\<lambda>Length.
     rd_bind (rd_wrap (HeaderTruncated ''export-time'') read_Uint32) (\<lambda>ExportTime.
     rd_bind (rd_wrap (HeaderTruncated ''sequence-number'') read_Uint32) (\<lambda>SequenceNumber.
     rd_bind (rd_wrap (HeaderTruncated ''observation-domain-id'') read_Uint32) (\<lambda>ObservationDomainID.
     rd_return \<lparr>ipfix_h_Version = Version, ipfix_h_Length = Length, ipfix_h_ExportTime = ExportTime,
       ipfix_h_SequenceNumber = SequenceNumber, ipfix_h_ObservationDomainID = ObservationDomainID\<rparr>)))))"

definition ipfix_SetHeader_Unmarshal :: "ipfix_SetHeader reader" where
  "ipfix_SetHeader_Unmarshal =
     rd_bind read_Uint16 (\<lambda>ID. rd_bind read_Uint16 (\<lambda>Length.
     rd_return \<lparr>ipfix_sh_ID = ID, ipfix_sh_Length = Length\<rparr>))"

definition EnterpriseBit :: u16 where
  "EnterpriseBit = 0x8000"

definition VariableLength :: u16 where
  "VariableLength = 0xffff"

definition ipfix_IsVariableLength :: "ipfix_FieldSpecifier \<Rightarrow> bool" where
  "ipfix_IsVariableLength fs \<longleftrightarrow> ipfix_fs_InformationElementID fs = VariableLength"

definition ipfix_FieldSpecifier_Unmarshal :: "ipfix_FieldSpecifier reader" where
  "ipfix_FieldSpecifier_Unmarshal =
     rd_bind read_Uint16 (\<lambda>ID. rd_bind read_Uint16 (\<lambda>Length.
     if 0 < ID AND EnterpriseBit
     then rd_bind read_Uint32 (\<lambda>EnterpriseNumber.
       rd_return \<lparr>ipfix_fs_InformationElementID = ID XOR EnterpriseBit, ipfix_fs_Length = Length,
         ipfix_fs_EnterpriseNumber = EnterpriseNumber, ipfix_fs_EnterpriseBitSet = True\<rparr>)
     else rd_return \<lparr>ipfix_fs_InformationElementID = ID, ipfix_fs_Length = Length,
         ipfix_fs_EnterpriseNumber = 0, ipfix_fs_EnterpriseBitSet = False\<rparr>))"

definition ipfix_FieldSpecifiers_Unmarshal :: "u16 \<Rightarrow> ipfix_FieldSpecifier list reader" where
  "ipfix_FieldSpecifiers_Unmarshal count = rd_many (unat count) ipfix_FieldSpecifier_Unmarshal"

definition ipfix_TemplateRecord_Unmarshal :: "ipfix_TemplateRecord reader" where
  "ipfix_TemplateRecord_Unmarshal =
     rd_bind read_Uint16 (\<lambda>TemplateID. rd_bind read_Uint16 (\<lambda>FieldCount.
     rd_bind (ipfix_FieldSpecifiers_Unmarshal FieldCount) (\<lambda>Fields.
     rd_return \<lparr>ipfix_tr_TemplateID = TemplateID, ipfix_tr_FieldCount = FieldCount, ipfix_tr_Fields = Fields\<rparr>)))"

definition ipfix_OptionsTemplateRecord_Unmarshal :: "ipfix_OptionsTemplateRecord reader" where
  "ipfix_OptionsTemplateRecord_Unmarshal =
     rd_bind read_Uint16 (\<lambda>TemplateID. rd_bind read_Uint16 (\<lambda>FieldCount. rd_bind read_Uint16 (\<lambda>ScopeFieldCount.
     if FieldCount < ScopeFieldCount then rd_fail (ScopeCountTooHigh ScopeFieldCount FieldCount)
     else rd_drain (
       rd_bind (ipfix_FieldSpecifiers_Unmarshal ScopeFieldCount) (\<lambda>ScopeFields.
       rd_bind (ipfix_FieldSpecifiers_Unmarshal (FieldCount - ScopeFieldCount)) (\<lambda>Fields.
       rd_return \<lparr>ipfix_otr_TemplateID = TemplateID, ipfix_otr_FieldCount = FieldCount, ipfix_otr_Fields = Fields,
         ipfix_otr_ScopeFieldCount = ScopeFieldCount, ipfix_otr_ScopeFields = ScopeFields\<rparr>))))))"

function ipfix_TemplateRecords :: "u8 list \<Rightarrow> nf_error + ipfix_TemplateRecord list" where
  "ipfix_TemplateRecords buffer =
     (if length buffer \<le> 4 then Inr []
      else case ipfix_TemplateRecord_Unmarshal buffer of
        Inl e \<Rightarrow> Inl e
      | Inr (record, rest) \<Rightarrow>
          (case ipfix_TemplateRecords rest of Inl e \<Rightarrow> Inl e | Inr rs \<Rightarrow> Inr (record # rs)))"
  by auto

lemma ipfix_FieldSpecifier_consumes: "consumes 4 ipfix_FieldSpecifier_Unmarshal"
proof -
  have "consumes (2 + (2 + 0)) ipfix_FieldSpecifier_Unmarshal"
    unfolding ipfix_FieldSpecifier_Unmarshal_def
  proof (intro consumes_bind consumes_strict [OF strict_Uint16])
    fix ID Length :: u16
    have "consumes (4 + 0) (rd_bind read_Uint32 (\<lambda>EnterpriseNumber.
       rd_return \<lparr>ipfix_fs_InformationElementID = ID XOR EnterpriseBit, ipfix_fs_Length = Length,
         ipfix_fs_EnterpriseNumber = EnterpriseNumber, ipfix_fs_EnterpriseBitSet = True\<rparr>))"
      by (intro consumes_bind consumes_return consumes_strict [OF strict_Uint32])
    then show "consumes 0 (if 0 < ID AND EnterpriseBit
     then rd_bind read_Uint32 (\<lambda>EnterpriseNumber.
       rd_return \<lparr>ipfix_fs_InformationElementID = ID XOR EnterpriseBit, ipfix_fs_Length = Length,
         ipfix_fs_EnterpriseNumber = EnterpriseNumber, ipfix_fs_EnterpriseBitSet = True\<rparr>)
     else rd_return \<lparr>ipfix_fs_InformationElementID = ID, ipfix_fs_Length = Length,
         ipfix_fs_EnterpriseNumber = 0, ipfix_fs_EnterpriseBitSet = False\<rparr>)"
      using consumes_return by (auto intro: consumes_mono)
  qed
  then show ?thesis by simp
qed

lemma ipfix_FieldSpecifiers_consume: "consumes 0 (ipfix_FieldSpecifiers_Unmarshal n)"
  unfolding ipfix_FieldSpecifiers_Unmarshal_def by (rule consumes_many [OF ipfix_FieldSpecifier_consumes])

lemma ipfix_TemplateRecord_consumes: "consumes 4 ipfix_TemplateRecord_Unmarshal"
proof -
  have "consumes (2 + (2 + (0 + 0))) ipfix_TemplateRecord_Unmarshal"
    unfolding ipfix_TemplateRecord_Unmarshal_def
    by (intro consumes_bind consumes_return consumes_strict [OF strict_Uint16] ipfix_FieldSpecifiers_consume)
  then show ?thesis by simp
qed

termination ipfix_TemplateRecords
  by (relation "measure length") (auto dest!: consumesD [OF ipfix_TemplateRecord_consumes])

declare ipfix_TemplateRecords.simps [simp del]

definition ipfix_TemplateSet_UnmarshalRecords :: "ipfix_SetHeader \<Rightarrow> u8 list \<Rightarrow> nf_error + ipfix_TemplateSet" where
  "ipfix_TemplateSet_UnmarshalRecords header data =
     map_sum id (\<lambda>rs. \<lparr>ipfix_ts_Header = header, ipfix_ts_Records = rs\<rparr>) (ipfix_TemplateRecords data)"

function ipfix_OptionsTemplateRecords :: "u8 list \<Rightarrow> nf_error + ipfix_OptionsTemplateRecord list" where
  "ipfix_OptionsTemplateRecords buffer =
     (if length buffer \<le> 4 then Inr []
      else case ipfix_OptionsTemplateRecord_Unmarshal buffer of
        Inl e \<Rightarrow> Inl e
      | Inr (record, rest) \<Rightarrow>
          (case ipfix_OptionsTemplateRecords rest of Inl e \<Rightarrow> Inl e | Inr rs \<Rightarrow> Inr (record # rs)))"
  by auto

lemma ipfix_OptionsTemplateRecord_drains:
  "ipfix_OptionsTemplateRecord_Unmarshal bs = Inr (otr, rest) \<Longrightarrow> rest = []"
  by (auto simp: ipfix_OptionsTemplateRecord_Unmarshal_def rd_bind_eq_Inr rd_drain_eq_Inr split: if_splits)

termination ipfix_OptionsTemplateRecords
  by (relation "measure length") (auto dest!: ipfix_OptionsTemplateRecord_drains)

declare ipfix_OptionsTemplateRecords.simps [simp del]

definition ipfix_OptionsTemplateSet_UnmarshalRecords ::
    "ipfix_SetHeader \<Rightarrow> u8 list \<Rightarrow> nf_error + ipfix_OptionsTemplateSet" where
  "ipfix_OptionsTemplateSet_UnmarshalRecords header data =
     map_sum id (\<lambda>rs. \<lparr>ipfix_ots_Header = header, ipfix_ots_Records = rs\<rparr>) (ipfix_OptionsTemplateRecords data)"

section \<open>Data records\<close>

definition ipfix_translate_field ::
    "informationElements \<Rightarrow> ipfix_FieldSpecifier \<Rightarrow> ipfix_Field \<Rightarrow> nf_error + ipfix_Field" where
  "ipfix_translate_field elements fs f =
     (case Translate_Key elements (ipfix_fs_EnterpriseNumber fs) (ipfix_fs_InformationElementID fs) of
        Some element \<Rightarrow>
          (case translate_Bytes (ipfix_f_Bytes f) (iee_Type element) of
             Inl p \<Rightarrow> Inl (NfPanic p)
           | Inr v \<Rightarrow> Inr (f\<lparr>ipfix_f_Translated := Some \<lparr>ipfix_tf_Name = iee_Name element,
               ipfix_tf_InformationElementID = ipfix_fs_InformationElementID fs,
               ipfix_tf_EnterpriseNumber = ipfix_fs_EnterpriseNumber fs, ipfix_tf_Value = v\<rparr>\<rparr>))
      | None \<Rightarrow> Inr (f\<lparr>ipfix_f_Translated := Some \<lparr>ipfix_tf_Name = [],
               ipfix_tf_InformationElementID = ipfix_fs_InformationElementID fs,
               ipfix_tf_EnterpriseNumber = ipfix_fs_EnterpriseNumber fs, ipfix_tf_Value = TNil\<rparr>\<rparr>))"

text \<open>\<open>Translate.Record\<close> guards with \<open>i > len(fields)\<close>, one too late: with fewer fields than
  specifiers it indexes past the end.\<close>

fun ipfix_Translate_Record ::
    "informationElements \<Rightarrow> ipfix_Field list \<Rightarrow> ipfix_FieldSpecifier list \<Rightarrow> nf_error + ipfix_Field list" where
  "ipfix_Translate_Record elements flds [] = Inr flds"
| "ipfix_Translate_Record elements [] (fs # fss) = Inl (NfPanic IndexOutOfRange)"
| "ipfix_Translate_Record elements (f # flds) (fs # fss) =
     go_bind (ipfix_translate_field elements fs f) (\<lambda>f'.
     go_bind (ipfix_Translate_Record elements flds fss) (\<lambda>flds'. Inr (f' # flds')))"

definition ipfix_Field_Unmarshal :: "ipfix_FieldSpecifier \<Rightarrow> ipfix_Field reader" where
  "ipfix_Field_Unmarshal fs =
     rd_bind (if ipfix_fs_Length fs = VariableLength then read_VariableLength
              else buffer_Read (unat (ipfix_fs_Length fs))) (\<lambda>b.
     rd_return \<lparr>ipfix_f_Bytes = b, ipfix_f_Translated = None\<rparr>)"

fun ipfix_fields :: "ipfix_FieldSpecifier list \<Rightarrow> ipfix_Field list reader" where
  "ipfix_fields [] = rd_return []"
| "ipfix_fields (fs # fss) =
     rd_bind (ipfix_Field_Unmarshal fs) (\<lambda>f. rd_bind (ipfix_fields fss) (\<lambda>flds. rd_return (f # flds)))"

definition ipfix_DataRecord_Unmarshal ::
    "u16 \<Rightarrow> ipfix_FieldSpecifier list \<Rightarrow> informationElements option \<Rightarrow> ipfix_DataRecord reader" where
  "ipfix_DataRecord_Unmarshal templateID fss t =
     rd_bind (ipfix_fields fss) (\<lambda>flds.
     rd_lift (go_bind (case t of
         Some elements \<Rightarrow> if flds \<noteq> [] then ipfix_Translate_Record elements flds fss else Inr flds
       | None \<Rightarrow> Inr flds) (\<lambda>flds'.
     Inr \<lparr>ipfix_dr_TemplateID = templateID, ipfix_dr_Fields = flds'\<rparr>)))"

partial_function (option) ipfix_DataRecords ::
    "ipfix_TemplateRecord \<Rightarrow> informationElements option \<Rightarrow> u8 list \<Rightarrow> ipfix_DataRecord list \<Rightarrow>
     (nf_error + ipfix_DataRecord list) option" where
  "ipfix_DataRecords tr t buffer records =
     (if buffer = [] then Some (Inr records)
      else case ipfix_DataRecord_Unmarshal (ipfix_tr_TemplateID tr) (ipfix_tr_Fields tr) t buffer of
        Inl e \<Rightarrow> Some (if e = IoEOF then Inr records else Inl e)
      | Inr (dr, rest) \<Rightarrow> ipfix_DataRecords tr t rest (records @ [dr]))"

definition ipfix_DataSet_Unmarshal ::
    "ipfix_SetHeader \<Rightarrow> ipfix_TemplateRecord \<Rightarrow> informationElements option \<Rightarrow> u8 list \<Rightarrow>
     (nf_error + ipfix_DataSet) option" where
  "ipfix_DataSet_Unmarshal header tr t data =
     map_option (map_sum id (\<lambda>rs. \<lparr>ipfix_ds_Header = header, ipfix_ds_Records = rs\<rparr>))
       (ipfix_DataRecords tr t data [])"

definition ipfix_OptionsDataRecord_Unmarshal ::
    "u16 \<Rightarrow> ipfix_FieldSpecifier list \<Rightarrow> ipfix_FieldSpecifier list \<Rightarrow> informationElements option \<Rightarrow>
     ipfix_OptionsDataRecord reader" where
  "ipfix_OptionsDataRecord_Unmarshal templateID scopeFss fss t =
     rd_bind (ipfix_fields scopeFss) (\<lambda>scope. rd_bind (ipfix_fields fss) (\<lambda>flds.
     rd_lift (case t of
       Some elements \<Rightarrow>
         if scope \<noteq> [] \<and> flds \<noteq> [] then
           go_bind (ipfix_Translate_Record elements scope scopeFss) (\<lambda>scope'.
           go_bind (ipfix_Translate_Record elements flds fss) (\<lambda>flds'.
           Inr \<lparr>ipfix_odr_TemplateID = templateID, ipfix_odr_ScopeFields = scope', ipfix_odr_Fields = flds'\<rparr>))
         else Inr \<lparr>ipfix_odr_TemplateID = templateID, ipfix_odr_ScopeFields = scope, ipfix_odr_Fields = flds\<rparr>
     | None \<Rightarrow> Inr \<lparr>ipfix_odr_TemplateID = templateID, ipfix_odr_ScopeFields = scope, ipfix_odr_Fields = flds\<rparr>)))"

partial_function (option) ipfix_OptionsDataRecords ::
    "ipfix_OptionsTemplateRecord \<Rightarrow> informationElements option \<Rightarrow> u8 list \<Rightarrow> ipfix_OptionsDataRecord list \<Rightarrow>
     (nf_error + ipfix_OptionsDataRecord list) option" where
  "ipfix_OptionsDataRecords otr t buffer records =
     (if buffer = [] then Some (Inr records)
      else case ipfix_OptionsDataRecord_Unmarshal (ipfix_otr_TemplateID otr) (ipfix_otr_ScopeFields otr)
                  (ipfix_otr_Fields otr) t buffer of
        Inl e \<Rightarrow> Some (if e = IoEOF then Inr records else Inl e)
      | Inr (odr, rest) \<Rightarrow> ipfix_OptionsDataRecords otr t rest (records @ [odr]))"

definition ipfix_OptionsDataSet_Unmarshal ::
    "ipfix_SetHeader \<Rightarrow> ipfix_OptionsTemplateRecord \<Rightarrow> informationElements option \<Rightarrow> u8 list \<Rightarrow>
     (nf_error + ipfix_OptionsDataSet) option" where
  "ipfix_OptionsDataSet_Unmarshal header otr t data =
     map_option (map_sum id (\<lambda>rs. \<lparr>ipfix_ods_Header = header, ipfix_ods_Records = rs\<rparr>))
       (ipfix_OptionsDataRecords otr t data [])"

section \<open>Messages\<close>

definition ipfix_Set ::
    "informationElements option \<Rightarrow> nat \<Rightarrow> ipfix_SetHeader \<Rightarrow> u8 list \<Rightarrow> nf_session option \<Rightarrow> ipfix_Message \<Rightarrow>
     ipfix_Message decoded" where
  "ipfix_Set t i header data s m =
     (let odid = ipfix_h_ObservationDomainID (ipfix_Header m); ID = ipfix_sh_ID header in
      if ID < 2 then Some (s, Inl InvalidSetId)
      else if ID = 2 then
        (case ipfix_TemplateSet_UnmarshalRecords header data of
           Inl e \<Rightarrow> Some (s, Inl e)
         | Inr ts \<Rightarrow> Some (register_all odid (map IPFIX_Template (ipfix_ts_Records ts)) s,
             Inr (m\<lparr>ipfix_TemplateSets := ipfix_TemplateSets m @ [ts]\<rparr>)))
      else if ID = 3 then
        (case ipfix_OptionsTemplateSet_UnmarshalRecords header data of
           Inl e \<Rightarrow> Some (s, Inl e)
         | Inr ots \<Rightarrow> Some (register_all odid (map IPFIX_Options (ipfix_ots_Records ots)) s,
             Inr (m\<lparr>ipfix_OptionsTemplateSets := ipfix_OptionsTemplateSets m @ [ots]\<rparr>)))
      else if 4 \<le> ID \<and> ID \<le> 255 then Some (s, Inr m)
      else case lookup_template s odid ID of
          None \<Rightarrow> Some (s, Inr m)
        | Some (IPFIX_Template template) \<Rightarrow>
            map_option (\<lambda>r. (s, map_sum id (\<lambda>ds. m\<lparr>ipfix_DataSets := ipfix_DataSets m @ [ds]\<rparr>) r))
              (ipfix_DataSet_Unmarshal header template t data)
        | Some (IPFIX_Options template) \<Rightarrow>
            map_option (\<lambda>r. (s, map_sum id (\<lambda>ods. m\<lparr>ipfix_OptionsDataSets := ipfix_OptionsDataSets m @ [ods]\<rparr>) r))
              (ipfix_OptionsDataSet_Unmarshal header template t data)
        | Some _ \<Rightarrow> Some (s, Inl (WrongTemplateType i odid ID)))"

text \<open>The loop over the sets of a message: every turn takes a set header and a body of at least one
  byte.\<close>

function ipfix_Sets ::
    "informationElements option \<Rightarrow> nat \<Rightarrow> nf_session option \<Rightarrow> ipfix_Message \<Rightarrow> u8 list \<Rightarrow> ipfix_Message decoded" where
  "ipfix_Sets t i s m buffer =
     (if buffer = [] then Some (s, Inr m)
      else case ipfix_SetHeader_Unmarshal buffer of
        Inl e \<Rightarrow> Some (s, Inl e)
      | Inr (header, rest) \<Rightarrow>
          (let readSize = uint (ipfix_sh_Length header) - 4 in
           if readSize \<le> 0 then Some (s, Inl (IllegalSetSize i readSize))
           else if rest = [] then Some (s, Inl IoEOF)
           else if length rest < nat readSize then Some (s, Inl IoUnexpectedEOF)
           else case ipfix_Set t i header (take (nat readSize) rest) s m of
             None \<Rightarrow> None
           | Some (s', Inl e) \<Rightarrow> Some (s', Inl e)
           | Some (s', Inr m') \<Rightarrow> ipfix_Sets t (Suc i) s' m' (drop (nat readSize) rest)))"
  by pat_completeness auto

lemma ipfix_SetHeader_strict: "strict 4 ipfix_SetHeader_Unmarshal"
proof -
  have "strict (2 + (2 + 0)) ipfix_SetHeader_Unmarshal"
    unfolding ipfix_SetHeader_Unmarshal_def by (intro strict_bind strict_Uint16 strict_return)
  then show ?thesis by simp
qed

termination ipfix_Sets
  by (relation "measure (\<lambda>(t, i, s, m, buffer). length buffer)") (auto dest!: strictD [OF ipfix_SetHeader_strict])

declare ipfix_Sets.simps [simp del]

definition ipfix_UnmarshalSets ::
    "informationElements option \<Rightarrow> nf_session option \<Rightarrow> ipfix_Message \<Rightarrow> u8 list \<Rightarrow> ipfix_Message decoded" where
  "ipfix_UnmarshalSets t s m bs =
     (let readSize = uint (ipfix_h_Length (ipfix_Header m)) - 16 in
      if readSize \<le> 0 then Some (s, Inl (MessageTooBig (ipfix_h_Length (ipfix_Header m))))
      else case io_ReadFull (nat readSize) bs of
        Inl e \<Rightarrow> Some (s, Inl (MessageTruncated readSize (length bs) e))
      | Inr (data, _) \<Rightarrow> ipfix_Sets t 0 s m data)"

definition ipfix_Read ::
    "informationElements \<Rightarrow> nf_session option \<Rightarrow> informationElements option \<Rightarrow> u8 list \<Rightarrow> ipfix_Message decoded" where
  "ipfix_Read builtin s t0 bs =
     (let t = (case t0 of Some e \<Rightarrow> Some e | None \<Rightarrow> (case s of Some _ \<Rightarrow> Some builtin | None \<Rightarrow> None)) in
      case ipfix_MessageHeader_Unmarshal bs of
        Inl e \<Rightarrow> Some (s, Inl e)
      | Inr (h, rest) \<Rightarrow>
          (if ipfix_h_Length h < 16 then Some (s, Inl IoShortBuffer)
           else if ipfix_h_Version h \<noteq> 10 then Some (s, Inl (InvalidVersion (ipfix_h_Version h)))
           else ipfix_UnmarshalSets t s \<lparr>ipfix_Header = h, ipfix_TemplateSets = [], ipfix_OptionsTemplateSets = [],
                    ipfix_DataSets = [], ipfix_OptionsDataSets = []\<rparr> rest))"

section \<open>Data sets: when the loop ends\<close>

lemma ipfix_Field_length:
  assumes "ipfix_Field_Unmarshal fs buffer = Inr (f, rest)"
  shows "length rest \<le> length buffer \<and> (ipfix_fs_Length fs \<noteq> 0 \<longrightarrow> length rest < length buffer)"
proof (cases "ipfix_fs_Length fs = VariableLength")
  case True
  have "consumes (1 + 0) read_VariableLength"
    unfolding read_VariableLength_def
  proof (intro consumes_bind consumes_strict [OF strict_Uint8])
    fix l0 :: u8
    have "consumes (2 + 0) (rd_bind read_Uint16 (\<lambda>l1. buffer_Read (unat l1)))"
      by (intro consumes_bind consumes_strict [OF strict_Uint16] consumes_Read)
    then show "consumes 0 (if l0 < 255 then buffer_Read (unat l0) else rd_bind read_Uint16 (\<lambda>l1. buffer_Read (unat l1)))"
      using consumes_Read by (auto intro: consumes_mono)
  qed
  then show ?thesis using assms True by (auto simp: ipfix_Field_Unmarshal_def rd_bind_eq_Inr dest: consumesD)
next
  case False
  then have "rest = drop (unat (ipfix_fs_Length fs)) buffer \<and> (buffer = [] \<longrightarrow> unat (ipfix_fs_Length fs) = 0)"
    using assms by (auto simp: ipfix_Field_Unmarshal_def rd_bind_eq_Inr buffer_Read_def split: if_splits)
  then show ?thesis by (cases "buffer = []") (auto simp: unat_eq_zero unat_gt_0)
qed

definition ipfix_sizeless :: "ipfix_FieldSpecifier list \<Rightarrow> bool" where
  "ipfix_sizeless fss \<longleftrightarrow> (\<forall>fs \<in> set fss. ipfix_fs_Length fs = 0)"

lemma ipfix_fields_length:
  "ipfix_fields fss buffer = Inr (flds, rest) \<Longrightarrow>
     length flds = length fss \<and> length rest \<le> length buffer \<and> (\<not> ipfix_sizeless fss \<longrightarrow> length rest < length buffer)"
proof (induction fss arbitrary: buffer flds)
  case (Cons fs fss)
  from Cons.prems obtain f mid flds' where 1: "ipfix_Field_Unmarshal fs buffer = Inr (f, mid)"
    and 2: "ipfix_fields fss mid = Inr (flds', rest)" and "flds = f # flds'"
    by (auto simp: rd_bind_eq_Inr)
  then show ?case using ipfix_Field_length [OF 1] Cons.IH [OF 2] by (auto simp: ipfix_sizeless_def)
qed (simp add: ipfix_sizeless_def)

lemma ipfix_Translate_Record_total:
  "length flds = length fss \<Longrightarrow> \<exists>flds'. ipfix_Translate_Record elements flds fss = Inr flds'"
proof (induction elements flds fss rule: ipfix_Translate_Record.induct)
  case (3 elements f flds fs fss)
  have "\<exists>f'. ipfix_translate_field elements fs f = Inr f'"
  proof (cases "Translate_Key elements (ipfix_fs_EnterpriseNumber fs) (ipfix_fs_InformationElementID fs)")
    case (Some element)
    then show ?thesis using translate_Bytes_total [of "ipfix_f_Bytes f" "iee_Type element"]
      by (auto simp: ipfix_translate_field_def)
  qed (simp add: ipfix_translate_field_def)
  then show ?case using 3 by auto
qed auto

lemma ipfix_DataRecord_after_fields:
  assumes "ipfix_fields fss buffer = Inr (flds, rest)"
  shows "\<exists>dr. ipfix_DataRecord_Unmarshal tid fss t buffer = Inr (dr, rest)"
proof (cases t)
  case (Some elements)
  obtain flds' where "ipfix_Translate_Record elements flds fss = Inr flds'"
    using ipfix_Translate_Record_total ipfix_fields_length [OF assms] by blast
  then show ?thesis using assms Some by (simp add: ipfix_DataRecord_Unmarshal_def rd_bind_def)
qed (simp add: ipfix_DataRecord_Unmarshal_def rd_bind_def assms)

lemma ipfix_DataRecord_cases:
  "(\<exists>dr rest flds. ipfix_DataRecord_Unmarshal tid fss t buffer = Inr (dr, rest) \<and>
      ipfix_fields fss buffer = Inr (flds, rest)) \<or>
   (\<exists>e. ipfix_DataRecord_Unmarshal tid fss t buffer = Inl e \<and> ipfix_fields fss buffer = Inl e)"
proof (cases "ipfix_fields fss buffer")
  case (Inl e)
  then show ?thesis by (simp add: ipfix_DataRecord_Unmarshal_def rd_bind_def)
next
  case (Inr x)
  then show ?thesis using ipfix_DataRecord_after_fields by (cases x) blast
qed

lemma ipfix_fields_no_panic: "no_panic (ipfix_fields fss)"
proof (induction fss)
  case (Cons fs fss)
  have "no_panic (ipfix_Field_Unmarshal fs)"
    unfolding ipfix_Field_Unmarshal_def by (cases "ipfix_fs_Length fs = VariableLength")
      (simp_all add: no_panic_bind no_panic_VariableLength no_panic_Read no_panic_return)
  then show ?case using Cons unfolding ipfix_fields.simps by (intro no_panic_intros)
qed (simp add: no_panic_def)

lemma ipfix_OptionsDataRecord_after_fields:
  assumes "ipfix_fields sfss buffer = Inr (scope, mid)" "ipfix_fields fss mid = Inr (flds, rest)"
  shows "\<exists>odr. ipfix_OptionsDataRecord_Unmarshal tid sfss fss t buffer = Inr (odr, rest)"
proof (cases t)
  case (Some elements)
  obtain scope' where "ipfix_Translate_Record elements scope sfss = Inr scope'"
    using ipfix_Translate_Record_total ipfix_fields_length [OF assms(1)] by blast
  moreover obtain flds' where "ipfix_Translate_Record elements flds fss = Inr flds'"
    using ipfix_Translate_Record_total ipfix_fields_length [OF assms(2)] by blast
  ultimately show ?thesis using assms Some by (simp add: ipfix_OptionsDataRecord_Unmarshal_def rd_bind_def)
qed (simp add: ipfix_OptionsDataRecord_Unmarshal_def rd_bind_def assms)

lemma ipfix_OptionsDataRecord_cases:
  "(\<exists>odr rest. ipfix_OptionsDataRecord_Unmarshal tid sfss fss t buffer = Inr (odr, rest) \<and>
      (\<not> ipfix_sizeless (sfss @ fss) \<longrightarrow> length rest < length buffer)) \<or>
   (\<exists>e. ipfix_OptionsDataRecord_Unmarshal tid sfss fss t buffer = Inl e \<and> (\<forall>pn. e \<noteq> NfPanic pn))"
proof (cases "ipfix_fields sfss buffer")
  case (Inl e)
  then show ?thesis using no_panicD [OF ipfix_fields_no_panic, of sfss buffer]
    by (simp add: ipfix_OptionsDataRecord_Unmarshal_def rd_bind_def)
next
  case (Inr x)
  obtain scope mid where 1: "ipfix_fields sfss buffer = Inr (scope, mid)" using Inr by (cases x) auto
  show ?thesis
  proof (cases "ipfix_fields fss mid")
    case (Inl e)
    then show ?thesis using 1 no_panicD [OF ipfix_fields_no_panic, of fss mid]
      by (simp add: ipfix_OptionsDataRecord_Unmarshal_def rd_bind_def)
  next
    case (Inr y)
    obtain flds rest where 2: "ipfix_fields fss mid = Inr (flds, rest)" using Inr by (cases y) auto
    have "\<not> ipfix_sizeless (sfss @ fss) \<longrightarrow> length rest < length buffer"
      using ipfix_fields_length [OF 1] ipfix_fields_length [OF 2] by (auto simp: ipfix_sizeless_def)
    then show ?thesis using ipfix_OptionsDataRecord_after_fields [OF 1 2] by blast
  qed
qed

lemma ipfix_fields_sizeless:
  "ipfix_sizeless fss \<Longrightarrow> buffer \<noteq> [] \<Longrightarrow> \<exists>flds. ipfix_fields fss buffer = Inr (flds, buffer)"
proof (induction fss)
  case (Cons fs fss)
  then have "ipfix_fs_Length fs = 0" "\<exists>flds. ipfix_fields fss buffer = Inr (flds, buffer)"
    by (auto simp: ipfix_sizeless_def)
  then show ?case using Cons.prems(2)
    by (auto simp: rd_bind_def ipfix_Field_Unmarshal_def buffer_Read_def VariableLength_def)
qed simp

lemma ipfix_DataRecords_stuck:
  assumes "ipfix_DataRecords tr t buffer records = Some r"
  shows "ipfix_sizeless (ipfix_tr_Fields tr) \<longrightarrow> buffer = []"
proof (rule ipfix_DataRecords.raw_induct [OF _ assms,
        where P = "\<lambda>tr t buffer records r. ipfix_sizeless (ipfix_tr_Fields tr) \<longrightarrow> buffer = []"])
  fix rec tr t buffer records r
  assume IH: "\<And>tr t buffer records r. rec tr t buffer records = Some r \<Longrightarrow>
      ipfix_sizeless (ipfix_tr_Fields tr) \<longrightarrow> buffer = []"
    and step: "(if buffer = [] then Some (Inr records)
      else case ipfix_DataRecord_Unmarshal (ipfix_tr_TemplateID tr) (ipfix_tr_Fields tr) t buffer of
        Inl e \<Rightarrow> Some (if e = IoEOF then Inr records else Inl e)
      | Inr (dr, rest) \<Rightarrow> rec tr t rest (records @ [dr])) = Some r"
  show "ipfix_sizeless (ipfix_tr_Fields tr) \<longrightarrow> buffer = []"
  proof (intro impI, rule ccontr)
    assume "ipfix_sizeless (ipfix_tr_Fields tr)" "buffer \<noteq> []"
    moreover from this obtain dr where
      "ipfix_DataRecord_Unmarshal (ipfix_tr_TemplateID tr) (ipfix_tr_Fields tr) t buffer = Inr (dr, buffer)"
      using ipfix_fields_sizeless ipfix_DataRecord_after_fields by blast
    ultimately show False using step IH [of tr t buffer] by auto
  qed
qed

lemma ipfix_DataRecords_returns:
  assumes "\<not> ipfix_sizeless (ipfix_tr_Fields tr)"
  shows "\<exists>r. ipfix_DataRecords tr t buffer records = Some r"
proof (induction "length buffer" arbitrary: buffer records rule: less_induct)
  case less
  from ipfix_DataRecord_cases [of "ipfix_tr_TemplateID tr" "ipfix_tr_Fields tr" t buffer] show ?case
  proof (elim disjE exE conjE)
    fix dr rest flds
    assume ok: "ipfix_DataRecord_Unmarshal (ipfix_tr_TemplateID tr) (ipfix_tr_Fields tr) t buffer = Inr (dr, rest)"
      and "ipfix_fields (ipfix_tr_Fields tr) buffer = Inr (flds, rest)"
    then have "length rest < length buffer" using ipfix_fields_length assms by blast
    from less [OF this, of "records @ [dr]"] show ?thesis
      using ok by (subst ipfix_DataRecords.simps) simp
  next
    fix e
    assume "ipfix_DataRecord_Unmarshal (ipfix_tr_TemplateID tr) (ipfix_tr_Fields tr) t buffer = Inl e"
    then show ?thesis by (subst ipfix_DataRecords.simps) simp
  qed
qed

lemma ipfix_DataRecords_None_iff:
  "ipfix_DataRecords tr t buffer records = None \<longleftrightarrow> ipfix_sizeless (ipfix_tr_Fields tr) \<and> buffer \<noteq> []"
proof (cases "buffer = []")
  case True
  then show ?thesis by (subst ipfix_DataRecords.simps) simp
next
  case False
  then show ?thesis using ipfix_DataRecords_returns [of tr t buffer records] ipfix_DataRecords_stuck [of tr t buffer records]
    by (cases "ipfix_DataRecords tr t buffer records") auto
qed

lemma ipfix_OptionsDataRecords_returns:
  assumes "\<not> ipfix_sizeless (ipfix_otr_ScopeFields otr @ ipfix_otr_Fields otr)"
  shows "\<exists>r. ipfix_OptionsDataRecords otr t buffer records = Some r"
proof (induction "length buffer" arbitrary: buffer records rule: less_induct)
  case less
  from ipfix_OptionsDataRecord_cases
      [of "ipfix_otr_TemplateID otr" "ipfix_otr_ScopeFields otr" "ipfix_otr_Fields otr" t buffer]
  show ?case
  proof (elim disjE exE conjE)
    fix odr rest
    assume ok: "ipfix_OptionsDataRecord_Unmarshal (ipfix_otr_TemplateID otr) (ipfix_otr_ScopeFields otr)
        (ipfix_otr_Fields otr) t buffer = Inr (odr, rest)"
      and "\<not> ipfix_sizeless (ipfix_otr_ScopeFields otr @ ipfix_otr_Fields otr) \<longrightarrow> length rest < length buffer"
    then have "length rest < length buffer" using assms by blast
    from less [OF this, of "records @ [odr]"] show ?thesis
      using ok by (subst ipfix_OptionsDataRecords.simps) simp
  next
    fix e
    assume "ipfix_OptionsDataRecord_Unmarshal (ipfix_otr_TemplateID otr) (ipfix_otr_ScopeFields otr)
        (ipfix_otr_Fields otr) t buffer = Inl e"
    then show ?thesis by (subst ipfix_OptionsDataRecords.simps) simp
  qed
qed

lemma ipfix_OptionsDataRecord_sizeless:
  assumes "buffer \<noteq> []" "ipfix_sizeless (ipfix_otr_ScopeFields otr @ ipfix_otr_Fields otr)"
  shows "\<exists>odr. ipfix_OptionsDataRecord_Unmarshal (ipfix_otr_TemplateID otr) (ipfix_otr_ScopeFields otr)
    (ipfix_otr_Fields otr) t buffer = Inr (odr, buffer)"
proof -
  have "ipfix_sizeless (ipfix_otr_ScopeFields otr)" "ipfix_sizeless (ipfix_otr_Fields otr)"
    using assms(2) by (auto simp: ipfix_sizeless_def)
  then obtain scope flds where f: "ipfix_fields (ipfix_otr_ScopeFields otr) buffer = Inr (scope, buffer)"
      "ipfix_fields (ipfix_otr_Fields otr) buffer = Inr (flds, buffer)"
    using ipfix_fields_sizeless assms(1) by metis
  show ?thesis
  proof (cases t)
    case (Some elements)
    obtain scope' flds' where "ipfix_Translate_Record elements scope (ipfix_otr_ScopeFields otr) = Inr scope'"
        "ipfix_Translate_Record elements flds (ipfix_otr_Fields otr) = Inr flds'"
      using ipfix_Translate_Record_total ipfix_fields_length f by meson
    with f Some show ?thesis by (simp add: ipfix_OptionsDataRecord_Unmarshal_def rd_bind_def rd_lift_def)
  qed (simp add: ipfix_OptionsDataRecord_Unmarshal_def f rd_bind_def rd_lift_def rd_return_def)
qed

lemma ipfix_OptionsDataRecords_stuck:
  assumes "ipfix_OptionsDataRecords otr t buffer records = Some r"
  shows "ipfix_sizeless (ipfix_otr_ScopeFields otr @ ipfix_otr_Fields otr) \<longrightarrow> buffer = []"
proof (rule ipfix_OptionsDataRecords.raw_induct [OF _ assms,
        where P = "\<lambda>otr t buffer records r. ipfix_sizeless (ipfix_otr_ScopeFields otr @ ipfix_otr_Fields otr) \<longrightarrow> buffer = []"])
  fix rec otr t buffer records r
  assume IH: "\<And>otr t buffer records r. rec otr t buffer records = Some r \<Longrightarrow>
      ipfix_sizeless (ipfix_otr_ScopeFields otr @ ipfix_otr_Fields otr) \<longrightarrow> buffer = []"
    and step: "(if buffer = [] then Some (Inr records)
      else case ipfix_OptionsDataRecord_Unmarshal (ipfix_otr_TemplateID otr) (ipfix_otr_ScopeFields otr)
          (ipfix_otr_Fields otr) t buffer of
        Inl e \<Rightarrow> Some (if e = IoEOF then Inr records else Inl e)
      | Inr (odr, rest) \<Rightarrow> rec otr t rest (records @ [odr])) = Some r"
  show "ipfix_sizeless (ipfix_otr_ScopeFields otr @ ipfix_otr_Fields otr) \<longrightarrow> buffer = []"
  proof (intro impI, rule ccontr)
    assume "ipfix_sizeless (ipfix_otr_ScopeFields otr @ ipfix_otr_Fields otr)" "buffer \<noteq> []"
    with ipfix_OptionsDataRecord_sizeless [of buffer otr t] show False using step IH [of otr t buffer] by auto
  qed
qed

lemma ipfix_OptionsDataRecords_None_iff:
  "ipfix_OptionsDataRecords otr t buffer records = None \<longleftrightarrow>
     ipfix_sizeless (ipfix_otr_ScopeFields otr @ ipfix_otr_Fields otr) \<and> buffer \<noteq> []"
proof (cases "buffer = []")
  case True
  then show ?thesis by (subst ipfix_OptionsDataRecords.simps) simp
next
  case False
  then show ?thesis
    using ipfix_OptionsDataRecords_returns [of otr t buffer records] ipfix_OptionsDataRecords_stuck [of otr t buffer records]
    by (cases "ipfix_OptionsDataRecords otr t buffer records") auto
qed

section \<open>Errors\<close>

text \<open>No error of the decoder is a panic.\<close>

lemma ipfix_DataRecord_no_panic: "ipfix_DataRecord_Unmarshal tid fss t buffer \<noteq> Inl (NfPanic pn)"
  using ipfix_DataRecord_cases [of tid fss t buffer] no_panicD [OF ipfix_fields_no_panic] by fastforce

lemma ipfix_DataRecords_no_panic:
  assumes "ipfix_DataRecords tr t buffer records = Some r"
  shows "\<not> nf_panics r"
  by (rule ipfix_DataRecords.raw_induct [OF _ assms, where P = "\<lambda>tr t buffer records r. \<not> nf_panics r"])
    (auto split: if_splits sum.splits simp: nf_panics_Inl ipfix_DataRecord_no_panic)

lemma ipfix_OptionsDataRecord_no_panic: "ipfix_OptionsDataRecord_Unmarshal tid sfss fss t buffer \<noteq> Inl (NfPanic pn)"
  using ipfix_OptionsDataRecord_cases [of tid sfss fss t buffer] by fastforce

lemma ipfix_OptionsDataRecords_no_panic:
  assumes "ipfix_OptionsDataRecords otr t buffer records = Some r"
  shows "\<not> nf_panics r"
  by (rule ipfix_OptionsDataRecords.raw_induct [OF _ assms, where P = "\<lambda>otr t buffer records r. \<not> nf_panics r"])
    (auto split: if_splits sum.splits simp: nf_panics_Inl ipfix_OptionsDataRecord_no_panic)

lemma ipfix_FieldSpecifiers_no_panic: "no_panic (ipfix_FieldSpecifiers_Unmarshal n)"
proof -
  have "no_panic ipfix_FieldSpecifier_Unmarshal"
    unfolding ipfix_FieldSpecifier_Unmarshal_def
    by (intro no_panic_bind no_panic_Uint16) (simp add: no_panic_bind no_panic_Uint32 no_panic_return)
  then show ?thesis unfolding ipfix_FieldSpecifiers_Unmarshal_def by (rule no_panic_many)
qed

lemma ipfix_TemplateRecords_no_panic: "\<not> nf_panics (ipfix_TemplateRecords buffer)"
proof (induction buffer rule: ipfix_TemplateRecords.induct)
  case (1 buffer)
  have "no_panic ipfix_TemplateRecord_Unmarshal"
    unfolding ipfix_TemplateRecord_Unmarshal_def
    by (intro no_panic_bind no_panic_Uint16 no_panic_return ipfix_FieldSpecifiers_no_panic)
  then have head: "\<not> nf_panics (ipfix_TemplateRecord_Unmarshal buffer)" by (rule no_panic_not)
  show ?case
  proof (cases "length buffer \<le> 4 \<or> isl (ipfix_TemplateRecord_Unmarshal buffer)")
    case True
    then show ?thesis using head
      by (subst ipfix_TemplateRecords.simps) (auto simp: isl_def nf_panics_Inl)
  next
    case False
    then obtain a b where ab: "ipfix_TemplateRecord_Unmarshal buffer = Inr (a, b)"
      by (cases "ipfix_TemplateRecord_Unmarshal buffer") auto
    with 1 False have "\<not> nf_panics (ipfix_TemplateRecords b)" by blast
    then show ?thesis using False ab
      by (subst ipfix_TemplateRecords.simps) (auto split: sum.splits simp: nf_panics_Inl)
  qed
qed

lemma ipfix_OptionsTemplateRecords_no_panic: "\<not> nf_panics (ipfix_OptionsTemplateRecords buffer)"
proof (induction buffer rule: ipfix_OptionsTemplateRecords.induct)
  case (1 buffer)
  have "no_panic ipfix_OptionsTemplateRecord_Unmarshal"
    unfolding ipfix_OptionsTemplateRecord_Unmarshal_def
    by (intro no_panic_bind no_panic_Uint16)
      (simp add: no_panic_bind no_panic_drain no_panic_return no_panic_fail ipfix_FieldSpecifiers_no_panic)
  then have head: "\<not> nf_panics (ipfix_OptionsTemplateRecord_Unmarshal buffer)" by (rule no_panic_not)
  show ?case
  proof (cases "length buffer \<le> 4 \<or> isl (ipfix_OptionsTemplateRecord_Unmarshal buffer)")
    case True
    then show ?thesis using head
      by (subst ipfix_OptionsTemplateRecords.simps) (auto simp: isl_def nf_panics_Inl)
  next
    case False
    then obtain a b where ab: "ipfix_OptionsTemplateRecord_Unmarshal buffer = Inr (a, b)"
      by (cases "ipfix_OptionsTemplateRecord_Unmarshal buffer") auto
    with 1 False have "\<not> nf_panics (ipfix_OptionsTemplateRecords b)" by blast
    then show ?thesis using False ab
      by (subst ipfix_OptionsTemplateRecords.simps) (auto split: sum.splits simp: nf_panics_Inl)
  qed
qed

section \<open>The loop over the sets\<close>

fun ipfix_empty_template :: "nf_template \<Rightarrow> bool" where
  "ipfix_empty_template (IPFIX_Template tr) = ipfix_sizeless (ipfix_tr_Fields tr)"
| "ipfix_empty_template (IPFIX_Options otr) = ipfix_sizeless (ipfix_otr_ScopeFields otr @ ipfix_otr_Fields otr)"
| "ipfix_empty_template _ = False"

text \<open>The numbers that are not those of data: reserved, templates and options templates.\<close>

definition ipfix_is_data :: "ipfix_SetHeader \<Rightarrow> bool" where
  "ipfix_is_data header \<longleftrightarrow> 255 < ipfix_sh_ID header"

lemma ipfix_Set_None_iff:
  "ipfix_Set t i header data s m = None \<longleftrightarrow> ipfix_is_data header \<and> data \<noteq> [] \<and>
    (\<exists>tm. lookup_template s (ipfix_h_ObservationDomainID (ipfix_Header m)) (ipfix_sh_ID header) = Some tm \<and> ipfix_empty_template tm)"
proof (cases "ipfix_is_data header")
  case True
  let ?ID = "ipfix_sh_ID header"
  have ID: "(?ID < 2) = False" "(?ID = 2) = False" "(?ID = 3) = False" "(4 \<le> ?ID \<and> ?ID \<le> 255) = False"
    using True unfolding ipfix_is_data_def by (auto simp: word_less_nat_alt word_le_nat_alt)
  show ?thesis
    unfolding ipfix_Set_def Let_def ID if_False
    by (auto simp: True ipfix_DataSet_Unmarshal_def ipfix_OptionsDataSet_Unmarshal_def ipfix_DataRecords_None_iff
        ipfix_OptionsDataRecords_None_iff split: option.split nf_template.split)
next
  case False
  let ?ID = "ipfix_sh_ID header"
  have "unat ?ID \<le> 255" using False unfolding ipfix_is_data_def by (simp add: word_less_nat_alt)
  then have "?ID < 2 \<or> ?ID = 2 \<or> ?ID = 3 \<or> (4 \<le> ?ID \<and> ?ID \<le> 255)"
    by (auto simp: word_less_nat_alt word_le_nat_alt word_unat_eq_iff)
  then show ?thesis
    using False by (elim disjE) (simp_all add: ipfix_Set_def Let_def split: sum.split)
qed

lemma ipfix_Set_session:
  assumes "ipfix_Set t i header data s m = Some (s', r)"
  shows "\<exists>ts. s' = register_all (ipfix_h_ObservationDomainID (ipfix_Header m)) ts s"
proof -
  have "s = register_all d [] s" for d by (simp add: register_all_def)
  with assms show ?thesis
    unfolding ipfix_Set_def Let_def by (auto split: if_splits sum.splits option.splits nf_template.splits)
qed

lemma ipfix_Set_Header:
  "ipfix_Set t i header data s m = Some (s', Inr m') \<Longrightarrow> ipfix_Header m' = ipfix_Header m"
  by (auto simp: ipfix_Set_def Let_def go_simps split: if_splits sum.splits option.splits nf_template.splits)

lemma nf_panics_map_sum: "nf_panics (map_sum id f r) = nf_panics r"
  by (cases r) (simp_all add: nf_panics_Inl)

lemma ipfix_Set_no_panic:
  assumes "ipfix_Set t i header data s m = Some (s', r)"
  shows "\<not> nf_panics r"
proof -
  let ?ID = "ipfix_sh_ID header"
  consider (inv) "?ID < 2" | (tmpl) "?ID = 2" | (opts) "?ID = 3" | (reserved) "\<not> ?ID < 2" "?ID \<noteq> 2" "?ID \<noteq> 3" "4 \<le> ?ID \<and> ?ID \<le> 255"
    | (data) "\<not> ?ID < 2" "?ID \<noteq> 2" "?ID \<noteq> 3" "\<not> (4 \<le> ?ID \<and> ?ID \<le> 255)" by blast
  then show ?thesis
  proof cases
    case tmpl
    then show ?thesis using assms ipfix_TemplateRecords_no_panic [of data]
      by (auto simp: ipfix_Set_def ipfix_TemplateSet_UnmarshalRecords_def nf_panics_Inl go_simps split: sum.splits)
  next
    case opts
    then show ?thesis using assms ipfix_OptionsTemplateRecords_no_panic [of data]
      by (auto simp: ipfix_Set_def ipfix_OptionsTemplateSet_UnmarshalRecords_def nf_panics_Inl go_simps split: sum.splits)
  next
    case data
    note S = assms [unfolded ipfix_Set_def Let_def if_not_P [OF data(1)] if_not_P [OF data(2)] if_not_P [OF data(3)]
        if_not_P [OF data(4)]]
    show ?thesis
    proof (cases "lookup_template s (ipfix_h_ObservationDomainID (ipfix_Header m)) ?ID")
      case (Some tm)
      with S show ?thesis
        by (cases tm) (auto simp: ipfix_DataSet_Unmarshal_def ipfix_OptionsDataSet_Unmarshal_def nf_panics_map_sum
            dest: ipfix_DataRecords_no_panic ipfix_OptionsDataRecords_no_panic)
    qed (use S in auto)
  qed (use assms in \<open>auto simp: ipfix_Set_def\<close>)
qed

text \<open>The next set of a message: its header, its body and the bytes after it, when they are there.\<close>

definition ipfix_next_set :: "u8 list \<Rightarrow> (ipfix_SetHeader \<times> u8 list \<times> u8 list) option" where
  "ipfix_next_set buffer =
     (case ipfix_SetHeader_Unmarshal buffer of
        Inl e \<Rightarrow> None
      | Inr (header, rest) \<Rightarrow>
          (let n = nat (uint (ipfix_sh_Length header) - 4) in
           if n = 0 \<or> length rest < n then None else Some (header, take n rest, drop n rest)))"

lemma ipfix_next_set_shorter: "ipfix_next_set buffer = Some (h, data, rest) \<Longrightarrow> length rest < length buffer"
  by (auto simp: ipfix_next_set_def Let_def split: sum.splits if_splits dest!: strictD [OF ipfix_SetHeader_strict])

lemma ipfix_Sets_stop:
  assumes "ipfix_next_set buffer = None"
  shows "\<exists>r. ipfix_Sets t i s m buffer = Some (s, r) \<and> \<not> nf_panics r"
proof (cases "ipfix_SetHeader_Unmarshal buffer")
  case (Inl e)
  have "no_panic ipfix_SetHeader_Unmarshal" unfolding ipfix_SetHeader_Unmarshal_def by (intro no_panic_intros)
  from no_panicD [OF this, of buffer] Inl have "\<not> nf_panics (Inl e :: nf_error + ipfix_Message)"
    by (simp add: nf_panics_Inl)
  then show ?thesis using Inl by (simp add: ipfix_Sets.simps [of t i s m buffer])
next
  case (Inr x)
  with assms show ?thesis
    by (cases x) (auto simp: ipfix_next_set_def ipfix_Sets.simps [of t i s m buffer] Let_def split: if_splits)
qed

lemma ipfix_Sets_turn:
  assumes "ipfix_next_set buffer = Some (header, data, rest)"
  shows "ipfix_Sets t i s m buffer = Option.bind (ipfix_Set t i header data s m) (\<lambda>(s', r).
        case r of Inl e \<Rightarrow> Some (s', Inl e) | Inr m' \<Rightarrow> ipfix_Sets t (Suc i) s' m' rest)"
proof -
  have "buffer \<noteq> []" using ipfix_next_set_shorter [OF assms] by auto
  then show ?thesis
    using assms by (cases "ipfix_Set t i header data s m")
      (auto simp: ipfix_next_set_def ipfix_Sets.simps [of t i s m buffer] Let_def split: sum.splits if_splits)
qed

interpretation ipfix_sets: set_loop "\<lambda>u::unit. ipfix_Sets t" Some ipfix_next_set "ipfix_Set t"
    "\<lambda>m. ipfix_h_ObservationDomainID (ipfix_Header m)" for t
  by unfold_locales
    (simp_all add: ipfix_Sets_stop ipfix_Sets_turn ipfix_next_set_shorter ipfix_Set_session ipfix_Set_Header ipfix_Set_no_panic)

section \<open>Properties\<close>

text \<open>The states that the loop over the sets of a message passes through: the number of the next set,
  the session, the message so far and the bytes that are left of the length in the header.\<close>

definition ipfix_reaches ::
    "informationElements \<Rightarrow> nf_session option \<Rightarrow> informationElements option \<Rightarrow> u8 list \<Rightarrow>
     (unit, ipfix_Message) set_state \<Rightarrow> bool" where
  "ipfix_reaches builtin s t0 bs st \<longleftrightarrow>
     (\<exists>h rest. ipfix_MessageHeader_Unmarshal bs = Inr (h, rest) \<and> ipfix_h_Version h = 10 \<and>
       (let n = nat (uint (ipfix_h_Length h) - 16) in 0 < n \<and> n \<le> length rest \<and>
       (set_step Some ipfix_next_set
          (ipfix_Set (case t0 of Some e \<Rightarrow> Some e | None \<Rightarrow> (case s of Some _ \<Rightarrow> Some builtin | None \<Rightarrow> None))))\<^sup>*\<^sup>*
         ((), 0, s, \<lparr>ipfix_Header = h, ipfix_TemplateSets = [], ipfix_OptionsTemplateSets = [],
            ipfix_DataSets = [], ipfix_OptionsDataSets = []\<rparr>, take n rest) st))"

text \<open>
  C9: the IPFIX decoder does not return if and only if, after the sets before it have been
  decoded without an error and have left a session, it comes to a data set whose number is that of a
  template in this session, under the observation domain of the message, whose fields all have
  length zero (none at all, for instance).
\<close>

theorem ipfix_hangs_iff_empty_template:
  "ipfix_Read elements s t bs = None \<longleftrightarrow>
    (\<exists>i s1 m1 buffer header data rest tm. ipfix_reaches elements s t bs ((), i, s1, m1, buffer) \<and>
       ipfix_next_set buffer = Some (header, data, rest) \<and> ipfix_is_data header \<and> data \<noteq> [] \<and>
       lookup_template s1 (ipfix_h_ObservationDomainID (ipfix_Header m1)) (ipfix_sh_ID header) = Some tm \<and>
       ipfix_empty_template tm)"
proof -
  let ?t = "case t of Some e \<Rightarrow> Some e | None \<Rightarrow> (case s of Some _ \<Rightarrow> Some elements | None \<Rightarrow> None)"
  let ?m = "\<lambda>h. \<lparr>ipfix_Header = h, ipfix_TemplateSets = [], ipfix_OptionsTemplateSets = [],
    ipfix_DataSets = [], ipfix_OptionsDataSets = []\<rparr>"

  have "ipfix_Read elements s t bs = None \<longleftrightarrow> (\<exists>h rest. ipfix_MessageHeader_Unmarshal bs = Inr (h, rest) \<and> ipfix_h_Version h = 10 \<and>
      0 < nat (uint (ipfix_h_Length h) - 16) \<and> nat (uint (ipfix_h_Length h) - 16) \<le> length rest \<and>
      ipfix_Sets ?t 0 s (?m h) (take (nat (uint (ipfix_h_Length h) - 16)) rest) = None)"
    by (auto simp: ipfix_Read_def ipfix_UnmarshalSets_def Let_def io_ReadFull_def word_less_def split: sum.splits if_splits)
  then show ?thesis
    unfolding ipfix_sets.loop_None_iff [where k = "()", simplified] ipfix_Set_None_iff ipfix_reaches_def Let_def by blast
qed

definition ipfix_hanging_message :: "u8 list" where
  "ipfix_hanging_message = [0, 10, 0, 33] @ replicate 12 0 @ [0, 2, 0, 9, 1, 0, 0, 0, 0] @ [1, 0, 0, 8, 0, 0, 0, 0]"

lemma ipfix_hanging_message_hangs: "ipfix_Read elements (Some session_New) None ipfix_hanging_message = None"
proof -
  let ?tr = "\<lparr>ipfix_tr_TemplateID = 256, ipfix_tr_FieldCount = 0, ipfix_tr_Fields = []\<rparr>"
  have templates: "ipfix_TemplateRecords [1, 0, 0, 0, 0] = Inr [?tr]"
    by code_simp
  have stuck: "ipfix_DataRecords ?tr t [0, 0, 0, 0] [] = None" for t
    by (simp add: ipfix_DataRecords_None_iff ipfix_sizeless_def)
  have head: "ipfix_MessageHeader_Unmarshal ipfix_hanging_message =
     Inr (\<lparr>ipfix_h_Version = 10, ipfix_h_Length = 33, ipfix_h_ExportTime = 0,
       ipfix_h_SequenceNumber = 0, ipfix_h_ObservationDomainID = 0\<rparr>, [0, 2, 0, 9, 1, 0, 0, 0, 0, 1, 0, 0, 8, 0, 0, 0, 0])"
    by code_simp
  have set1: "ipfix_SetHeader_Unmarshal [0, 2, 0, 9, 1, 0, 0, 0, 0, 1, 0, 0, 8, 0, 0, 0, 0] =
     Inr (\<lparr>ipfix_sh_ID = 2, ipfix_sh_Length = 9\<rparr>, [1, 0, 0, 0, 0, 1, 0, 0, 8, 0, 0, 0, 0])"
    by code_simp
  have set2: "ipfix_SetHeader_Unmarshal [1, 0, 0, 8, 0, 0, 0, 0] =
     Inr (\<lparr>ipfix_sh_ID = 256, ipfix_sh_Length = 8\<rparr>, [0, 0, 0, 0])"
    by code_simp
  show ?thesis
    by (simp add: ipfix_Read_def head ipfix_UnmarshalSets_def ipfix_Sets.simps set1 set2
        io_ReadFull_def ipfix_Set_def ipfix_TemplateSet_UnmarshalRecords_def templates register_all_Some
        lookup_template_def GetTemplate_def AddTemplate_def ipfix_DataSet_Unmarshal_def stuck)
qed

text \<open>No bytes, and no session, make the decoder panic.\<close>

lemma ipfix_Read_no_panic: "ipfix_Read elements s t bs \<noteq> Some (s', Inl (NfPanic pn))"
proof -
  have "no_panic ipfix_MessageHeader_Unmarshal"
    unfolding ipfix_MessageHeader_Unmarshal_def by (intro no_panic_bind no_panic_wrap no_panic_return) simp_all
  from no_panicD [OF this, of bs] show ?thesis
    by (auto simp: ipfix_Read_def ipfix_UnmarshalSets_def Let_def split: sum.splits if_splits dest: ipfix_sets.loop_no_panic)
qed

text \<open>
  Decoding an IPFIX message, successfully or not, changes the templates of no other
  observation domain than the one its header names.
\<close>

theorem ipfix_domains_isolated:
  assumes "ipfix_Read elements s t bs = Some (s', r)"
    and "\<And>h rest. ipfix_MessageHeader_Unmarshal bs = Inr (h, rest) \<Longrightarrow> d \<noteq> ipfix_h_ObservationDomainID h"
  shows "lookup_template s' d k = lookup_template s d k"
proof (cases "ipfix_MessageHeader_Unmarshal bs")
  case (Inl e)
  then show ?thesis using assms(1) by (simp add: ipfix_Read_def)
next
  case (Inr x)
  obtain h rest where x: "x = (h, rest)" by (cases x)
  then have "d \<noteq> ipfix_h_ObservationDomainID h" using assms(2) Inr by blast
  with assms(1) Inr x show ?thesis
    by (auto simp: ipfix_Read_def ipfix_UnmarshalSets_def Let_def split: if_splits sum.splits dest: ipfix_sets.loop_isolated)
qed

definition ipfix_template_message :: "u8 list" where
  "ipfix_template_message = [0, 10, 0, 28] @ replicate 11 0 @ [7] @ [0, 2, 0, 12, 1, 0, 0, 1, 0, 1, 0, 4]"

theorem ipfix_domains_isolated_witness:
  "\<exists>s' r. ipfix_Read Map.empty (Some session_New) None ipfix_template_message = Some (s', r) \<and>
     lookup_template s' 8 256 = None"
proof -
  have "ipfix_Read Map.empty (Some session_New) None ipfix_template_message \<noteq> None"
    by code_simp
  then obtain s' r where 1: "ipfix_Read Map.empty (Some session_New) None ipfix_template_message = Some (s', r)"
    by auto
  have "map_sum id (\<lambda>x. ipfix_h_ObservationDomainID (fst x)) (ipfix_MessageHeader_Unmarshal ipfix_template_message) = Inr 7"
    by code_simp
  then have 2: "ipfix_MessageHeader_Unmarshal ipfix_template_message = Inr (h, rest) \<Longrightarrow>
      8 \<noteq> ipfix_h_ObservationDomainID h" for h rest
    by auto
  show ?thesis using 1 ipfix_domains_isolated [OF 1 2]
    by (auto simp: lookup_template_def GetTemplate_def session_New_def)
qed

section \<open>Data records: the round trip\<close>

text \<open>The wire form of a field: a variable-length field is preceded by its length, in one byte below
  255 and in three otherwise.\<close>

definition ipfix_encode_field :: "ipfix_FieldSpecifier \<Rightarrow> u8 list \<Rightarrow> u8 list" where
  "ipfix_encode_field fs b =
     (if ipfix_fs_Length fs \<noteq> VariableLength then b
      else if length b < 255 then of_nat (length b) # b
      else 255 # be_put 2 (of_nat (length b) :: u16) @ b)"

definition ipfix_field_fits :: "ipfix_FieldSpecifier \<Rightarrow> u8 list \<Rightarrow> bool" where
  "ipfix_field_fits fs b \<longleftrightarrow>
     (if ipfix_fs_Length fs = VariableLength then length b < 65536 else length b = unat (ipfix_fs_Length fs))"

definition ipfix_field_of :: "informationElements option \<Rightarrow> ipfix_FieldSpecifier \<Rightarrow> u8 list \<Rightarrow> ipfix_Field" where
  "ipfix_field_of t fs b = \<lparr>ipfix_f_Bytes = b,
     ipfix_f_Translated = map_option (\<lambda>elements.
       case Translate_Key elements (ipfix_fs_EnterpriseNumber fs) (ipfix_fs_InformationElementID fs) of
         None \<Rightarrow> \<lparr>ipfix_tf_Name = [], ipfix_tf_InformationElementID = ipfix_fs_InformationElementID fs,
           ipfix_tf_EnterpriseNumber = ipfix_fs_EnterpriseNumber fs, ipfix_tf_Value = TNil\<rparr>
       | Some element \<Rightarrow> \<lparr>ipfix_tf_Name = iee_Name element,
           ipfix_tf_InformationElementID = ipfix_fs_InformationElementID fs,
           ipfix_tf_EnterpriseNumber = ipfix_fs_EnterpriseNumber fs,
           ipfix_tf_Value = projr (translate_Bytes b (iee_Type element))\<rparr>) t\<rparr>"

definition ipfix_record_of :: "informationElements option \<Rightarrow> ipfix_TemplateRecord \<Rightarrow> u8 list list \<Rightarrow> ipfix_DataRecord" where
  "ipfix_record_of t tr bss = \<lparr>ipfix_dr_TemplateID = ipfix_tr_TemplateID tr,
     ipfix_dr_Fields = map2 (ipfix_field_of t) (ipfix_tr_Fields tr) bss\<rparr>"

definition ipfix_encode_record :: "ipfix_TemplateRecord \<Rightarrow> u8 list list \<Rightarrow> u8 list" where
  "ipfix_encode_record tr bss = concat (map2 ipfix_encode_field (ipfix_tr_Fields tr) bss)"

lemma read_VariableLength_short: "length b < 255 \<Longrightarrow> read_VariableLength (of_nat (length b) # b @ rest) = Inr (b, rest)"
  by (simp add: read_VariableLength_def rd_bind_def read_Uint8_put word_less_nat_alt unat_of_nat take_bit_nat_eq_self
      buffer_Read_append)

lemma read_VariableLength_long:
  "length b < 65536 \<Longrightarrow> read_VariableLength (255 # be_put 2 (of_nat (length b) :: u16) @ b @ rest) = Inr (b, rest)"
  by (simp add: read_VariableLength_def rd_bind_def read_Uint8_put read_Uint16_put unat_of_nat take_bit_nat_eq_self
      buffer_Read_append)

lemma ipfix_Field_append:
  assumes "ipfix_field_fits fs b"
  shows "ipfix_Field_Unmarshal fs (ipfix_encode_field fs b @ rest) = Inr (ipfix_field_of None fs b, rest)"
  using assms read_VariableLength_short read_VariableLength_long
  by (auto simp: ipfix_Field_Unmarshal_def ipfix_encode_field_def ipfix_field_fits_def ipfix_field_of_def
      rd_bind_def buffer_Read_append)

lemma ipfix_fields_append:
  "list_all2 ipfix_field_fits fss bss \<Longrightarrow>
     ipfix_fields fss (concat (map2 ipfix_encode_field fss bss) @ rest) = Inr (map2 (ipfix_field_of None) fss bss, rest)"
  by (induction rule: list_all2_induct) (simp_all add: rd_bind_def ipfix_Field_append)

lemma ipfix_translate_field_of:
  "ipfix_translate_field elements fs (ipfix_field_of None fs b) = Inr (ipfix_field_of (Some elements) fs b)"
proof (cases "Translate_Key elements (ipfix_fs_EnterpriseNumber fs) (ipfix_fs_InformationElementID fs)")
  case (Some element)
  then show ?thesis using translate_Bytes_total [of b "iee_Type element"]
    by (auto simp: ipfix_translate_field_def ipfix_field_of_def)
qed (simp add: ipfix_translate_field_def ipfix_field_of_def)

lemma ipfix_Translate_Record_map2:
  "list_all2 ipfix_field_fits fss bss \<Longrightarrow>
   ipfix_Translate_Record elements (map2 (ipfix_field_of None) fss bss) fss =
     Inr (map2 (ipfix_field_of (Some elements)) fss bss)"
  by (induction rule: list_all2_induct) (simp_all add: ipfix_translate_field_of)

lemma ipfix_DataRecord_append:
  assumes "list_all2 ipfix_field_fits (ipfix_tr_Fields tr) bss"
  shows "ipfix_DataRecord_Unmarshal (ipfix_tr_TemplateID tr) (ipfix_tr_Fields tr) t (ipfix_encode_record tr bss @ rest) =
    Inr (ipfix_record_of t tr bss, rest)"
  using ipfix_fields_append [OF assms, of rest] ipfix_Translate_Record_map2 [OF assms]
  by (cases t) (auto simp: ipfix_DataRecord_Unmarshal_def ipfix_record_of_def ipfix_encode_record_def rd_bind_def)

text \<open>Padding that is too short to reach the last field of a template of fixed lengths.\<close>

definition ipfix_padding_ok :: "ipfix_FieldSpecifier list \<Rightarrow> u8 list \<Rightarrow> bool" where
  "ipfix_padding_ok fss pad \<longleftrightarrow> pad = [] \<or>
     (fss \<noteq> [] \<and> ipfix_fs_Length (last fss) \<noteq> 0 \<and> (\<forall>fs \<in> set fss. ipfix_fs_Length fs \<noteq> VariableLength) \<and>
      length pad \<le> sum_list (map (\<lambda>fs. unat (ipfix_fs_Length fs)) (butlast fss)))"

lemma ipfix_fields_padding:
  assumes "fss \<noteq> []" "ipfix_fs_Length (last fss) \<noteq> 0" "\<forall>fs \<in> set fss. ipfix_fs_Length fs \<noteq> VariableLength"
    "length pad \<le> sum_list (map (\<lambda>fs. unat (ipfix_fs_Length fs)) (butlast fss))"
  shows "ipfix_fields fss pad = Inl IoEOF"
  using assms
proof (induction fss arbitrary: pad)
  case (Cons fs fss)
  show ?case
  proof (cases fss)
    case Nil
    then show ?thesis using Cons.prems
      by (simp add: rd_bind_def ipfix_Field_Unmarshal_def buffer_Read_def unat_eq_zero)
  next
    case more: (Cons fs' fss')
    have IH: "ipfix_fields fss (drop (unat (ipfix_fs_Length fs)) pad) = Inl IoEOF"
      using more Cons.prems by (intro Cons.IH) auto
    show ?thesis
      using Cons.prems IH
      by (cases "pad = []") (auto simp: rd_bind_def ipfix_Field_Unmarshal_def buffer_Read_def)
  qed
qed simp

lemma ipfix_DataRecords_append:
  assumes "\<forall>bss \<in> set rss. list_all2 ipfix_field_fits (ipfix_tr_Fields tr) bss \<and> ipfix_encode_record tr bss \<noteq> []"
    "ipfix_padding_ok (ipfix_tr_Fields tr) pad"
  shows "ipfix_DataRecords tr t (concat (map (ipfix_encode_record tr) rss) @ pad) acc =
    Some (Inr (acc @ map (ipfix_record_of t tr) rss))"
  using assms(1)
proof (induction rss arbitrary: acc)
  case Nil
  have "ipfix_DataRecord_Unmarshal (ipfix_tr_TemplateID tr) (ipfix_tr_Fields tr) t pad = Inl IoEOF" if "pad \<noteq> []"
    using that assms(2) ipfix_fields_padding
    by (simp add: ipfix_DataRecord_Unmarshal_def rd_bind_def ipfix_padding_ok_def)
  then show ?case by (subst ipfix_DataRecords.simps) auto
next
  case (Cons bss rss)
  then have "ipfix_DataRecord_Unmarshal (ipfix_tr_TemplateID tr) (ipfix_tr_Fields tr) t
      (ipfix_encode_record tr bss @ concat (map (ipfix_encode_record tr) rss) @ pad) =
      Inr (ipfix_record_of t tr bss, concat (map (ipfix_encode_record tr) rss) @ pad)"
    using ipfix_DataRecord_append by simp
  then show ?case using Cons by (subst ipfix_DataRecords.simps) auto
qed

text \<open>
  C26: a data set made of any number of records, each with the bytes of every field of the
  template at its fixed or variable length (in the short or the long form), decodes to exactly
  these records, in order, every field with its bytes and with the value its information element
  gives them; padding is ignored when it is too short to reach the last field.
\<close>

theorem ipfix_data_roundtrip:
  assumes "\<forall>bss \<in> set rss. list_all2 ipfix_field_fits (ipfix_tr_Fields tr) bss \<and> ipfix_encode_record tr bss \<noteq> []"
    "ipfix_padding_ok (ipfix_tr_Fields tr) pad"
  shows "ipfix_DataSet_Unmarshal header tr t (concat (map (ipfix_encode_record tr) rss) @ pad) =
    Some (Inr \<lparr>ipfix_ds_Header = header, ipfix_ds_Records = map (ipfix_record_of t tr) rss\<rparr>)"
  using ipfix_DataRecords_append [OF assms, of t "[]"] by (simp add: ipfix_DataSet_Unmarshal_def)

definition variable_template :: ipfix_TemplateRecord where
  "variable_template = \<lparr>ipfix_tr_TemplateID = 256, ipfix_tr_FieldCount = 2, ipfix_tr_Fields =
     [\<lparr>ipfix_fs_InformationElementID = 82, ipfix_fs_Length = 65535, ipfix_fs_EnterpriseNumber = 0,
        ipfix_fs_EnterpriseBitSet = False\<rparr>,
      \<lparr>ipfix_fs_InformationElementID = 4, ipfix_fs_Length = 1, ipfix_fs_EnterpriseNumber = 0,
        ipfix_fs_EnterpriseBitSet = False\<rparr>]\<rparr>"

theorem ipfix_data_roundtrip_witness:
  "\<exists>ds. ipfix_DataSet_Unmarshal \<lparr>ipfix_sh_ID = 256, ipfix_sh_Length = 12\<rparr> variable_template None
     (concat (map (ipfix_encode_record variable_template) [[[101, 116, 104], [6]], [[], [17]]]) @ []) = Some (Inr ds) \<and>
   map (\<lambda>dr. map ipfix_f_Bytes (ipfix_dr_Fields dr)) (ipfix_ds_Records ds) = [[[101, 116, 104], [6]], [[], [17]]]"
  by (subst ipfix_data_roundtrip)
    (simp_all add: ipfix_field_fits_def ipfix_encode_record_def ipfix_encode_field_def ipfix_padding_ok_def
      ipfix_record_of_def ipfix_field_of_def variable_template_def VariableLength_def)

text \<open>
  With a template of one fixed-length field, padding at the end of a data set is decoded as
  one more record, its missing bytes read as zero.
\<close>

theorem ipfix_padding_becomes_record:
  "\<exists>ds. ipfix_DataSet_Unmarshal \<lparr>ipfix_sh_ID = 256, ipfix_sh_Length = 9\<rparr>
     \<lparr>ipfix_tr_TemplateID = 256, ipfix_tr_FieldCount = 1, ipfix_tr_Fields =
        [\<lparr>ipfix_fs_InformationElementID = 10, ipfix_fs_Length = 4, ipfix_fs_EnterpriseNumber = 0,
           ipfix_fs_EnterpriseBitSet = False\<rparr>]\<rparr> None [1, 2, 3, 4, 0] = Some (Inr ds) \<and>
   map (\<lambda>dr. map ipfix_f_Bytes (ipfix_dr_Fields dr)) (ipfix_ds_Records ds) = [[[1, 2, 3, 4]], [[0, 0, 0, 0]]]"
  by (simp add: ipfix_DataSet_Unmarshal_def ipfix_DataRecords.simps ipfix_DataRecord_Unmarshal_def rd_bind_def
      ipfix_Field_Unmarshal_def VariableLength_def buffer_Read_def numeral_3_eq_3)

text \<open>
  Reading an options template takes the rest of its set with it, so of the options templates
  of a set at most the first is decoded, and the others are never registered.
\<close>

theorem ipfix_one_options_template_per_set:
  "case ipfix_OptionsTemplateRecords body of Inl e \<Rightarrow> True | Inr rs \<Rightarrow> length rs \<le> 1"
proof (cases "length body \<le> 4")
  case True
  then show ?thesis by (simp add: ipfix_OptionsTemplateRecords.simps [of body])
next
  case False
  have "ipfix_OptionsTemplateRecords [] = Inr []" by (simp add: ipfix_OptionsTemplateRecords.simps)
  then show ?thesis using False ipfix_OptionsTemplateRecord_drains [of body]
    by (subst ipfix_OptionsTemplateRecords.simps) (auto split: sum.splits)
qed

end
