(* ===== verification/Nf_Elements.thy ===== *)
theory Nf_Elements
  imports Nf_Translate
begin

text \<open>
  The builtin dictionary of information elements, \<open>builtin\<close> of
  \<open>pkg/util/netflow/translate/translate.go\<close>, as the \<open>init\<close> functions of the package fill it: one
  list per file in the order of its assignments, the files in the order of their names (the order
  in which the Go tool passes them), and the reverse elements of RFC 5103 that \<open>rfc5102.go\<close>
  derives at the end of its \<open>init\<close>.
\<close>

section \<open>The tables\<close>

text \<open>\<open>builtin[Key{e, i}] = InformationElementEntry{FieldID: f, Name: n, Type: FieldTypes[t]}\<close>\<close>

type_synonym element = "element_key \<times> InformationElementEntry"

definition row :: "u32 \<Rightarrow> u16 \<Rightarrow> u16 \<Rightarrow> string \<Rightarrow> string \<Rightarrow> element" where
  "row e i f n t = ((e, i), \<lparr>iee_Name = n, iee_FieldID = f, iee_EnterpriseID = 0, iee_Type = FieldTypes t\<rparr>)"

definition elements_a10 :: "element list" where
  "elements_a10 = [
    row 40842 258 258 ''a10Mystery258'' ''unsigned16'',
    row 40842 259 259 ''a10Mystery259'' ''unsigned16'']"

definition elements_cert :: "element list" where
  "elements_cert = [
    row 6871 14 14 ''initialTCPFlags'' ''unsigned8'',
    row 6871 15 15 ''unionTCPFlags'' ''unsigned8'',
    row 6871 21 21 ''reverseFlowDeltaMilliseconds'' ''dateTimeMilliseconds'',
    row 6871 22 22 ''silkTCPState'' ''unsigned8'',
    row 6871 30 30 ''silkFlowType'' ''unsigned8'',
    row 6871 31 31 ''silkFlowSensor'' ''unsigned8'',
    row 6871 33 33 ''silkAppLabel'' ''unsigned8'',
    row 6871 40 40 ''flowAttributes'' ''unsigned16'']"

definition elements_cisco_1 :: "element list" where
  "elements_cisco_1 = [
    row 0 33000 33002 ''firewallIngressACL'' ''octetArray'',
    row 0 33001 33002 ''firewallEgressACL'' ''octetArray'',
    row 0 33002 33002 ''firewallExtendedEventCode'' ''unsigned16'',
    row 0 40000 40000 ''firewallAAAUsername'' ''string'',
    row 0 35001 35001 ''extendedEventCode'' ''unsigned16'',
    row 9 8232 8232 ''PolicyQosClassificationHierarchy'' ''unsigned24'',
    row 9 9252 9252 ''waas optimizationSegment'' ''unsigned8'',
    row 9 9265 9265 ''artClient packets'' ''unsigned64'',
    row 9 9266 9266 ''artServer packets'' ''unsigned64'',
    row 9 9268 9268 ''artCountRetransmissions '' ''unsigned32'',
    row 9 9272 9272 ''artCountTransactions '' ''unsigned32'',
    row 9 9273 9273 ''artTotalTransactionTimeSum '' ''unsigned32'',
    row 9 9274 9274 ''artTotalTransactionTimeMaximum '' ''unsigned32'',
    row 9 9275 9275 ''artTotalTransactionTimeMinimum '' ''unsigned32'',
    row 9 9282 9282 ''artCountNewConnections '' ''unsigned32'',
    row 9 9292 9292 ''artCountResponses '' ''unsigned32'',
    row 9 9293 9293 ''artCountResponsesHistogramBucket1 '' ''unsigned32'',
    row 9 9294 9294 ''artCountResponsesHistogramBucket2 '' ''unsigned32'',
    row 9 9295 9295 ''artCountResponsesHistogramBucket3 '' ''unsigned32'',
    row 9 9296 9296 ''artCountResponsesHistogramBucket4 '' ''unsigned32'',
    row 9 9297 9297 ''artCountResponsesHistogramBucket5 '' ''unsigned32'',
    row 9 9298 9298 ''artCountResponsesHistogramBucket6 '' ''unsigned32'',
    row 9 9299 9299 ''artCountResponsesHistogramBucket7 '' ''unsigned32'',
    row 9 9300 9300 ''artCountLateResponses '' ''unsigned32'',
    row 9 9303 9303 ''artResponseTimeSum '' ''unsigned32'',
    row 9 9304 9304 ''artResponseTimeMaximum '' ''unsigned32'',
    row 9 9305 9305 ''artResponseTimeMinimum '' ''unsigned32'',
    row 9 9306 9306 ''artServerResponseTimeSum '' ''unsigned32'',
    row 9 9307 9307 ''artServerResponseTimeMaximum '' ''unsigned32'',
    row 9 9308 9308 ''artServerResponseTimeMinimum '' ''unsigned32'',
    row 9 9309 9309 ''artTotalResponseTimeSum '' ''unsigned32'',
    row 9 9310 9310 ''artTotalResponseTimeMaximum '' ''unsigned32'',
    row 9 9311 9311 ''artTotalResponseTimeMinimum '' ''unsigned32'',
    row 9 9313 9313 ''artNetworkTimeSum '' ''unsigned32'',
    row 9 9314 9314 ''artNetworkTimeMaximum '' ''unsigned32'',
    row 9 9315 9315 ''artNetworkTimeMinimum '' ''unsigned32'',
    row 9 9316 9316 ''artClientNetworkTimeSum '' ''unsigned32'',
    row 9 9317 9317 ''artClientNetworkTimeMaximum '' ''unsigned32'',
    row 9 9318 9318 ''artClientNetworkTimeMinimum '' ''unsigned32'',
    row 9 9319 9319 ''artServerNetworkTimeSum '' ''unsigned32'',
    row 9 9320 9320 ''artServerNetworkTimeMaximum '' ''unsigned32'',
    row 9 9321 9321 ''artServerNetworkTimeMinimum '' ''unsigned32'',
    row 9 9357 9357 ''applicationHttpUriStatistics'' ''octetArray'',
    row 9 9360 9360 ''PolicyQosQueue index'' ''unsigned32'',
    row 9 9360 9360 ''PolicyQosQueue INDEX'' ''unsigned32'',
    row 9 9361 9361 ''PolicyQosQueue drops'' ''unsigned64'',
    row 9 12232 12230 ''applicationFamilyName'' ''string'',
    row 9 12232 12231 ''applicationSetName'' ''string'',
    row 9 12232 12232 ''applicationCategoryName'' ''string'',
    row 9 12233 12233 ''applicationSubCategoryName'' ''string'',
    row 9 12234 12234 ''applicationGroupName'' ''string'',
    row 9 12235 12235 ''applicationHttpUser-agent'' ''octetArray'',
    row 9 12243 12243 ''applicationTraffic-class'' ''string'',
    row 9 12244 12244 ''applicationBusiness-relevance'' ''string'',
    row 9 32733 32733 ''timestampAbsoluteMonitoring-interval'' ''unsigned64'',
    row 5951 128 128 ''netscalerRoundTripTime'' ''unsigned32'',
    row 5951 129 129 ''netscalerTransactionId'' ''unsigned32'',
    row 5951 130 130 ''netscalerHttpReqUrl'' ''string'',
    row 5951 131 131 ''netscalerHttpReqCookie'' ''string'',
    row 5951 132 132 ''netscalerFlowFlags'' ''unsigned64'',
    row 5951 133 133 ''netscalerConnectionId'' ''unsigned32'',
    row 5951 134 134 ''netscalerSyslogPriority'' ''unsigned8'',
    row 5951 135 135 ''netscalerSyslogMessage'' ''string'',
    row 5951 136 136 ''netscalerSyslogTimestamp'' ''unsigned64'',
    row 5951 140 140 ''netscalerHttpReqReferer'' ''string'',
    row 5951 141 141 ''netscalerHttpReqMethod'' ''string'',
    row 5951 142 142 ''netscalerHttpReqHost'' ''string'',
    row 5951 143 143 ''netscalerHttpReqUserAgent'' ''string'',
    row 5951 144 144 ''netscalerHttpRspStatus'' ''unsigned16'',
    row 5951 145 145 ''netscalerHttpRspLen'' ''unsigned64'',
    row 5951 146 146 ''netscalerServerTTFB'' ''unsigned64'',
    row 5951 147 147 ''netscalerServerTTLB'' ''unsigned64'',
    row 5951 150 150 ''netscalerAppNameIncarnationNumber'' ''unsigned32'',
    row 5951 151 151 ''netscalerAppNameAppId'' ''unsigned32'',
    row 5951 152 152 ''netscalerAppName'' ''string'',
    row 5951 153 153 ''netscalerHttpReqRcvFB'' ''unsigned64'',
    row 5951 156 156 ''netscalerHttpReqForwFB'' ''unsigned64'',
    row 5951 157 157 ''netscalerHttpResRcvFB'' ''unsigned64'',
    row 5951 158 158 ''netscalerHttpResForwFB'' ''unsigned64'',
    row 5951 159 159 ''netscalerHttpReqRcvLB'' ''unsigned64'',
    row 5951 160 160 ''netscalerHttpReqForwLB'' ''unsigned64'',
    row 5951 161 161 ''netscalerMainPageId'' ''unsigned32'',
    row 5951 162 162 ''netscalerMainPageCoreId'' ''unsigned32'',
    row 5951 163 163 ''netscalerHttpClientInteractionStartTime'' ''string'',
    row 5951 164 164 ''netscalerHttpClientRenderEndTime'' ''string'',
    row 5951 165 165 ''netscalerHttpClientRenderStartTime'' ''string'',
    row 5951 167 167 ''netscalerAppTemplateName'' ''string'',
    row 5951 168 168 ''netscalerHttpClientInteractionEndTime'' ''string'',
    row 5951 169 169 ''netscalerHttpResRcvLB'' ''unsigned64'',
    row 5951 170 170 ''netscalerHttpResForwLB'' ''unsigned64'',
    row 5951 171 171 ''netscalerAppUnitNameAppId'' ''unsigned32'',
    row 5951 172 172 ''netscalerDbLoginFlags'' ''unsigned32'',
    row 5951 173 173 ''netscalerDbReqType'' ''unsigned8'',
    row 5951 174 174 ''netscalerDbProtocolName'' ''unsigned8'',
    row 5951 175 175 ''netscalerDbUserName'' ''string'',
    row 5951 176 176 ''netscalerDbDatabaseName'' ''string'',
    row 5951 177 177 ''netscalerDbCltHostName'' ''string'',
    row 5951 178 178 ''netscalerDbReqString'' ''string'',
    row 5951 179 179 ''netscalerDbRespStatusString'' ''string'',
    row 5951 180 180 ''netscalerDbRespStatus'' ''unsigned64'',
    row 5951 181 181 ''netscalerDbRespLength'' ''unsigned64'',
    row 5951 182 182 ''netscalerClientRTT'' ''unsigned32'',
    row 5951 183 183 ''netscalerHttpContentType'' ''string'',
    row 5951 185 185 ''netscalerHttpReqAuthorization'' ''string'',
    row 5951 186 186 ''netscalerHttpReqVia'' ''string'',
    row 5951 187 187 ''netscalerHttpResLocation'' ''string'',
    row 5951 188 188 ''netscalerHttpResSetCookie'' ''string'',
    row 5951 189 189 ''netscalerHttpResSetCookie2'' ''string'',
    row 5951 190 190 ''netscalerHttpReqXForwardedFor'' ''string'',
    row 5951 192 192 ''netscalerConnectionChainID'' ''octetarray'',
    row 5951 193 193 ''netscalerConnectionChainHopCount'' ''unsigned64'',
    row 5951 200 200 ''netscalerICASessionGuid'' ''octetarray'',
    row 5951 201 201 ''netscaleIcaClientVersion'' ''string'',
    row 5951 202 202 ''netscalerIcaClientType'' ''unsigned16'',
    row 5951 203 203 ''netscalerIcaClientIP'' ''ip4_addr'',
    row 5951 204 204 ''netscalerIcaClientHostName'' ''string'',
    row 5951 205 205 ''netscalerAaaUsername'' ''string'',
    row 5951 207 207 ''netscalerIcaDomainName'' ''string'',
    row 5951 208 208 ''netscalerIcaClientLauncher'' ''unsigned16'',
    row 5951 209 209 ''netscalerIcaSessionSetupTime'' ''unsigned32'',
    row 5951 210 210 ''netscalerIcaServerName'' ''string'',
    row 5951 214 214 ''netscalerIcaSessionReconnects'' ''unsigned8'',
    row 5951 215 215 ''netscalerIcaRTT'' ''unsigned32'',
    row 5951 216 216 ''netscalerIcaClientsideRXBytes'' ''unsigned32'',
    row 5951 217 217 ''netscalerIcaClientsideTXBytes'' ''unsigned32'',
    row 5951 219 219 ''netscalerIcaClientsidePacketsRetransmit'' ''unsigned16'',
    row 5951 220 220 ''netscalerIcaServersidePacketsRetransmit'' ''unsigned16'',
    row 5951 221 221 ''netscalerIcaClientsideRTT'' ''unsigned32'',
    row 5951 222 222 ''netscalerIcaServersideRTT'' ''unsigned32'',
    row 5951 223 223 ''netscalerIcaSessionUpdateBeginSec'' ''unsigned32'',
    row 5951 224 224 ''netscalerIcaSessionUpdateEndSec'' ''unsigned32'',
    row 5951 225 225 ''netscalerIcaChannelId1'' ''unsigned32'',
    row 5951 226 226 ''netscalerIcaChannelId1Bytes'' ''unsigned32'',
    row 5951 227 227 ''netscalerIcaChannelId2'' ''unsigned32'',
    row 5951 228 228 ''netscalerIcaChannelId2Bytes'' ''unsigned32'',
    row 5951 229 229 ''netscalerIcaChannelId3'' ''unsigned32'',
    row 5951 230 230 ''netscalerIcaChannelId3Bytes'' ''unsigned32'',
    row 5951 231 231 ''netscalerIcaChannelId4'' ''unsigned32'']"

definition elements_cisco_2 :: "element list" where
  "elements_cisco_2 = [
    row 5951 232 232 ''netscalerIcaChannelId4Bytes'' ''unsigned32'',
    row 5951 233 233 ''netscalerIcaChannelId5'' ''unsigned32'',
    row 5951 234 234 ''netscalerIcaChannelId5Bytes'' ''unsigned32'',
    row 5951 235 235 ''netscalerIcaConnectionPriority'' ''unsigned16'',
    row 5951 236 236 ''netscalerApplicationStartupDuration'' ''unsigned32'',
    row 5951 237 237 ''netscalerIcaLaunchMechanism'' ''unsigned16'',
    row 5951 238 238 ''netscalerIcaApplicationName'' ''string'',
    row 5951 239 239 ''netscalerApplicationStartupTime'' ''unsigned32'',
    row 5951 240 240 ''netscalerIcaApplicationTerminationType'' ''unsigned16'',
    row 5951 241 241 ''netscalerIcaApplicationTerminationTime'' ''unsigned32'',
    row 5951 242 242 ''netscalerIcaSessionEndTime'' ''unsigned32'',
    row 5951 243 243 ''netscalerIcaClientsideJitter'' ''unsigned32'',
    row 5951 244 244 ''netscalerIcaServersideJitter'' ''unsigned32'',
    row 5951 245 245 ''netscalerIcaAppProcessID'' ''unsigned32'',
    row 5951 246 246 ''netscalerIcaAppModulePath'' ''string'',
    row 5951 247 247 ''netscalerIcaDeviceSerialNo'' ''unsigned32'',
    row 5951 248 248 ''netscalerMsiClientCookie'' ''octetarray'',
    row 5951 249 249 ''netscalerIcaFlags'' ''unsigned64'',
    row 5951 250 250 ''netscalerIcaUsername'' ''string'',
    row 5951 251 251 ''netscalerLicenseType'' ''unsigned8'',
    row 5951 252 252 ''netscalerMaxLicenseCount'' ''unsigned64'',
    row 5951 253 253 ''netscalerCurrentLicenseConsumed'' ''unsigned64'',
    row 5951 254 254 ''netscalerIcaNetworkUpdateStartTime'' ''unsigned32'',
    row 5951 255 255 ''netscalerIcaNetworkUpdateEndTime'' ''unsigned32'',
    row 5951 256 256 ''netscalerIcaClientsideSRTT'' ''unsigned32'',
    row 5951 257 257 ''netscalerIcaServersideSRTT'' ''unsigned32'',
    row 5951 258 258 ''netscalerIcaClientsideDelay'' ''unsigned32'',
    row 5951 259 259 ''netscalerIcaServersideDelay'' ''unsigned32'',
    row 5951 260 260 ''netscalerIcaHostDelay'' ''unsigned32'',
    row 5951 261 261 ''netscalerIcaClientSideWindowSize'' ''unsigned16'',
    row 5951 262 262 ''netscalerIcaServerSideWindowSize'' ''unsigned16'',
    row 5951 263 263 ''netscalerIcaClientSideRTOCount'' ''unsigned16'',
    row 5951 264 264 ''netscalerIcaServerSideRTOCount'' ''unsigned16'',
    row 5951 265 265 ''netscalerIcaL7ClientLatency'' ''unsigned32'',
    row 5951 266 266 ''netscalerIcaL7ServerLatency'' ''unsigned32'',
    row 5951 267 267 ''netscalerHttpDomainName'' ''string'',
    row 5951 268 268 ''netscalerCacheRedirClientConnectionCoreID'' ''unsigned32'',
    row 5951 269 269 ''netscalerCacheRedirClientConnectionTransactionID'' ''unsigned32'',
    row 5951 270 270 ''netscalerUnknown270'' ''unsigned32'',
    row 5951 271 271 ''netscalerUnknown271'' ''unsigned32'',
    row 5951 272 272 ''netscalerUnknown272'' ''unsigned32'',
    row 5951 273 273 ''netscalerUnknown273'' ''unsigned32'',
    row 5951 274 274 ''netscalerUnknown274'' ''unsigned32'',
    row 5951 275 275 ''netscalerUnknown275'' ''unsigned32'',
    row 5951 276 276 ''netscalerUnknown276'' ''unsigned32'',
    row 5951 277 277 ''netscalerUnknown277'' ''unsigned32'',
    row 5951 278 278 ''netscalerUnknown278'' ''unsigned32'',
    row 5951 279 279 ''netscalerUnknown279'' ''unsigned32'',
    row 5951 280 280 ''netscalerUnknown280'' ''unsigned32'',
    row 5951 281 281 ''netscalerUnknown281'' ''unsigned32'',
    row 5951 282 282 ''netscalerUnknown282'' ''unsigned32'',
    row 5951 283 283 ''netscalerUnknown283'' ''unsigned32'',
    row 5951 284 284 ''netscalerUnknown284'' ''unsigned32'',
    row 5951 285 285 ''netscalerUnknown285'' ''unsigned32'',
    row 5951 286 286 ''netscalerUnknown286'' ''unsigned32'',
    row 5951 287 287 ''netscalerUnknown287'' ''unsigned32'',
    row 5951 288 288 ''netscalerUnknown288'' ''unsigned32'',
    row 5951 289 289 ''netscalerUnknown289'' ''unsigned32'',
    row 5951 290 290 ''netscalerUnknown290'' ''unsigned32'',
    row 5951 291 291 ''netscalerUnknown291'' ''unsigned32'',
    row 5951 292 292 ''netscalerUnknown292'' ''unsigned32'',
    row 5951 293 293 ''netscalerUnknown293'' ''unsigned32'',
    row 5951 294 294 ''netscalerUnknown294'' ''unsigned32'',
    row 5951 295 295 ''netscalerUnknown295'' ''unsigned32'',
    row 5951 296 296 ''netscalerUnknown296'' ''unsigned32'',
    row 5951 297 297 ''netscalerUnknown297'' ''unsigned32'',
    row 5951 298 298 ''netscalerUnknown298'' ''unsigned32'',
    row 5951 299 299 ''netscalerUnknown299'' ''unsigned32'',
    row 5951 300 300 ''netscalerUnknown300'' ''unsigned32'',
    row 5951 301 301 ''netscalerUnknown301'' ''unsigned32'',
    row 5951 302 302 ''netscalerUnknown302'' ''unsigned32'',
    row 5951 303 303 ''netscalerUnknown303'' ''unsigned32'',
    row 5951 304 304 ''netscalerUnknown304'' ''unsigned32'',
    row 5951 305 305 ''netscalerUnknown305'' ''unsigned32'',
    row 5951 306 306 ''netscalerUnknown306'' ''unsigned32'',
    row 5951 307 307 ''netscalerUnknown307'' ''unsigned32'',
    row 5951 308 308 ''netscalerUnknown308'' ''unsigned32'',
    row 5951 309 309 ''netscalerUnknown309'' ''unsigned32'',
    row 5951 310 310 ''netscalerUnknown310'' ''unsigned32'',
    row 5951 311 311 ''netscalerUnknown311'' ''unsigned32'',
    row 5951 312 312 ''netscalerUnknown312'' ''unsigned32'',
    row 5951 313 313 ''netscalerUnknown313'' ''unsigned32'',
    row 5951 314 314 ''netscalerUnknown314'' ''unsigned32'',
    row 5951 315 315 ''netscalerUnknown315'' ''unsigned32'',
    row 5951 316 316 ''netscalerUnknown316'' ''string'',
    row 5951 317 317 ''netscalerUnknown317'' ''unsigned32'',
    row 5951 318 318 ''netscalerUnknown318'' ''unsigned32'',
    row 5951 319 319 ''netscalerUnknown319'' ''string'',
    row 5951 320 320 ''netscalerUnknown320'' ''unsigned16'',
    row 5951 321 321 ''netscalerUnknown321'' ''unsigned32'',
    row 5951 322 322 ''netscalerUnknown322'' ''unsigned32'',
    row 5951 323 323 ''netscalerUnknown323'' ''unsigned16'',
    row 5951 324 324 ''netscalerUnknown324'' ''unsigned16'',
    row 5951 325 325 ''netscalerUnknown325'' ''unsigned16'',
    row 5951 326 326 ''netscalerUnknown326'' ''unsigned16'',
    row 5951 327 327 ''netscalerUnknown327'' ''unsigned32'',
    row 5951 328 328 ''netscalerUnknown328'' ''unsigned16'',
    row 5951 329 329 ''netscalerUnknown329'' ''unsigned16'',
    row 5951 330 330 ''netscalerUnknown330'' ''unsigned16'',
    row 5951 331 331 ''netscalerUnknown331'' ''unsigned16'',
    row 5951 332 332 ''netscalerUnknown332'' ''unsigned32'',
    row 5951 333 333 ''netscalerUnknown333'' ''string'',
    row 5951 334 334 ''netscalerUnknown334'' ''string'',
    row 5951 335 335 ''netscalerUnknown335'' ''unsigned32'',
    row 5951 336 336 ''netscalerUnknown336'' ''unsigned32'',
    row 5951 337 337 ''netscalerUnknown337'' ''unsigned32'',
    row 5951 338 338 ''netscalerUnknown338'' ''unsigned32'',
    row 5951 339 339 ''netscalerUnknown339'' ''unsigned32'',
    row 5951 340 340 ''netscalerUnknown340'' ''unsigned32'',
    row 5951 341 341 ''netscalerUnknown341'' ''unsigned32'',
    row 5951 342 342 ''netscalerUnknown342'' ''unsigned32'',
    row 5951 343 343 ''netscalerUnknown343'' ''unsigned32'',
    row 5951 344 344 ''netscalerUnknown344'' ''unsigned32'',
    row 5951 345 345 ''netscalerUnknown345'' ''unsigned32'',
    row 5951 346 346 ''netscalerUnknown346'' ''unsigned32'',
    row 5951 347 347 ''netscalerUnknown347'' ''unsigned32'',
    row 5951 348 348 ''netscalerUnknown348'' ''unsigned16'',
    row 5951 349 349 ''netscalerUnknown349'' ''string'',
    row 5951 350 350 ''netscalerUnknown350'' ''string'',
    row 5951 351 351 ''netscalerUnknown351'' ''string'',
    row 5951 352 352 ''netscalerUnknown352'' ''unsigned16'',
    row 5951 353 353 ''netscalerUnknown353'' ''unsigned32'',
    row 5951 354 354 ''netscalerUnknown354'' ''unsigned32'',
    row 5951 355 355 ''netscalerUnknown355'' ''unsigned32'',
    row 5951 356 356 ''netscalerUnknown356'' ''unsigned32'',
    row 5951 357 357 ''netscalerUnknown357'' ''unsigned32'',
    row 5951 363 363 ''netscalerUnknown363'' ''octetarray'',
    row 5951 383 383 ''netscalerUnknown383'' ''octetarray'',
    row 5951 391 391 ''netscalerUnknown391'' ''unsigned32'',
    row 5951 398 398 ''netscalerUnknown398'' ''unsigned32'',
    row 5951 404 404 ''netscalerUnknown404'' ''unsigned32'',
    row 5951 405 405 ''netscalerUnknown405'' ''unsigned32'',
    row 5951 427 427 ''netscalerUnknown427'' ''unsigned64'',
    row 5951 429 429 ''netscalerUnknown429'' ''unsigned8'',
    row 5951 432 432 ''netscalerUnknown432'' ''unsigned8'',
    row 5951 433 433 ''netscalerUnknown433'' ''unsigned8'',
    row 5951 453 453 ''netscalerUnknown453'' ''unsigned64'',
    row 5951 465 465 ''netscalerUnknown465'' ''unsigned32'']"

definition elements_gigamon :: "element list" where
  "elements_gigamon = [
    row 26866 1 1 ''gigamonHttpReqUrl'' ''string'',
    row 26866 2 2 ''gigamonHttpRspStatus'' ''unsigned16'',
    row 26866 202 202 ''gigamonDnsOpCode'' ''unsigned8'',
    row 26866 212 212 ''dnsNsCount'' ''unsigned16'',
    row 26866 220 220 ''dnsAuthorityName'' ''string'',
    row 26866 221 221 ''dnsAuthorityType'' ''unsigned16'']"

definition elements_nprobe :: "element list" where
  "elements_nprobe = [
    row 0 57581 57581 ''RETRANSMITTED_IN_PKTS'' ''unsigned32'',
    row 0 57582 57582 ''RETRANSMITTED_OUT_PKTS'' ''unsigned32'',
    row 0 57583 57583 ''OOORDER_IN_PKTS'' ''unsigned32'',
    row 0 57584 57584 ''OOORDER_OUT_PKTS'' ''unsigned32'',
    row 0 57552 57552 ''FRAGMENTS'' ''unsigned32'',
    row 0 57595 57595 ''CLIENT_NW_LATENCY_MS'' ''unsigned32'',
    row 0 57596 57596 ''SERVER_NW_LATENCY_MS'' ''unsigned32'',
    row 0 57597 57597 ''APPL_LATENCY_MS'' ''unsigned32'']"

definition elements_paloalto :: "element list" where
  "elements_paloalto = [
    row 0 56701 56701 ''paloAltoApplicationID'' ''string'',
    row 0 56702 56701 ''paloAltoUserID'' ''string'']"

definition elements_rfc5102_1 :: "element list" where
  "elements_rfc5102_1 = [
    row 0 1 1 ''octetDeltaCount'' ''unsigned64'',
    row 0 2 2 ''packetDeltaCount'' ''unsigned64'',
    row 0 3 3 ''deltaFlowCount'' ''unsigned64'',
    row 0 4 4 ''protocolIdentifier'' ''unsigned8'',
    row 0 5 5 ''ipClassOfService'' ''unsigned8'',
    row 0 6 6 ''tcpControlBits'' ''unsigned16'',
    row 0 7 7 ''sourceTransportPort'' ''unsigned16'',
    row 0 8 8 ''sourceIPv4Address'' ''ipv4Address'',
    row 0 9 9 ''sourceIPv4PrefixLength'' ''unsigned8'',
    row 0 10 10 ''ingressInterface'' ''unsigned32'',
    row 0 11 11 ''destinationTransportPort'' ''unsigned16'',
    row 0 12 12 ''destinationIPv4Address'' ''ipv4Address'',
    row 0 13 13 ''destinationIPv4PrefixLength'' ''unsigned8'',
    row 0 14 14 ''egressInterface'' ''unsigned32'',
    row 0 15 15 ''ipNextHopIPv4Address'' ''ipv4Address'',
    row 0 16 16 ''bgpSourceAsNumber'' ''unsigned32'',
    row 0 17 17 ''bgpDestinationAsNumber'' ''unsigned32'',
    row 0 18 18 ''bgpNextHopIPv4Address'' ''ipv4Address'',
    row 0 19 19 ''postMCastPacketDeltaCount'' ''unsigned64'',
    row 0 20 20 ''postMCastOctetDeltaCount'' ''unsigned64'',
    row 0 21 21 ''flowEndSysUpTime'' ''unsigned32'',
    row 0 22 22 ''flowStartSysUpTime'' ''unsigned32'',
    row 0 23 23 ''postOctetDeltaCount'' ''unsigned64'',
    row 0 24 24 ''postPacketDeltaCount'' ''unsigned64'',
    row 0 25 25 ''minimumIpTotalLength'' ''unsigned64'',
    row 0 26 26 ''maximumIpTotalLength'' ''unsigned64'',
    row 0 27 27 ''sourceIPv6Address'' ''ipv6Address'',
    row 0 28 28 ''destinationIPv6Address'' ''ipv6Address'',
    row 0 29 29 ''sourceIPv6PrefixLength'' ''unsigned8'',
    row 0 30 30 ''destinationIPv6PrefixLength'' ''unsigned8'',
    row 0 31 31 ''flowLabelIPv6'' ''unsigned32'',
    row 0 32 32 ''icmpTypeCodeIPv4'' ''unsigned16'',
    row 0 33 33 ''igmpType'' ''unsigned8'',
    row 0 34 34 ''samplingInterval'' ''unsigned32'',
    row 0 35 35 ''samplingAlgorithm'' ''unsigned8'',
    row 0 36 36 ''flowActiveTimeout'' ''unsigned16'',
    row 0 37 37 ''flowIdleTimeout'' ''unsigned16'',
    row 0 38 38 ''engineType'' ''unsigned8'',
    row 0 39 39 ''engineId'' ''unsigned8'',
    row 0 40 40 ''exportedOctetTotalCount'' ''unsigned64'',
    row 0 41 41 ''exportedMessageTotalCount'' ''unsigned64'',
    row 0 42 42 ''exportedFlowRecordTotalCount'' ''unsigned64'',
    row 0 43 43 ''ipv4RouterSc'' ''ipv4Address'',
    row 0 44 44 ''sourceIPv4Prefix'' ''ipv4Address'',
    row 0 45 45 ''destinationIPv4Prefix'' ''ipv4Address'',
    row 0 46 46 ''mplsTopLabelType'' ''unsigned8'',
    row 0 47 47 ''mplsTopLabelIPv4Address'' ''ipv4Address'',
    row 0 48 48 ''samplerId'' ''unsigned32'',
    row 0 49 49 ''samplerMode'' ''unsigned8'',
    row 0 50 50 ''samplerRandomInterval'' ''unsigned32'',
    row 0 51 51 ''classId'' ''unsigned8'',
    row 0 52 52 ''minimumTTL'' ''unsigned8'',
    row 0 53 53 ''maximumTTL'' ''unsigned8'',
    row 0 54 54 ''fragmentIdentification'' ''unsigned32'',
    row 0 55 55 ''postIpClassOfService'' ''unsigned8'',
    row 0 56 56 ''sourceMacAddress'' ''macAddress'',
    row 0 57 57 ''postDestinationMacAddress'' ''macAddress'',
    row 0 58 58 ''vlanId'' ''unsigned16'',
    row 0 59 59 ''postVlanId'' ''unsigned16'',
    row 0 60 60 ''ipVersion'' ''unsigned8'',
    row 0 61 61 ''flowDirection'' ''unsigned8'',
    row 0 62 62 ''ipNextHopIPv6Address'' ''ipv6Address'',
    row 0 63 63 ''bgpNextHopIPv6Address'' ''ipv6Address'',
    row 0 64 64 ''ipv6ExtensionHeaders'' ''unsigned32'',
    row 0 70 70 ''mplsTopLabelStackSection'' ''octetArray'',
    row 0 71 71 ''mplsLabelStackSection2'' ''octetArray'',
    row 0 72 72 ''mplsLabelStackSection3'' ''octetArray'',
    row 0 73 73 ''mplsLabelStackSection4'' ''octetArray'',
    row 0 74 74 ''mplsLabelStackSection5'' ''octetArray'',
    row 0 75 75 ''mplsLabelStackSection6'' ''octetArray'',
    row 0 76 76 ''mplsLabelStackSection7'' ''octetArray'',
    row 0 77 77 ''mplsLabelStackSection8'' ''octetArray'',
    row 0 78 78 ''mplsLabelStackSection9'' ''octetArray'',
    row 0 79 79 ''mplsLabelStackSection10'' ''octetArray'',
    row 0 80 80 ''destinationMacAddress'' ''macAddress'',
    row 0 81 81 ''postSourceMacAddress'' ''macAddress'',
    row 0 82 82 ''interfaceName'' ''string'',
    row 0 83 83 ''interfaceDescription'' ''string'',
    row 0 84 84 ''samplerName'' ''string'',
    row 0 85 85 ''octetTotalCount'' ''unsigned64'',
    row 0 86 86 ''packetTotalCount'' ''unsigned64'',
    row 0 87 87 ''flagsAndSamplerId'' ''unsigned32'',
    row 0 88 88 ''fragmentOffset'' ''unsigned16'',
    row 0 89 89 ''forwardingStatus'' ''unsigned32'',
    row 0 90 90 ''mplsVpnRouteDistinguisher'' ''octetArray'',
    row 0 91 91 ''mplsTopLabelPrefixLength'' ''unsigned8'',
    row 0 92 92 ''srcTrafficIndex'' ''unsigned32'',
    row 0 93 93 ''dstTrafficIndex'' ''unsigned32'',
    row 0 94 94 ''applicationDescription'' ''string'',
    row 0 95 95 ''applicationId'' ''octetArray'',
    row 0 96 96 ''applicationName'' ''string'',
    row 0 98 98 ''postIpDiffServCodePoint'' ''unsigned8'',
    row 0 99 99 ''multicastReplicationFactor'' ''unsigned32'',
    row 0 100 100 ''className'' ''string'',
    row 0 101 101 ''classificationEngineId'' ''unsigned8'',
    row 0 102 102 ''layer2packetSectionOffset'' ''unsigned16'',
    row 0 103 103 ''layer2packetSectionSize'' ''unsigned16'',
    row 0 104 104 ''layer2packetSectionData'' ''octetArray'',
    row 0 128 128 ''bgpNextAdjacentAsNumber'' ''unsigned32'',
    row 0 129 129 ''bgpPrevAdjacentAsNumber'' ''unsigned32'',
    row 0 130 130 ''exporterIPv4Address'' ''ipv4Address'',
    row 0 131 131 ''exporterIPv6Address'' ''ipv6Address'',
    row 0 132 132 ''droppedOctetDeltaCount'' ''unsigned64'',
    row 0 133 133 ''droppedPacketDeltaCount'' ''unsigned64'',
    row 0 134 134 ''droppedOctetTotalCount'' ''unsigned64'',
    row 0 135 135 ''droppedPacketTotalCount'' ''unsigned64'',
    row 0 136 136 ''flowEndReason'' ''unsigned8'',
    row 0 137 137 ''commonPropertiesId'' ''unsigned64'',
    row 0 138 138 ''observationPointId'' ''unsigned64'',
    row 0 139 139 ''icmpTypeCodeIPv6'' ''unsigned16'']"

definition elements_rfc5102_2 :: "element list" where
  "elements_rfc5102_2 = [
    row 0 140 140 ''mplsTopLabelIPv6Address'' ''ipv6Address'',
    row 0 141 141 ''lineCardId'' ''unsigned32'',
    row 0 142 142 ''portId'' ''unsigned32'',
    row 0 143 143 ''meteringProcessId'' ''unsigned32'',
    row 0 144 144 ''exportingProcessId'' ''unsigned32'',
    row 0 145 145 ''templateId'' ''unsigned16'',
    row 0 146 146 ''wlanChannelId'' ''unsigned8'',
    row 0 147 147 ''wlanSSID'' ''string'',
    row 0 148 148 ''flowId'' ''unsigned64'',
    row 0 149 149 ''observationDomainId'' ''unsigned32'',
    row 0 150 150 ''flowStartSeconds'' ''dateTimeSeconds'',
    row 0 151 151 ''flowEndSeconds'' ''dateTimeSeconds'',
    row 0 152 152 ''flowStartMilliseconds'' ''dateTimeMilliseconds'',
    row 0 153 153 ''flowEndMilliseconds'' ''dateTimeMilliseconds'',
    row 0 154 154 ''flowStartMicroseconds'' ''dateTimeMicroseconds'',
    row 0 155 155 ''flowEndMicroseconds'' ''dateTimeMicroseconds'',
    row 0 156 156 ''flowStartNanoseconds'' ''dateTimeNanoseconds'',
    row 0 157 157 ''flowEndNanoseconds'' ''dateTimeNanoseconds'',
    row 0 158 158 ''flowStartDeltaMicroseconds'' ''unsigned32'',
    row 0 159 159 ''flowEndDeltaMicroseconds'' ''unsigned32'',
    row 0 160 160 ''systemInitTimeMilliseconds'' ''dateTimeMilliseconds'',
    row 0 161 161 ''flowDurationMilliseconds'' ''unsigned32'',
    row 0 162 162 ''flowDurationMicroseconds'' ''unsigned32'',
    row 0 163 163 ''observedFlowTotalCount'' ''unsigned64'',
    row 0 164 164 ''ignoredPacketTotalCount'' ''unsigned64'',
    row 0 165 165 ''ignoredOctetTotalCount'' ''unsigned64'',
    row 0 166 166 ''notSentFlowTotalCount'' ''unsigned64'',
    row 0 167 167 ''notSentPacketTotalCount'' ''unsigned64'',
    row 0 168 168 ''notSentOctetTotalCount'' ''unsigned64'',
    row 0 169 169 ''destinationIPv6Prefix'' ''ipv6Address'',
    row 0 170 170 ''sourceIPv6Prefix'' ''ipv6Address'',
    row 0 171 171 ''postOctetTotalCount'' ''unsigned64'',
    row 0 172 172 ''postPacketTotalCount'' ''unsigned64'',
    row 0 173 173 ''flowKeyIndicator'' ''unsigned64'',
    row 0 174 174 ''postMCastPacketTotalCount'' ''unsigned64'',
    row 0 175 175 ''postMCastOctetTotalCount'' ''unsigned64'',
    row 0 176 176 ''icmpTypeIPv4'' ''unsigned8'',
    row 0 177 177 ''icmpCodeIPv4'' ''unsigned8'',
    row 0 178 178 ''icmpTypeIPv6'' ''unsigned8'',
    row 0 179 179 ''icmpCodeIPv6'' ''unsigned8'',
    row 0 180 180 ''udpSourcePort'' ''unsigned16'',
    row 0 181 181 ''udpDestinationPort'' ''unsigned16'',
    row 0 182 182 ''tcpSourcePort'' ''unsigned16'',
    row 0 183 183 ''tcpDestinationPort'' ''unsigned16'',
    row 0 184 184 ''tcpSequenceNumber'' ''unsigned32'',
    row 0 185 185 ''tcpAcknowledgementNumber'' ''unsigned32'',
    row 0 186 186 ''tcpWindowSize'' ''unsigned16'',
    row 0 187 187 ''tcpUrgentPointer'' ''unsigned16'',
    row 0 188 188 ''tcpHeaderLength'' ''unsigned8'',
    row 0 189 189 ''ipHeaderLength'' ''unsigned8'',
    row 0 190 190 ''totalLengthIPv4'' ''unsigned16'',
    row 0 191 191 ''payloadLengthIPv6'' ''unsigned16'',
    row 0 192 192 ''ipTTL'' ''unsigned8'',
    row 0 193 193 ''nextHeaderIPv6'' ''unsigned8'',
    row 0 194 194 ''mplsPayloadLength'' ''unsigned32'',
    row 0 195 195 ''ipDiffServCodePoint'' ''unsigned8'',
    row 0 196 196 ''ipPrecedence'' ''unsigned8'',
    row 0 197 197 ''fragmentFlags'' ''unsigned8'',
    row 0 198 198 ''octetDeltaSumOfSquares'' ''unsigned64'',
    row 0 199 199 ''octetTotalSumOfSquares'' ''unsigned64'',
    row 0 200 200 ''mplsTopLabelTTL'' ''unsigned8'',
    row 0 201 201 ''mplsLabelStackLength'' ''unsigned32'',
    row 0 202 202 ''mplsLabelStackDepth'' ''unsigned32'',
    row 0 203 203 ''mplsTopLabelExp'' ''unsigned8'',
    row 0 204 204 ''ipPayloadLength'' ''unsigned32'',
    row 0 205 205 ''udpMessageLength'' ''unsigned16'',
    row 0 206 206 ''isMulticast'' ''unsigned8'',
    row 0 207 207 ''ipv4IHL'' ''unsigned8'',
    row 0 208 208 ''ipv4Options'' ''unsigned32'',
    row 0 209 209 ''tcpOptions'' ''unsigned64'',
    row 0 210 210 ''paddingOctets'' ''octetArray'',
    row 0 211 211 ''collectorIPv4Address'' ''ipv4Address'',
    row 0 212 212 ''collectorIPv6Address'' ''ipv6Address'',
    row 0 213 213 ''exportInterface'' ''unsigned32'',
    row 0 214 214 ''exportProtocolVersion'' ''unsigned8'',
    row 0 215 215 ''exportTransportProtocol'' ''unsigned8'',
    row 0 216 216 ''collectorTransportPort'' ''unsigned16'',
    row 0 217 217 ''exporterTransportPort'' ''unsigned16'',
    row 0 218 218 ''tcpSynTotalCount'' ''unsigned64'',
    row 0 219 219 ''tcpFinTotalCount'' ''unsigned64'',
    row 0 220 220 ''tcpRstTotalCount'' ''unsigned64'',
    row 0 221 221 ''tcpPshTotalCount'' ''unsigned64'',
    row 0 222 222 ''tcpAckTotalCount'' ''unsigned64'',
    row 0 223 223 ''tcpUrgTotalCount'' ''unsigned64'',
    row 0 224 224 ''ipTotalLength'' ''unsigned64'',
    row 0 225 225 ''postNATSourceIPv4Address'' ''ipv4Address'',
    row 0 226 226 ''postNATDestinationIPv4Address'' ''ipv4Address'',
    row 0 227 227 ''postNAPTSourceTransportPort'' ''unsigned16'',
    row 0 228 228 ''postNAPTDestinationTransportPort'' ''unsigned16'',
    row 0 229 229 ''natOriginatingAddressRealm'' ''unsigned8'',
    row 0 230 230 ''natEvent'' ''unsigned8'',
    row 0 231 231 ''initiatorOctets'' ''unsigned64'',
    row 0 232 232 ''responderOctets'' ''unsigned64'',
    row 0 233 233 ''firewallEvent'' ''unsigned8'',
    row 0 234 234 ''ingressVRFID'' ''unsigned32'',
    row 0 235 235 ''egressVRFID'' ''unsigned32'',
    row 0 236 236 ''VRFname'' ''string'',
    row 0 237 237 ''postMplsTopLabelExp'' ''unsigned8'',
    row 0 238 238 ''tcpWindowScale'' ''unsigned16'',
    row 0 239 239 ''biflowDirection'' ''unsigned8'',
    row 0 240 240 ''ethernetHeaderLength'' ''unsigned8'',
    row 0 241 241 ''ethernetPayloadLength'' ''unsigned16'',
    row 0 242 242 ''ethernetTotalLength'' ''unsigned16'',
    row 0 243 243 ''dot1qVlanId'' ''unsigned16'',
    row 0 244 244 ''dot1qPriority'' ''unsigned8'',
    row 0 245 245 ''dot1qCustomerVlanId'' ''unsigned16'',
    row 0 246 246 ''dot1qCustomerPriority'' ''unsigned8'',
    row 0 247 247 ''metroEvcId'' ''string'',
    row 0 248 248 ''metroEvcType'' ''unsigned8'',
    row 0 249 249 ''pseudoWireId'' ''unsigned32'']"

definition elements_rfc5102_3 :: "element list" where
  "elements_rfc5102_3 = [
    row 0 250 250 ''pseudoWireType'' ''unsigned16'',
    row 0 251 251 ''pseudoWireControlWord'' ''unsigned32'',
    row 0 252 252 ''ingressPhysicalInterface'' ''unsigned32'',
    row 0 253 253 ''egressPhysicalInterface'' ''unsigned32'',
    row 0 254 254 ''postDot1qVlanId'' ''unsigned16'',
    row 0 255 255 ''postDot1qCustomerVlanId'' ''unsigned16'',
    row 0 256 256 ''ethernetType'' ''unsigned16'',
    row 0 257 257 ''postIpPrecedence'' ''unsigned8'',
    row 0 258 258 ''collectionTimeMilliseconds'' ''dateTimeMilliseconds'',
    row 0 259 259 ''exportSctpStreamId'' ''unsigned16'',
    row 0 260 260 ''maxExportSeconds'' ''dateTimeSeconds'',
    row 0 261 261 ''maxFlowEndSeconds'' ''dateTimeSeconds'',
    row 0 262 262 ''messageMD5Checksum'' ''octetArray'',
    row 0 263 263 ''messageScope'' ''unsigned8'',
    row 0 264 264 ''minExportSeconds'' ''dateTimeSeconds'',
    row 0 265 265 ''minFlowStartSeconds'' ''dateTimeSeconds'',
    row 0 266 266 ''opaqueOctets'' ''octetArray'',
    row 0 267 267 ''sessionScope'' ''unsigned8'',
    row 0 268 268 ''maxFlowEndMicroseconds'' ''dateTimeMicroseconds'',
    row 0 269 269 ''maxFlowEndMilliseconds'' ''dateTimeMilliseconds'',
    row 0 270 270 ''maxFlowEndNanoseconds'' ''dateTimeNanoseconds'',
    row 0 271 271 ''minFlowStartMicroseconds'' ''dateTimeMicroseconds'',
    row 0 272 272 ''minFlowStartMilliseconds'' ''dateTimeMilliseconds'',
    row 0 273 273 ''minFlowStartNanoseconds'' ''dateTimeNanoseconds'',
    row 0 274 274 ''collectorCertificate'' ''octetArray'',
    row 0 275 275 ''exporterCertificate'' ''octetArray'',
    row 0 276 276 ''dataRecordsReliability'' ''boolean'',
    row 0 277 277 ''observationPointType'' ''unsigned8'',
    row 0 278 278 ''newConnectionDeltaCount'' ''unsigned32'',
    row 0 279 279 ''connectionSumDurationSeconds'' ''unsigned64'',
    row 0 280 280 ''connectionTransactionId'' ''unsigned64'',
    row 0 281 281 ''postNATSourceIPv6Address'' ''ipv6Address'',
    row 0 282 282 ''postNATDestinationIPv6Address'' ''ipv6Address'',
    row 0 283 283 ''natPoolId'' ''unsigned32'',
    row 0 284 284 ''natPoolName'' ''string'',
    row 0 285 285 ''anonymizationFlags'' ''unsigned16'',
    row 0 286 286 ''anonymizationTechnique'' ''unsigned16'',
    row 0 287 287 ''informationElementIndex'' ''unsigned16'',
    row 0 288 288 ''p2pTechnology'' ''string'',
    row 0 289 289 ''tunnelTechnology'' ''string'',
    row 0 290 290 ''encryptedTechnology'' ''string'',
    row 0 291 291 ''basicList'' ''basicList'',
    row 0 292 292 ''subTemplateList'' ''subTemplateList'',
    row 0 293 293 ''subTemplateMultiList'' ''subTemplateMultiList'',
    row 0 294 294 ''bgpValidityState'' ''unsigned8'',
    row 0 295 295 ''IPSecSPI'' ''unsigned32'',
    row 0 296 296 ''greKey'' ''unsigned32'',
    row 0 297 297 ''natType'' ''unsigned8'',
    row 0 298 298 ''initiatorPackets'' ''unsigned64'',
    row 0 299 299 ''responderPackets'' ''unsigned64'',
    row 0 300 300 ''observationDomainName'' ''string'',
    row 0 301 301 ''selectionSequenceId'' ''unsigned64'',
    row 0 302 302 ''selectorId'' ''unsigned64'',
    row 0 303 303 ''informationElementId'' ''unsigned16'',
    row 0 304 304 ''selectorAlgorithm'' ''unsigned16'',
    row 0 305 305 ''samplingPacketInterval'' ''unsigned32'',
    row 0 306 306 ''samplingPacketSpace'' ''unsigned32'',
    row 0 307 307 ''samplingTimeInterval'' ''unsigned32'',
    row 0 308 308 ''samplingTimeSpace'' ''unsigned32'',
    row 0 309 309 ''samplingSize'' ''unsigned32'',
    row 0 310 310 ''samplingPopulation'' ''unsigned32'',
    row 0 311 311 ''samplingProbability'' ''float64'',
    row 0 312 312 ''dataLinkFrameSize'' ''unsigned16'',
    row 0 313 313 ''ipHeaderPacketSection'' ''octetArray'',
    row 0 314 314 ''ipPayloadPacketSection'' ''octetArray'',
    row 0 315 315 ''dataLinkFrameSection'' ''octetArray'',
    row 0 316 316 ''mplsLabelStackSection'' ''octetArray'',
    row 0 317 317 ''mplsPayloadPacketSection'' ''octetArray'',
    row 0 318 318 ''selectorIdTotalPktsObserved'' ''unsigned64'',
    row 0 319 319 ''selectorIdTotalPktsSelected'' ''unsigned64'',
    row 0 320 320 ''absoluteError'' ''float64'',
    row 0 321 321 ''relativeError'' ''float64'',
    row 0 322 322 ''observationTimeSeconds'' ''dateTimeSeconds'',
    row 0 323 323 ''observationTimeMilliseconds'' ''dateTimeMilliseconds'',
    row 0 324 324 ''observationTimeMicroseconds'' ''dateTimeMicroseconds'',
    row 0 325 325 ''observationTimeNanoseconds'' ''dateTimeNanoseconds'',
    row 0 326 326 ''digestHashValue'' ''unsigned64'',
    row 0 327 327 ''hashIPPayloadOffset'' ''unsigned64'',
    row 0 328 328 ''hashIPPayloadSize'' ''unsigned64'',
    row 0 329 329 ''hashOutputRangeMin'' ''unsigned64'',
    row 0 330 330 ''hashOutputRangeMax'' ''unsigned64'',
    row 0 331 331 ''hashSelectedRangeMin'' ''unsigned64'',
    row 0 332 332 ''hashSelectedRangeMax'' ''unsigned64'',
    row 0 333 333 ''hashDigestOutput'' ''boolean'',
    row 0 334 334 ''hashInitialiserValue'' ''unsigned64'',
    row 0 335 335 ''selectorName'' ''string'',
    row 0 336 336 ''upperCILimit'' ''float64'',
    row 0 337 337 ''lowerCILimit'' ''float64'',
    row 0 338 338 ''confidenceLevel'' ''float64'',
    row 0 339 339 ''informationElementDataType'' ''unsigned8'',
    row 0 340 340 ''informationElementDescription'' ''string'',
    row 0 341 341 ''informationElementName'' ''string'',
    row 0 342 342 ''informationElementRangeBegin'' ''unsigned64'',
    row 0 343 343 ''informationElementRangeEnd'' ''unsigned64'',
    row 0 344 344 ''informationElementSemantics'' ''unsigned8'',
    row 0 345 345 ''informationElementUnits'' ''unsigned16'',
    row 0 346 346 ''privateEnterpriseNumber'' ''unsigned32'',
    row 0 347 347 ''virtualStationInterfaceId'' ''octetArray'',
    row 0 348 348 ''virtualStationInterfaceName'' ''string'',
    row 0 349 349 ''virtualStationUUID'' ''octetArray'',
    row 0 350 350 ''virtualStationName'' ''string'',
    row 0 351 351 ''layer2SegmentId'' ''unsigned64'',
    row 0 352 352 ''layer2OctetDeltaCount'' ''unsigned64'',
    row 0 353 353 ''layer2OctetTotalCount'' ''unsigned64'',
    row 0 354 354 ''ingressUnicastPacketTotalCount'' ''unsigned64'',
    row 0 355 355 ''ingressMulticastPacketTotalCount'' ''unsigned64'',
    row 0 356 356 ''ingressBroadcastPacketTotalCount'' ''unsigned64'',
    row 0 357 357 ''egressUnicastPacketTotalCount'' ''unsigned64'',
    row 0 358 358 ''egressBroadcastPacketTotalCount'' ''unsigned64'',
    row 0 359 359 ''monitoringIntervalStartMilliSeconds'' ''dateTimeMilliseconds'']"

definition elements_rfc5102_4 :: "element list" where
  "elements_rfc5102_4 = [
    row 0 360 360 ''monitoringIntervalEndMilliSeconds'' ''dateTimeMilliseconds'',
    row 0 361 361 ''portRangeStart'' ''unsigned16'',
    row 0 362 362 ''portRangeEnd'' ''unsigned16'',
    row 0 363 363 ''portRangeStepSize'' ''unsigned16'',
    row 0 364 364 ''portRangeNumPorts'' ''unsigned16'',
    row 0 365 365 ''staMacAddress'' ''macAddress'',
    row 0 366 366 ''staIPv4Address'' ''ipv4Address'',
    row 0 367 367 ''wtpMacAddress'' ''macAddress'',
    row 0 368 368 ''ingressInterfaceType'' ''unsigned32'',
    row 0 369 369 ''egressInterfaceType'' ''unsigned32'',
    row 0 370 370 ''rtpSequenceNumber'' ''unsigned16'',
    row 0 371 371 ''userName'' ''string'',
    row 0 372 372 ''applicationCategoryName'' ''string'',
    row 0 373 373 ''applicationSubCategoryName'' ''string'',
    row 0 374 374 ''applicationGroupName'' ''string'',
    row 0 375 375 ''originalFlowsPresent'' ''unsigned64'',
    row 0 376 376 ''originalFlowsInitiated'' ''unsigned64'',
    row 0 377 377 ''originalFlowsCompleted'' ''unsigned64'',
    row 0 378 378 ''distinctCountOfSourceIPAddress'' ''unsigned64'',
    row 0 379 379 ''distinctCountOfDestinationIPAddress'' ''unsigned64'',
    row 0 380 380 ''distinctCountOfSourceIPv4Address'' ''unsigned32'',
    row 0 381 381 ''distinctCountOfDestinationIPv4Address'' ''unsigned32'',
    row 0 382 382 ''distinctCountOfSourceIPv6Address'' ''unsigned64'',
    row 0 383 383 ''distinctCountOfDestinationIPv6Address'' ''unsigned64'',
    row 0 384 384 ''valueDistributionMethod'' ''unsigned8'',
    row 0 385 385 ''rfc3550JitterMilliseconds'' ''unsigned32'',
    row 0 386 386 ''rfc3550JitterMicroseconds'' ''unsigned32'',
    row 0 387 387 ''rfc3550JitterNanoseconds'' ''unsigned32'',
    row 0 388 388 ''dot1qDEI'' ''boolean'',
    row 0 389 389 ''dot1qCustomerDEI'' ''boolean'',
    row 0 390 390 ''flowSelectorAlgorithm'' ''unsigned16'',
    row 0 391 391 ''flowSelectedOctetDeltaCount'' ''unsigned64'',
    row 0 392 392 ''flowSelectedPacketDeltaCount'' ''unsigned64'',
    row 0 393 393 ''flowSelectedFlowDeltaCount'' ''unsigned64'',
    row 0 394 394 ''selectorIDTotalFlowsObserved'' ''unsigned64'',
    row 0 395 395 ''selectorIDTotalFlowsSelected'' ''unsigned64'',
    row 0 396 396 ''samplingFlowInterval'' ''unsigned64'',
    row 0 397 397 ''samplingFlowSpacing'' ''unsigned64'',
    row 0 398 398 ''flowSamplingTimeInterval'' ''unsigned64'',
    row 0 399 399 ''flowSamplingTimeSpacing'' ''unsigned64'',
    row 0 400 400 ''hashFlowDomain'' ''unsigned16'',
    row 0 401 401 ''transportOctetDeltaCount'' ''unsigned64'',
    row 0 402 402 ''transportPacketDeltaCount'' ''unsigned64'',
    row 0 403 403 ''originalExporterIPv4Address'' ''ipv4Address'',
    row 0 404 404 ''originalExporterIPv6Address'' ''ipv6Address'',
    row 0 405 405 ''originalObservationDomainId'' ''unsigned32'',
    row 0 406 406 ''intermediateProcessId'' ''unsigned32'',
    row 0 407 407 ''ignoredDataRecordTotalCount'' ''unsigned64'',
    row 0 408 408 ''dataLinkFrameType'' ''unsigned16'',
    row 0 409 409 ''sectionOffset'' ''unsigned16'',
    row 0 410 410 ''sectionExportedOctets'' ''unsigned16'',
    row 0 411 411 ''dot1qServiceInstanceTag'' ''octetArray'',
    row 0 412 412 ''dot1qServiceInstanceId'' ''unsigned32'',
    row 0 413 413 ''dot1qServiceInstancePriority'' ''unsigned8'',
    row 0 414 414 ''dot1qCustomerSourceMacAddress'' ''macAddress'',
    row 0 415 415 ''dot1qCustomerDestinationMacAddress'' ''macAddress'',
    row 0 417 417 ''postLayer2OctetDeltaCount'' ''unsigned64'',
    row 0 418 418 ''postMCastLayer2OctetDeltaCount'' ''unsigned64'',
    row 0 420 420 ''postLayer2OctetTotalCount'' ''unsigned64'',
    row 0 421 421 ''postMCastLayer2OctetTotalCount'' ''unsigned64'',
    row 0 422 422 ''minimumLayer2TotalLength'' ''unsigned64'',
    row 0 423 423 ''maximumLayer2TotalLength'' ''unsigned64'',
    row 0 424 424 ''droppedLayer2OctetDeltaCount'' ''unsigned64'',
    row 0 425 425 ''droppedLayer2OctetTotalCount'' ''unsigned64'',
    row 0 426 426 ''ignoredLayer2OctetTotalCount'' ''unsigned64'',
    row 0 427 427 ''notSentLayer2OctetTotalCount'' ''unsigned64'',
    row 0 428 428 ''layer2OctetDeltaSumOfSquares'' ''unsigned64'',
    row 0 429 429 ''layer2OctetTotalSumOfSquares'' ''unsigned64'',
    row 0 430 430 ''layer2FrameDeltaCount'' ''unsigned64'',
    row 0 431 431 ''layer2FrameTotalCount'' ''unsigned64'',
    row 0 432 432 ''pseudoWireDestinationIPv4Address'' ''ipv4Address'',
    row 0 433 433 ''ignoredLayer2FrameTotalCount'' ''unsigned64'',
    row 0 434 434 ''mibObjectValueInteger'' ''signed32'',
    row 0 435 435 ''mibObjectValueOctetString'' ''octetArray'',
    row 0 436 436 ''mibObjectValueOID'' ''octetArray'',
    row 0 437 437 ''mibObjectValueBits'' ''octetArray'',
    row 0 438 438 ''mibObjectValueIPAddress'' ''ipv4Address'',
    row 0 439 439 ''mibObjectValueCounter'' ''unsigned64'',
    row 0 440 440 ''mibObjectValueGauge'' ''unsigned32'',
    row 0 441 441 ''mibObjectValueTimeTicks'' ''unsigned32'',
    row 0 442 442 ''mibObjectValueUnsigned'' ''unsigned32'',
    row 0 443 443 ''mibObjectValueTable'' ''subTemplateList'',
    row 0 444 444 ''mibObjectValueRow'' ''subTemplateList'',
    row 0 445 445 ''mibObjectIdentifier'' ''octetArray'',
    row 0 446 446 ''mibSubIdentifier'' ''unsigned32'',
    row 0 447 447 ''mibIndexIndicator'' ''unsigned64'',
    row 0 448 448 ''mibCaptureTimeSemantics'' ''unsigned8'',
    row 0 449 449 ''mibContextEngineID'' ''octetArray'',
    row 0 450 450 ''mibContextName'' ''string'',
    row 0 451 451 ''mibObjectName'' ''string'',
    row 0 452 452 ''mibObjectDescription'' ''string'',
    row 0 453 453 ''mibObjectSyntax'' ''string'',
    row 0 454 454 ''mibModuleName'' ''string'',
    row 0 455 455 ''mobileIMSI'' ''string'',
    row 0 456 456 ''mobileMSISDN'' ''string'',
    row 0 457 457 ''httpStatusCode'' ''unsigned16'',
    row 0 458 458 ''sourceTransportPortsLimit'' ''unsigned16'',
    row 0 459 459 ''httpRequestMethod'' ''string'',
    row 0 460 460 ''httpRequestHost'' ''string'',
    row 0 461 461 ''httpRequestTarget'' ''string'',
    row 0 462 462 ''httpMessageVersion'' ''string'',
    row 0 463 463 ''natInstanceID'' ''unsigned32'',
    row 0 464 464 ''internalAddressRealm'' ''octetArray'',
    row 0 465 465 ''externalAddressRealm'' ''octetArray'',
    row 0 466 466 ''natQuotaExceededEvent'' ''unsigned32'',
    row 0 467 467 ''natThresholdEvent'' ''unsigned32'',
    row 0 468 468 ''httpUserAgent'' ''string'',
    row 0 469 469 ''httpContentType'' ''string'',
    row 0 470 470 ''httpReasonPhrase'' ''string'']"

definition elements_silverpeak :: "element list" where
  "elements_silverpeak = [
    row 23867 1 1 ''silverpeakClientIpv4Address'' ''ipv4Address'',
    row 23867 2 2 ''silverpeakServerIpv4Address'' ''ipv4Address'',
    row 23867 3 3 ''silverpeakConnectionServerOctetDeltaCount'' ''unsigned64'',
    row 23867 4 4 ''silverpeakConnectionServerPacketDeltaCount'' ''unsigned64'',
    row 23867 5 5 ''silverpeakConnectionClientOctetDeltaCount'' ''unsigned64'',
    row 23867 6 6 ''silverpeakConnectionClientPacketDeltaCount'' ''unsigned64'',
    row 23867 7 7 ''silverpeakConnectionInitiator'' ''ipv4Address'',
    row 23867 8 8 ''silverpeakApplicationHttHost'' ''string'',
    row 23867 9 9 ''silverpeakConnectionNumberOfConnections'' ''unsigned8'',
    row 23867 10 10 ''silverpeakConnectionServerResponsesCount'' ''unsigned8'',
    row 23867 11 11 ''silverpeakConnectionServerResponseDelay'' ''unsigned32'',
    row 23867 12 12 ''silverpeakConnectionNetworkToServerDelay'' ''unsigned32'',
    row 23867 13 13 ''silverpeakConnectionNetworkToClientDelay'' ''unsigned32'',
    row 23867 14 14 ''silverpeakConnectionClientPacketRetransmissionCount'' ''unsigned32'',
    row 23867 15 15 ''silverpeakConnectionClientToServerNetworkDelay'' ''unsigned32'',
    row 23867 16 16 ''silverpeakConnectionApplicationDelay'' ''unsigned32'',
    row 23867 17 17 ''silverpeakConnectionClientToServerResponseDelay'' ''unsigned32'',
    row 23867 18 18 ''silverpeakConnectionTransactionDuration'' ''unsigned32'',
    row 23867 19 19 ''silverpeakConnectionTransactionDurationMin'' ''unsigned32'',
    row 23867 20 20 ''silverpeakConnectionTransactionDurationMax'' ''unsigned32'',
    row 23867 21 21 ''silverpeakConnectionTransactionCompleteCount'' ''unsigned8'',
    row 23867 22 22 ''silverpeakFromZone'' ''string'',
    row 23867 23 23 ''silverpeakToZone'' ''string'',
    row 23867 24 24 ''silverpeakTag'' ''string'',
    row 23867 25 25 ''silverpeakOverlay'' ''string'',
    row 23867 26 26 ''silverpeakDirection'' ''string'',
    row 23867 27 27 ''silverpeakApplicationCategory'' ''string'']"

definition elements_versa :: "element list" where
  "elements_versa = [
    row 42359 519 519 ''versaAppID'' ''unsigned32'',
    row 42359 522 522 ''versaTenantID'' ''unsigned16'',
    row 42359 540 540 ''versaEventType'' ''unsigned16'',
    row 42359 574 574 ''versaApplianceID'' ''unsigned16'']"

definition elements_viptela :: "element list" where
  "elements_viptela = [
    row 41916 4321 4321 ''viptelaVpnId'' ''unsigned64'',
    row 41916 4322 4321 ''viptelaMystery'' ''unsigned32'']"

section \<open>The dictionary\<close>

definition install :: "informationElements \<Rightarrow> element list \<Rightarrow> informationElements" where
  "install m rows = foldl (\<lambda>m (k, v). m(k \<mapsto> v)) m rows"

definition rows_before :: "element list" where
  "rows_before = elements_a10 @ elements_cert @ elements_cisco_1 @ elements_cisco_2 @ elements_gigamon @ elements_nprobe @ elements_paloalto @ elements_rfc5102_1 @ elements_rfc5102_2 @ elements_rfc5102_3 @ elements_rfc5102_4"

definition rows_after :: "element list" where
  "rows_after = elements_silverpeak @ elements_versa @ elements_viptela"

definition reversePEN :: u32 where
  "reversePEN = 29305"

text \<open>\<open>strings.ToUpper(name[0:1]) + name[1:]\<close> for names in ASCII.\<close>

definition ascii_upper :: "char \<Rightarrow> char" where
  "ascii_upper c = (if of_char c \<in> {97 :: nat..122} then char_of (of_char c - 32 :: nat) else c)"

fun capitalize :: "string \<Rightarrow> string" where
  "capitalize [] = []"
| "capitalize (c # cs) = ascii_upper c # cs"

definition reversible :: "u16 \<Rightarrow> bool" where
  "reversible fid \<longleftrightarrow> fid \<notin> set [148, 145, 149, 137,
     130, 131, 217, 211, 212, 213, 214, 215, 216, 173,
     41, 40, 42, 163, 164, 165, 166, 167, 168,
     210]"

text \<open>The body of the loop \<open>for k, v := range builtin\<close>, and the loop over the entries in the order in
  which the map yields them.\<close>

definition reverse_step :: "informationElements \<Rightarrow> element \<Rightarrow> informationElements" where
  "reverse_step m kv = (case kv of ((e, fid), v) \<Rightarrow>
     if e \<noteq> 0 then m
     else if \<not> reversible fid then m
     else m((reversePEN, fid) \<mapsto> v\<lparr>iee_Name := ''reverse'' @ capitalize (iee_Name v), iee_EnterpriseID := reversePEN\<rparr>))"

definition reverse_elements :: "element list \<Rightarrow> informationElements \<Rightarrow> informationElements" where
  "reverse_elements order m = foldl reverse_step m order"

text \<open>The dictionary once every \<open>init\<close> has run, for a given iteration order.\<close>

definition builtin :: "element list \<Rightarrow> informationElements" where
  "builtin order = install (reverse_elements order (install (\<lambda>k. None) rows_before)) rows_after"

text \<open>
  What Go guarantees of a \<open>range\<close> over a map that the loop extends: every entry that was there is
  yielded once, an added one is yielded or not.  The loop only adds entries of enterprise
  \<open>reversePEN\<close>, so the entries of enterprise 0 are yielded as they are.
\<close>

definition range_order :: "informationElements \<Rightarrow> element list \<Rightarrow> bool" where
  "range_order m order \<longleftrightarrow> (\<forall>fid v. ((0, fid), v) \<in> set order \<longleftrightarrow> m (0, fid) = Some v)"

section \<open>Looking elements up\<close>

lemma install_eq: "install m rows = m ++ map_of (rev rows)"
proof (induction rows rule: rev_induct)
  case (snoc x rows)
  then show ?case by (cases x) (simp add: install_def map_add_def fun_eq_iff)
qed (simp add: install_def)

lemma reversePEN_nonzero: "reversePEN \<noteq> 0"
  by (simp add: reversePEN_def)

definition reversed :: "InformationElementEntry \<Rightarrow> InformationElementEntry" where
  "reversed v = v\<lparr>iee_Name := ''reverse'' @ capitalize (iee_Name v), iee_EnterpriseID := reversePEN\<rparr>"

lemma reverse_elements_other:
  "e \<noteq> reversePEN \<or> \<not> reversible fid \<or> (\<nexists>v. ((0, fid), v) \<in> set order) \<Longrightarrow>
     reverse_elements order m (e, fid) = m (e, fid)"
proof (induction order rule: rev_induct)
  case (snoc x order)
  then show ?case by (cases x) (auto simp: reverse_elements_def reverse_step_def)
qed (simp add: reverse_elements_def)

lemma reverse_step_other:
  "e \<noteq> 0 \<or> i \<noteq> fid \<Longrightarrow> reverse_step m ((e, i), w) (reversePEN, fid) = m (reversePEN, fid)"
  by (auto simp: reverse_step_def)

lemma reverse_elements_in:
  "reversible fid \<Longrightarrow> ((0, fid), v) \<in> set order \<Longrightarrow> (\<And>v'. ((0, fid), v') \<in> set order \<Longrightarrow> v' = v) \<Longrightarrow>
     reverse_elements order m (reversePEN, fid) = Some (reversed v)"
proof (induction order rule: rev_induct)
  case (snoc x order)
  obtain e i w where x: "x = ((e, i), w)" by (metis prod.exhaust)
  show ?case
  proof (cases "e = 0 \<and> i = fid")
    case True
    then have "w = v" using snoc.prems(3) x by auto
    then show ?thesis using True x snoc.prems(1) by (simp add: reverse_elements_def reverse_step_def reversed_def)
  next
    case False
    have "((0, fid), v) \<in> set order" using snoc.prems(2) x False by fastforce
    then have "reverse_elements order m (reversePEN, fid) = Some (reversed v)"
      using snoc.prems(1,3) by (intro snoc.IH) simp_all
    then show ?thesis using False reverse_step_other [of e i fid "reverse_elements order m" w]
      by (simp add: reverse_elements_def x)
  qed
qed simp

text \<open>
  The dictionary does not depend on the order in which Go iterates over it while it is being
  extended: an element of enterprise \<open>reversePEN\<close> is the reverse of the reversible IANA element of
  the same number, and every other element is what the tables give last.
\<close>

theorem builtin_order_independent:
  assumes "range_order (install (\<lambda>k. None) rows_before) order"
  shows "builtin order (e, fid) =
    (case map_of (rev rows_after) (e, fid) of Some v \<Rightarrow> Some v
     | None \<Rightarrow>
         (case map_of (rev rows_before) (0, fid) of
            Some v \<Rightarrow> if e = reversePEN \<and> reversible fid then Some (reversed v) else map_of (rev rows_before) (e, fid)
          | None \<Rightarrow> map_of (rev rows_before) (e, fid)))"
proof -
  let ?m = "install (\<lambda>k. None) rows_before"
  have m: "?m k = map_of (rev rows_before) k" for k
    by (simp add: install_eq map_add_def split: option.splits)
  have in_order: "((0, fid), v) \<in> set order \<longleftrightarrow> map_of (rev rows_before) (0, fid) = Some v" for v
    using assms by (simp add: range_order_def m)
  have "reverse_elements order ?m (e, fid) =
      (case map_of (rev rows_before) (0, fid) of
            Some v \<Rightarrow> if e = reversePEN \<and> reversible fid then Some (reversed v) else map_of (rev rows_before) (e, fid)
          | None \<Rightarrow> map_of (rev rows_before) (e, fid))"
  proof (cases "e = reversePEN \<and> reversible fid \<and> (\<exists>v. map_of (rev rows_before) (0, fid) = Some v)")
    case True
    then obtain v where v: "map_of (rev rows_before) (0, fid) = Some v" by blast
    have "reverse_elements order ?m (reversePEN, fid) = Some (reversed v)"
      by (rule reverse_elements_in) (use True v in_order in auto)
    then show ?thesis using True v by simp
  next
    case False
    then have "reverse_elements order ?m (e, fid) = ?m (e, fid)"
      using in_order by (intro reverse_elements_other) auto
    then show ?thesis using False m by (auto split: option.splits)
  qed
  then show ?thesis by (simp add: builtin_def install_eq map_add_def split: option.splits)
qed

theorem builtin_order_independent_witness:
  "\<exists>order. range_order (install (\<lambda>k. None) rows_before) order \<and>
     builtin order (reversePEN, 7) = map_option reversed (map_of (rev rows_before) (0, 7)) \<and>
     map_of (rev rows_before) (0, 7) \<noteq> None \<and> map_of (rev rows_after) (reversePEN, 7) = None"
proof -
  let ?m = "install (\<lambda>k. None) rows_before"
  have dom: "finite (dom ?m)"
    by (rule finite_subset [OF _ finite_dom_map_of [of "rev rows_before"]]) (auto simp: install_eq map_add_def)
  obtain ks where ks: "set ks = dom ?m" using finite_list [OF dom] by blast
  let ?order = "map (\<lambda>k. (k, the (?m k))) ks"
  have order: "range_order ?m ?order"
  proof -
    have "((0, fid), v) \<in> set ?order \<longleftrightarrow> ?m (0, fid) = Some v" for fid v
      using ks by (auto simp: image_iff domIff)
    then show ?thesis by (simp add: range_order_def)
  qed
  have after: "map_of (rev rows_after) (reversePEN, 7) = None"
  proof -
    have "list_all (\<lambda>(k, v). fst k \<noteq> 29305) rows_after" by code_simp
    then show ?thesis by (auto simp: map_of_eq_None_iff list_all_iff reversePEN_def)
  qed
  have rev7: "reversible 7" by code_simp
  obtain v where "map_of (rev rows_before) (0, 7) = Some v"
  proof -
    have "(0, 7) \<in> fst ` set elements_rfc5102_1"
    proof -
      have "list_ex (\<lambda>(k, v). k = (0, 7)) elements_rfc5102_1" by code_simp
      then show ?thesis by (force simp: list_ex_iff)
    qed
    then have "(0, 7) \<in> dom (map_of (rev rows_before))"
      by (auto simp: dom_map_of_conv_image_fst rows_before_def)
    then show ?thesis using that by blast
  qed
  then show ?thesis
    using builtin_order_independent [OF order, of reversePEN 7] order after rev7 by (intro exI [of _ ?order]) simp
qed

section \<open>Elements of the tables\<close>

text \<open>Which keys a table can hold, checked entry by entry.\<close>

definition keys_within :: "(u32 \<Rightarrow> u16 \<Rightarrow> bool) \<Rightarrow> element list \<Rightarrow> bool" where
  "keys_within P rows = list_all (\<lambda>(k, v). P (fst k) (snd k)) rows"

lemma tables_keys:
  "keys_within (\<lambda>e i. e \<notin> {0, 9}) elements_a10"
  "keys_within (\<lambda>e i. e \<notin> {0, 9}) elements_cert"
  "keys_within (\<lambda>e i. (e \<noteq> 0 \<or> 1000 \<le> i) \<and> (e \<noteq> 9 \<or> i \<notin> {12230, 12231})) elements_cisco_1"
  "keys_within (\<lambda>e i. (e \<noteq> 0 \<or> 1000 \<le> i) \<and> (e \<noteq> 9 \<or> i \<notin> {12230, 12231, 12232})) elements_cisco_2"
  "keys_within (\<lambda>e i. e \<notin> {0, 9}) elements_gigamon"
  "keys_within (\<lambda>e i. e = 0 \<and> 1000 \<le> i) elements_nprobe"
  "keys_within (\<lambda>e i. e = 0 \<and> 1000 \<le> i) elements_paloalto"
  "keys_within (\<lambda>e i. e = 0 \<and> i < 140) elements_rfc5102_1"
  "keys_within (\<lambda>e i. e = 0 \<and> 140 \<le> i \<and> i < 250) elements_rfc5102_2"
  "keys_within (\<lambda>e i. e = 0 \<and> 250 \<le> i) elements_rfc5102_3"
  "keys_within (\<lambda>e i. e = 0 \<and> 250 \<le> i) elements_rfc5102_4"
  "keys_within (\<lambda>e i. e \<notin> {0, 9}) elements_silverpeak"
  "keys_within (\<lambda>e i. e \<notin> {0, 9}) elements_versa"
  "keys_within (\<lambda>e i. e \<notin> {0, 9}) elements_viptela"
  by (code_simp+)

lemma keys_within_None: "keys_within P rows \<Longrightarrow> \<not> P e i \<Longrightarrow> map_of (rev rows) (e, i) = None"
  by (force simp: keys_within_def list_all_iff map_of_eq_None_iff)

text \<open>An IANA element below 250 is looked up in its own table only.\<close>

lemma map_of_rev_append: "map_of (rev (xs @ ys)) k = (case map_of (rev ys) k of Some v \<Rightarrow> Some v | None \<Rightarrow> map_of (rev xs) k)"
  by (simp add: map_add_def)

lemma rows_before_low:
  assumes "fid < 250"
  shows "map_of (rev rows_before) (0, fid) =
    (if fid < 140 then map_of (rev elements_rfc5102_1) (0, fid) else map_of (rev elements_rfc5102_2) (0, fid))"
proof -
  have small: "\<not> 250 \<le> fid" "\<not> 1000 \<le> fid" using assms by (auto simp: not_le elim: less_trans)
  note none = tables_keys [THEN keys_within_None, where e = 0 and i = fid]
  show ?thesis
  proof (cases "fid < 140")
    case True
    then have "\<not> 140 \<le> fid" by simp
    with True show ?thesis using small
      by (simp add: rows_before_def map_of_rev_append none del: rev_append map_of_append split: option.splits)
  next
    case False
    then show ?thesis using small
      by (simp add: rows_before_def map_of_rev_append none del: rev_append map_of_append split: option.splits)
  qed
qed

lemma rows_after_iana: "map_of (rev rows_after) (0, fid) = None"
  using tables_keys(12-14) [THEN keys_within_None, where e = 0 and i = fid]
  by (simp add: rows_after_def map_of_rev_append del: rev_append map_of_append)

lemma builtin_rfc5102:
  assumes "fid < 250"
  shows "builtin order (0, fid) =
    (if fid < 140 then map_of (rev elements_rfc5102_1) (0, fid) else map_of (rev elements_rfc5102_2) (0, fid))"
proof -
  have "reverse_elements order m (0, fid) = m (0, fid)" for m
    using reversePEN_nonzero by (intro reverse_elements_other) simp
  then show ?thesis
    by (simp add: builtin_def install_eq map_add_def rows_after_iana rows_before_low [OF assms] split: option.splits)
qed

text \<open>
  The three application-classification elements of Cisco's table are all assigned to the
  key 12232: the last assignment wins, and elements 12230 and 12231 are unknown to the decoders.
\<close>

theorem cisco_application_sets_lost:
  "builtin order (9, 12230) = None \<and> builtin order (9, 12231) = None \<and>
   map_option iee_Name (builtin order (9, 12232)) = Some ''applicationCategoryName''"
proof -
  have nine: "reverse_elements order m (9, fid) = m (9, fid)" for m fid
    by (rule reverse_elements_other) (simp add: reversePEN_def)
  note none = tables_keys [THEN keys_within_None, where e = 9]
  have after: "map_of (rev rows_after) (9, fid) = None" for fid
    by (simp add: rows_after_def map_of_rev_append none del: rev_append map_of_append)
  have before: "fid \<in> {12230, 12231, 12232} \<Longrightarrow>
      map_of (rev rows_before) (9, fid) = map_of (rev elements_cisco_1) (9, fid)" for fid
    by (auto simp: rows_before_def map_of_rev_append none simp del: rev_append map_of_append split: option.splits)
  have "map_option iee_Name (map_of (rev elements_cisco_1) (9, 12232)) = Some ''applicationCategoryName''"
    by code_simp
  then show ?thesis
    by (simp add: builtin_def install_eq map_add_def nine after before none)
qed

end
