(* ===== verification/Netflow_Decoder.thy ===== *)
theory Netflow_Decoder
  imports Netflow_Fixed Netflow9 Ipfix Nf_Elements
begin

text \<open>
  The decoder that the program calls, \<open>pkg/util/netflow/decoder.go\<close>: it reads the version word of a
  datagram, puts it back in front of the rest, and hands the datagram to the decoder of that
  version.  Versions 9 and 10 share the session.
\<close>

datatype netflow_message =
    NetflowV1 netflow1_Packet
  | NetflowV5 netflow5_Packet
  | NetflowV6 netflow6_Packet
  | NetflowV7 netflow7_Packet
  | NetflowV9 nf9_Packet
  | NetflowIpfix ipfix_Message

text \<open>A decoder that keeps no session: its packet or its error.\<close>

definition sessionless :: "nf_session option \<Rightarrow> ('a \<Rightarrow> netflow_message) \<Rightarrow> nf_error + 'a \<times> u8 list \<Rightarrow> netflow_message decoded" where
  "sessionless s C r = Some (s, map_sum id (C \<circ> fst) r)"

definition with_session :: "('a \<Rightarrow> netflow_message) \<Rightarrow> 'a decoded \<Rightarrow> netflow_message decoded" where
  "with_session C = map_option (\<lambda>(s, r). (s, map_sum id C r))"

definition Decoder_Read :: "informationElements \<Rightarrow> nf_session option \<Rightarrow> u8 list \<Rightarrow> netflow_message decoded" where
  "Decoder_Read elements s bs =
     (case io_ReadFull 2 bs of
        Inl e \<Rightarrow> Some (s, Inl (VersionUnreadable e))
      | Inr (data, rest) \<Rightarrow>
          (let version = be_word data :: u16; mr = data @ rest in
           if version = 1 then sessionless s NetflowV1 (netflow1_Read mr)
           else if version = 5 then sessionless s NetflowV5 (netflow5_Read mr)
           else if version = 6 then sessionless s NetflowV6 (netflow6_Read mr)
           else if version = 7 then sessionless s NetflowV7 (netflow7_Read mr)
           else if version = 9 then with_session NetflowV9 (nf9_Read elements s None mr)
           else if version = 10 then with_session NetflowIpfix (ipfix_Read elements s None mr)
           else Some (s, Inl (UnsupportedVersion version))))"

section \<open>Safety\<close>

lemma netflow_fixed_no_panic:
  "no_panic netflow1_Read" "no_panic netflow5_Read" "no_panic netflow6_Read" "no_panic netflow7_Read"
  unfolding netflow1_Read_def netflow5_Read_def netflow6_Read_def netflow7_Read_def
    netflow1_Packet_Unmarshal_def netflow5_Packet_Unmarshal_def netflow6_Packet_Unmarshal_def netflow7_Packet_Unmarshal_def
    netflow1_PacketHeader_Unmarshal_def netflow5_PacketHeader_Unmarshal_def netflow6_PacketHeader_Unmarshal_def
    netflow7_PacketHeader_Unmarshal_def netflow1_FlowRecord_Unmarshal_def netflow5_FlowRecord_Unmarshal_def
    netflow6_FlowRecord_Unmarshal_def netflow7_FlowRecord_Unmarshal_def
  by (intro no_panic_intros no_panic_if no_panic_fail; simp)+

lemma sessionless_no_panic:
  assumes "no_panic reader"
  shows "sessionless s C (reader bs) \<noteq> Some (s', Inl (NfPanic pn))"
  using no_panicD [OF assms] by (auto simp: sessionless_def go_simps)

lemma with_session_no_panic:
  "(\<And>s' pn. m \<noteq> Some (s', Inl (NfPanic pn))) \<Longrightarrow> with_session C m \<noteq> Some (s', Inl (NfPanic pn))"
  by (auto simp: with_session_def go_simps)

text \<open>
  C27: no datagram, whatever its bytes and whatever templates the session holds, makes the
  decoder of any NetFlow version panic, although field values are read at widths that the sender's
  templates choose, and \<open>ipfix.Translate.Record\<close> guards its index one too late.
\<close>

theorem Decoder_Read_never_panics: "Decoder_Read elements s bs \<noteq> Some (s', Inl (NfPanic pn))"
  by (simp add: Decoder_Read_def io_ReadFull_def Let_def sessionless_no_panic netflow_fixed_no_panic
      with_session_no_panic nf9_Read_no_panic ipfix_Read_no_panic split: if_splits)

end
