(* ===== verification/Ic_Proto.thy ===== *)
theory Ic_Proto
  imports Kt_Types
begin

text \<open>
  The names of the IP protocols, \<open>pkg/util/ic/proto.go\<close>, and the map from names back to numbers
  that the package builds from them.
\<close>

definition proto_table :: "(u16 \<times> string) list" where
  "proto_table = [
    (0, ''HOPOPT''),
    (1, ''ICMP''),
    (2, ''IGMP''),
    (3, ''GGP''),
    (4, ''IPv4''),
    (5, ''ST''),
    (6, ''TCP''),
    (7, ''CBT''),
    (8, ''EGP''),
    (9, ''IGP''),
    (10, ''BBN-RCC-MON''),
    (11, ''NVP-II''),
    (12, ''PUP''),
    (13, ''ARGUS''),
    (14, ''EMCON''),
    (15, ''XNET''),
    (16, ''CHAOS''),
    (17, ''UDP''),
    (18, ''MUX''),
    (19, ''DCN-MEAS''),
    (20, ''HMP''),
    (21, ''PRM''),
    (22, ''XNS-IDP''),
    (23, ''TRUNK-1''),
    (24, ''TRUNK-2''),
    (25, ''LEAF-1''),
    (26, ''LEAF-2''),
    (27, ''RDP''),
    (28, ''IRTP''),
    (29, ''ISO-TP4''),
    (30, ''NETBLT''),
    (31, ''MFE-NSP''),
    (32, ''MERIT-INP''),
    (33, ''DCCP''),
    (34, ''3PC''),
    (35, ''IDPR''),
    (36, ''XTP''),
    (37, ''DDP''),
    (38, ''IDPR-CMTP''),
    (39, ''TP++''),
    (40, ''IL''),
    (41, ''IPv6''),
    (42, ''SDRP''),
    (43, ''IPv6-Route''),
    (44, ''IPv6-Frag''),
    (45, ''IDRP''),
    (46, ''RSVP''),
    (47, ''GRE''),
    (48, ''DSR''),
    (49, ''BNA''),
    (50, ''ESP''),
    (51, ''AH''),
    (52, ''I-NLSP''),
    (53, ''SWIPE (deprecated)''),
    (54, ''NARP''),
    (55, ''MOBILE''),
    (56, ''TLSP''),
    (57, ''SKIP''),
    (58, ''IPv6-ICMP''),
    (59, ''IPv6-NoNxt''),
    (60, ''IPv6-Opts''),
    (61, ''''),
    (62, ''CFTP''),
    (63, ''''),
    (64, ''SAT-EXPAK''),
    (65, ''KRYPTOLAN''),
    (66, ''RVD''),
    (67, ''IPPC''),
    (68, ''''),
    (69, ''SAT-MON''),
    (70, ''VISA''),
    (71, ''IPCV''),
    (72, ''CPNX''),
    (73, ''CPHB''),
    (74, ''WSN''),
    (75, ''PVP''),
    (76, ''BR-SAT-MON''),
    (77, ''SUN-ND''),
    (78, ''WB-MON''),
    (79, ''WB-EXPAK''),
    (80, ''ISO-IP''),
    (81, ''VMTP''),
    (82, ''SECURE-VMTP''),
    (83, ''VINES''),
    (84, ''IPTM''),
    (85, ''NSFNET-IGP''),
    (86, ''DGP''),
    (87, ''TCF''),
    (88, ''EIGRP''),
    (89, ''OSPFIGP''),
    (90, ''Sprite-RPC''),
    (91, ''LARP''),
    (92, ''MTP''),
    (93, ''AX.25''),
    (94, ''IPIP''),
    (95, ''MICP (deprecated)''),
    (96, ''SCC-SP''),
    (97, ''ETHERIP''),
    (98, ''ENCAP''),
    (99, ''''),
    (100, ''GMTP''),
    (101, ''IFMP''),
    (102, ''PNNI''),
    (103, ''PIM''),
    (104, ''ARIS''),
    (105, ''SCPS''),
    (106, ''QNX''),
    (107, ''A/N''),
    (108, ''IPComp''),
    (109, ''SNP''),
    (110, ''Compaq-Peer''),
    (111, ''IPX-in-IP''),
    (112, ''VRRP''),
    (113, ''PGM''),
    (114, ''''),
    (115, ''L2TP''),
    (116, ''DDX''),
    (117, ''IATP''),
    (118, ''STP''),
    (119, ''SRP''),
    (120, ''UTI''),
    (121, ''SMP''),
    (122, ''SM (deprecated)''),
    (123, ''PTP''),
    (124, ''ISIS over IPv4''),
    (125, ''FIRE''),
    (126, ''CRTP''),
    (127, ''CRUDP''),
    (128, ''SSCOPMCE''),
    (129, ''IPLT''),
    (130, ''SPS''),
    (131, ''PIPE''),
    (132, ''SCTP''),
    (133, ''FC''),
    (134, ''RSVP-E2E-IGNORE''),
    (135, ''Mobility Header''),
    (136, ''UDPLite''),
    (137, ''MPLS-in-IP''),
    (138, ''manet''),
    (139, ''HIP''),
    (140, ''Shim6''),
    (141, ''WESP''),
    (142, ''ROHC''),
    (143, ''Ethernet''),
    (255, ''Reserved'')]"

text \<open>Reading a Go map of strings: the empty string when the key is absent.\<close>

definition PROTO_NAMES :: "u16 \<Rightarrow> string" where
  "PROTO_NAMES k = (case map_of proto_table k of Some v \<Rightarrow> v | None \<Rightarrow> [])"

text \<open>
  The loop that inverts the table ranges over a map, so its order is an argument: a permutation of
  the table.  Several numbers have the empty name, so what that name is mapped to depends on the
  order.  A name missing from the result reads as zero.
\<close>

definition build_PROTO_NUMS :: "(u16 \<times> string) list \<Rightarrow> string \<Rightarrow> u8 option" where
  "build_PROTO_NUMS order = fold (\<lambda>(k, v) pn. pn(v \<mapsto> ucast k)) order Map.empty"

definition PROTO_NUMS :: "(u16 \<times> string) list \<Rightarrow> string \<Rightarrow> u8" where
  "PROTO_NUMS order name = (case build_PROTO_NUMS order name of Some n \<Rightarrow> n | None \<Rightarrow> 0)"

text \<open>The keys increase, and a hash tells the names apart.\<close>

fun increasing :: "int list \<Rightarrow> bool" where
  "increasing (a # b # xs) \<longleftrightarrow> a < b \<and> increasing (b # xs)"
| "increasing _ \<longleftrightarrow> True"

lemma increasing_distinct: "increasing xs \<Longrightarrow> distinct xs \<and> (\<forall>x \<in> set (tl xs). hd xs < x)"
  by (induction xs rule: increasing.induct) auto

definition name_hash :: "string \<Rightarrow> int" where
  "name_hash v = fold (\<lambda>c h. (h * 31 + of_char c) mod 65521) v 0"

lemma proto_keys: "distinct (map fst proto_table)"
proof -
  have "increasing (map (\<lambda>kv. uint (fst kv)) proto_table)"
    by code_simp
  then have "distinct (map uint (map fst proto_table))"
    using increasing_distinct by (simp add: o_def)
  then show ?thesis
    using distinct_map by blast
qed

lemma proto_names: "distinct (map snd (filter (\<lambda>kv. snd kv \<noteq> []) proto_table))"
proof -
  have "distinct (map (\<lambda>kv. name_hash (snd kv)) (filter (\<lambda>kv. snd kv \<noteq> []) proto_table))"
    by code_simp
  then have "distinct (map name_hash (map snd (filter (\<lambda>kv. snd kv \<noteq> []) proto_table)))"
    by (simp add: o_def)
  then show ?thesis
    using distinct_map by blast
qed

lemma proto_small: "(k, v) \<in> set proto_table \<Longrightarrow> k < 256"
proof -
  have "list_all (\<lambda>kv. fst kv < 256) proto_table"
    by code_simp
  then show "(k, v) \<in> set proto_table \<Longrightarrow> k < 256"
    by (auto simp: list_all_iff)
qed

lemma proto_name_unique:
  assumes "(n, v) \<in> set proto_table" "(n', v) \<in> set proto_table" "v \<noteq> []"
  shows "n' = n"
  using assms proto_names by (auto simp: distinct_map inj_on_def)

lemma fold_update_notin:
  "v \<notin> snd ` set xs \<Longrightarrow> fold (\<lambda>(k, v) pn. pn(v \<mapsto> f k)) xs m v = m v"
  by (induction xs arbitrary: m) auto

lemma fold_update_unique:
  "(n, v) \<in> set xs \<Longrightarrow> (\<And>n'. (n', v) \<in> set xs \<Longrightarrow> n' = n) \<Longrightarrow> fold (\<lambda>(k, v) pn. pn(v \<mapsto> f k)) xs m v = Some (f n)"
proof (induction xs arbitrary: m)
  case (Cons x xs)
  obtain k w where x: "x = (k, w)" by force
  show ?case
  proof (cases "v \<in> snd ` set xs")
    case True
    then obtain n' where "(n', v) \<in> set xs" by force
    moreover have "n' = n"
      by (rule Cons.prems(2)) (simp add: calculation)
    ultimately have "(n, v) \<in> set xs" by simp
    then have "fold (\<lambda>(k, v) pn. pn(v \<mapsto> f k)) xs m' v = Some (f n)" for m'
      by (rule Cons.IH) (rule Cons.prems(2), simp)
    then show ?thesis by (simp add: x del: fun_upd_apply)
  next
    case False
    then have "(n, v) \<notin> set xs" by force
    with Cons.prems(1) have "k = n" "w = v" by (simp_all add: x)
    with False show ?thesis by (simp add: x fold_update_notin del: fun_upd_apply) simp
  qed
qed simp

text \<open>A number that has a name is found again from it, whatever the order of the loop.\<close>

lemma PROTO_NUMS_NAMES:
  assumes "set order = set proto_table" "(k, v) \<in> set proto_table" "v \<noteq> []"
  shows "PROTO_NUMS order v = ucast k" and "PROTO_NAMES k = v"
proof -
  have "build_PROTO_NUMS order v = Some (ucast k)"
    unfolding build_PROTO_NUMS_def using assms proto_name_unique
    by (intro fold_update_unique) auto
  then show "PROTO_NUMS order v = ucast k" by (simp add: PROTO_NUMS_def)
  show "PROTO_NAMES k = v"
    using assms(2) proto_keys by (simp add: PROTO_NAMES_def)
qed

text \<open>The empty name: two orders of the loop give two numbers.\<close>

lemma build_PROTO_NUMS_last: "PROTO_NUMS (xs @ [(k, v)]) v = ucast k"
  by (simp add: PROTO_NUMS_def build_PROTO_NUMS_def)

lemma PROTO_NUMS_empty_name:
  assumes "(k, []) \<in> set proto_table"
  shows "\<exists>order. set order = set proto_table \<and> PROTO_NUMS order [] = ucast k"
proof -
  have "set (proto_table @ [(k, [])]) = set proto_table"
    using assms by auto
  then show ?thesis
    using build_PROTO_NUMS_last by blast
qed

lemma unnamed_protocols: "(61, []) \<in> set proto_table" "(63, []) \<in> set proto_table"
proof -
  have "list_ex (\<lambda>kv. kv = (61, [])) proto_table" "list_ex (\<lambda>kv. kv = (63, [])) proto_table"
    by code_simp+
  then show "(61, []) \<in> set proto_table" "(63, []) \<in> set proto_table"
    by (auto simp: list_ex_iff)
qed

end
