(* ===== verification/Go_Net.thy ===== *)
theory Go_Net
  imports Go_Strings
begin

text \<open>
  What the program uses of Go's package \<open>net\<close>: \<open>ParseIP\<close>, \<open>ParseCIDR\<close>, \<open>IPNet.Contains\<close>, \<open>IP.To4\<close>,
  \<open>IP.String\<close>, \<open>ParseMAC\<close> and \<open>HardwareAddr.String\<close>, with the parsers of \<open>net/netip\<close> they rest on.
  An address is its list of bytes; the nil address is the empty list.
\<close>

unbundle bit_operations_syntax

section \<open>Parsing addresses\<close>

definition octet :: "string \<Rightarrow> u8 option" where
  "octet s =
     (if s = [] \<or> \<not> list_all is_digit s \<or> (2 \<le> length s \<and> hd s = CHR ''0'') \<or> 3 < length s \<or> 255 < decimal_val s then None
      else Some (word_of_int (decimal_val s)))"

text \<open>\<open>parseIPv4Fields\<close>: four decimal fields without leading zeros.\<close>

definition parse_IPv4 :: "string \<Rightarrow> u8 list option" where
  "parse_IPv4 s =
     (case map octet (strings_Split s ''.'') of
        [Some a, Some b, Some c, Some d] \<Rightarrow> Some [a, b, c, d]
      | _ \<Rightarrow> None)"

definition hex_digit :: "char \<Rightarrow> int option" where
  "hex_digit c = (let n = of_char c :: int in
     if 48 \<le> n \<and> n \<le> 57 then Some (n - 48)
     else if 97 \<le> n \<and> n \<le> 102 then Some (n - 87)
     else if 65 \<le> n \<and> n \<le> 70 then Some (n - 55)
     else None)"

text \<open>The hex number at the head of a string: its digits and the rest.\<close>

fun hex_prefix :: "string \<Rightarrow> int list \<times> string" where
  "hex_prefix [] = ([], [])"
| "hex_prefix (c # cs) =
     (case hex_digit c of
        None \<Rightarrow> ([], c # cs)
      | Some d \<Rightarrow> (let (ds, rest) = hex_prefix cs in (d # ds, rest)))"

definition hex_value :: "int list \<Rightarrow> int" where
  "hex_value ds = foldl (\<lambda>n d. n * 16 + d) 0 ds"

text \<open>
  The loop of \<open>parseIPv6\<close>: \<open>groups\<close> counts the 16-bit chunks that still fit, \<open>ip\<close> is what has been
  written, \<open>ellipsis\<close> the position of the double colon.  It returns the bytes, the ellipsis and
  what is left of the string.
\<close>

fun parse_groups :: "nat \<Rightarrow> u8 list \<Rightarrow> nat option \<Rightarrow> string \<Rightarrow> (u8 list \<times> nat option \<times> string) option" where
  "parse_groups 0 ip ellipsis s = Some (ip, ellipsis, s)"
| "parse_groups (Suc groups) ip ellipsis s =
     (let (ds, rest) = hex_prefix s in
      if 4 < length ds \<or> ds = [] then None
      else if rest \<noteq> [] \<and> hd rest = CHR ''.'' then
        (if ellipsis = None \<and> length ip \<noteq> 12 then None
         else if 16 < length ip + 4 then None
         else case parse_IPv4 s of None \<Rightarrow> None | Some v4 \<Rightarrow> Some (ip @ v4, ellipsis, []))
      else
        (let ip' = ip @ [word_of_int (hex_value ds div 256), word_of_int (hex_value ds mod 256)] in
         case rest of
           [] \<Rightarrow> Some (ip', ellipsis, [])
         | c # s1 \<Rightarrow>
             if c \<noteq> CHR '':'' \<or> s1 = [] then None
             else if hd s1 = CHR '':'' then
               (if ellipsis \<noteq> None then None
                else if tl s1 = [] then Some (ip', Some (length ip'), [])
                else parse_groups groups ip' (Some (length ip')) (tl s1))
             else parse_groups groups ip' ellipsis s1))"

definition parse_IPv6 :: "string \<Rightarrow> u8 list option" where
  "parse_IPv6 s =
     (if CHR ''%'' \<in> set s then None
      else if s = ''::'' then Some (replicate 16 0)
      else
        (let leading = prefix ''::'' s in
         case parse_groups 8 [] (if leading then Some 0 else None) (if leading then drop 2 s else s) of
           None \<Rightarrow> None
         | Some (ip, ellipsis, rest) \<Rightarrow>
             if rest \<noteq> [] then None
             else if length ip < 16 then
               (case ellipsis of
                  None \<Rightarrow> None
                | Some e \<Rightarrow> Some (take e ip @ replicate (16 - length ip) 0 @ drop e ip))
             else if ellipsis \<noteq> None then None
             else Some ip))"

definition v4InV6Prefix :: "u8 list" where
  "v4InV6Prefix = replicate 10 0 @ [0xff, 0xff]"

datatype netip_addr = IPv4Addr "u8 list" | IPv6Addr "u8 list"

text \<open>\<open>netip.ParseAddr\<close> without a zone; both callers refuse a zone.\<close>

definition netip_ParseAddr :: "string \<Rightarrow> netip_addr option" where
  "netip_ParseAddr s =
     (case find (\<lambda>c. c \<in> set ''.:%'') s of
        None \<Rightarrow> None
      | Some c \<Rightarrow>
          if c = CHR ''.'' then map_option IPv4Addr (parse_IPv4 s)
          else if c = CHR '':'' then map_option IPv6Addr (parse_IPv6 s)
          else None)"

fun netip_As16 :: "netip_addr \<Rightarrow> u8 list" where
  "netip_As16 (IPv4Addr b) = v4InV6Prefix @ b"
| "netip_As16 (IPv6Addr b) = b"

fun netip_BitLen :: "netip_addr \<Rightarrow> nat" where
  "netip_BitLen (IPv4Addr b) = 32"
| "netip_BitLen (IPv6Addr b) = 128"

definition net_ParseIP :: "string \<Rightarrow> u8 list" where
  "net_ParseIP s = (case netip_ParseAddr s of None \<Rightarrow> [] | Some a \<Rightarrow> netip_As16 a)"

text \<open>\<open>IP.To4\<close>; the empty list is nil.\<close>

definition IP_To4 :: "u8 list \<Rightarrow> u8 list" where
  "IP_To4 ip =
     (if length ip = 4 then ip
      else if length ip = 16 \<and> take 12 ip = v4InV6Prefix then drop 12 ip
      else [])"

section \<open>Networks\<close>

record IPNet =
  ipnet_IP :: "u8 list"
  ipnet_Mask :: "u8 list"

text \<open>\<open>CIDRMask(ones, bits)\<close>.\<close>

fun CIDRMask :: "nat \<Rightarrow> nat \<Rightarrow> u8 list" where
  "CIDRMask ones 0 = []"
| "CIDRMask ones (Suc bytes) =
     (if 8 \<le> ones then 0xff # CIDRMask (ones - 8) bytes else NOT (drop_bit ones 0xff) # CIDRMask 0 bytes)"

text \<open>\<open>IP.Mask\<close> for the two lengths that \<open>ParseCIDR\<close> passes.\<close>

definition IP_Mask :: "u8 list \<Rightarrow> u8 list \<Rightarrow> u8 list" where
  "IP_Mask ip msk =
     (let ip' = (if length msk = 4 \<and> length ip = 16 \<and> take 12 ip = v4InV6Prefix then drop 12 ip else ip) in
      if length ip' \<noteq> length msk then [] else map2 (AND) ip' msk)"

definition net_ParseCIDR :: "string \<Rightarrow> IPNet option" where
  "net_ParseCIDR s =
     (case strings_Index s ''/'' of
        None \<Rightarrow> None
      | Some i \<Rightarrow>
          (case netip_ParseAddr (take i s) of
             None \<Rightarrow> None
           | Some a \<Rightarrow>
               (let msk = drop (Suc i) s in
                if msk = [] \<or> \<not> list_all is_digit msk \<or> int (netip_BitLen a) < decimal_val msk then None
                else (let m = CIDRMask (nat (decimal_val msk)) (netip_BitLen a div 8) in
                  Some \<lparr>ipnet_IP = IP_Mask (netip_As16 a) m, ipnet_Mask = m\<rparr>))))"

text \<open>\<open>IPNet.Contains\<close> for a network made by \<open>ParseCIDR\<close>: a mask of four bytes comes with an address
  of four bytes; an IPv4-mapped network of sixteen bytes is compared by its last four.\<close>

definition IPNet_Contains :: "IPNet \<Rightarrow> u8 list \<Rightarrow> bool" where
  "IPNet_Contains n ip =
     (let nn = (if IP_To4 (ipnet_IP n) \<noteq> [] then IP_To4 (ipnet_IP n)
                else if length (ipnet_IP n) = 16 then ipnet_IP n else []);
          m = (if length (ipnet_Mask n) = 16 \<and> length nn = 4 then drop 12 (ipnet_Mask n) else ipnet_Mask n);
          ip' = (if IP_To4 ip \<noteq> [] then IP_To4 ip else ip)
      in length ip' = length nn \<and> list_all (\<lambda>((a, b), k). a AND k = b AND k) (zip (zip nn ip') m))"

section \<open>Printing\<close>

definition IPv4_String :: "u8 list \<Rightarrow> string" where
  "IPv4_String b = strings_Join (map (\<lambda>w. nat_digits (unat w)) b) ''.''"

definition hex_char :: "int \<Rightarrow> char" where
  "hex_char n = (if n < 10 then char_of (n + 48) else char_of (n + 87))"

text \<open>A 16-bit group in hex without leading zeros.\<close>

definition hex_group :: "int \<Rightarrow> string" where
  "hex_group n =
     (if 0x1000 \<le> n then [hex_char (n div 0x1000)] else []) @
     (if 0x100 \<le> n then [hex_char (n div 0x100 mod 16)] else []) @
     (if 0x10 \<le> n then [hex_char (n div 0x10 mod 16)] else []) @
     [hex_char (n mod 16)]"

fun v6_groups :: "u8 list \<Rightarrow> int list" where
  "v6_groups (a # b # rest) = (uint a * 256 + uint b) # v6_groups rest"
| "v6_groups _ = []"

definition zero_run :: "int list \<Rightarrow> nat \<Rightarrow> nat" where
  "zero_run gs i = length (takeWhile (\<lambda>g. g = 0) (drop i gs))"

text \<open>The longest run of at least two zero groups, the first one of that length.\<close>

definition longest_zero_run :: "int list \<Rightarrow> (nat \<times> nat) option" where
  "longest_zero_run gs =
     foldl (\<lambda>best i. let l = zero_run gs i in
        if 2 \<le> l \<and> (case best of None \<Rightarrow> True | Some (s, n) \<Rightarrow> n < l) then Some (i, l) else best) None [0..<length gs]"

definition IPv6_String :: "u8 list \<Rightarrow> string" where
  "IPv6_String b =
     (let gs = v6_groups b; txt = (\<lambda>xs. strings_Join (map hex_group xs) '':'') in
      case longest_zero_run gs of
        None \<Rightarrow> txt gs
      | Some (s, n) \<Rightarrow> txt (take s gs) @ ''::'' @ txt (drop (s + n) gs))"

definition hex_byte :: "u8 \<Rightarrow> string" where
  "hex_byte w = [hex_char (uint w div 16), hex_char (uint w mod 16)]"

definition IP_String :: "u8 list \<Rightarrow> string" where
  "IP_String ip =
     (if ip = [] then ''<nil>''
      else if length ip \<noteq> 4 \<and> length ip \<noteq> 16 then CHR ''?'' # concat (map hex_byte ip)
      else if IP_To4 ip \<noteq> [] then IPv4_String (IP_To4 ip)
      else IPv6_String ip)"

definition HardwareAddr_String :: "u8 list \<Rightarrow> string" where
  "HardwareAddr_String a = strings_Join (map hex_byte a) '':''"

text \<open>
  \<open>ParseMAC\<close>: pairs of hex digits separated by colons or hyphens, or groups of four separated by
  dots; 6, 8 or 20 bytes.  The empty list is the error.
\<close>

fun xtoi2 :: "string \<Rightarrow> u8 option" where
  "xtoi2 [a, b] = (case (hex_digit a, hex_digit b) of
      (Some x, Some y) \<Rightarrow> Some (word_of_int (x * 16 + y)) | _ \<Rightarrow> None)"
| "xtoi2 _ = None"

fun xtoi4 :: "string \<Rightarrow> u8 list option" where
  "xtoi4 [a, b, c, d] = (case (xtoi2 [a, b], xtoi2 [c, d]) of
      (Some x, Some y) \<Rightarrow> Some [x, y] | _ \<Rightarrow> None)"
| "xtoi4 _ = None"

definition net_ParseMAC :: "string \<Rightarrow> u8 list" where
  "net_ParseMAC s =
     (if length s < 14 then []
      else if s ! 2 = CHR '':'' \<or> s ! 2 = CHR ''-'' then
        (let pieces = map xtoi2 (strings_Split s [s ! 2]) in
         if None \<in> set pieces \<or> length pieces \<notin> {6, 8, 20} then [] else map the pieces)
      else if s ! 4 = CHR ''.'' then
        (let pieces = map xtoi4 (strings_Split s ''.'') in
         if None \<in> set pieces \<or> 2 * length pieces \<notin> {6, 8, 20} then [] else concat (map the pieces))
      else [])"

end
