(* ===== verification/Netflow_Export.thy ===== *)
theory Netflow_Export
  imports Netflow_Decoder Ic_Proto Go_Net
begin

text \<open>
  The NetFlow formatter of \<open>pkg/formats/netflow\<close> (\<open>netflow.go\<close>, \<open>ipfix.go\<close>, \<open>netflow9.go\<close>,
  \<open>template-tracker.go\<close>): \<open>To\<close> writes flows as one IPFIX message or NetFlow 9 packet, \<open>From\<close> reads
  such a message back with the decoder of \<open>pkg/util/netflow\<close>.  Writing into a \<open>bytes.Buffer\<close> cannot
  fail, so the error results of the encoders are left out.
\<close>

unbundle bit_operations_syntax

section \<open>The template\<close>

text \<open>The information elements and their lengths, in the order of the code.\<close>

definition export_fields :: "(u16 \<times> u16) list" where
  "export_fields =
     [(4, 1), (5, 1), (6, 2), (56, 6), (80, 6), (8, 4), (12, 4), (7, 2), (11, 2), (27, 16), (28, 16),
      (16, 4), (17, 4), (10, 4), (14, 4), (1, 8), (23, 8), (2, 8), (24, 8), (138, 8), (150, 4), (151, 4)]"

definition templateId :: u16 where
  "templateId = 256"

definition encodeTemplate :: "u16 \<Rightarrow> u8 list" where
  "encodeTemplate tempId =
     be_put 2 tempId @ be_put 2 (of_nat (length export_fields) :: u16) @
     concat (map (\<lambda>(t, l). be_put 2 t @ be_put 2 l) export_fields)"

section \<open>A flow\<close>

definition IP_To16 :: "u8 list \<Rightarrow> u8 list" where
  "IP_To16 ip = (if length ip = 4 then v4InV6Prefix @ ip else if length ip = 16 then ip else [])"

definition ip2int :: "u8 list \<Rightarrow> u32 \<times> u8 list" where
  "ip2int ip =
     (if ip = [] then (0, [])
      else if IP_To4 ip \<noteq> [] then (be_word (IP_To4 ip), [])
      else (0, IP_To16 ip))"

definition or_empty :: "nat \<Rightarrow> u8 list \<Rightarrow> u8 list" where
  "or_empty n bs = (if bs = [] then replicate n 0 else bs)"

text \<open>The bytes of one field.  The order in which the map of protocol names was inverted is an argument.\<close>

definition field_bytes :: "(u16 \<times> string) list \<Rightarrow> JCHF \<Rightarrow> u16 \<Rightarrow> u8 list" where
  "field_bytes order flow typ =
     (let src = ip2int (net_ParseIP (SrcAddr flow)); dst = ip2int (net_ParseIP (DstAddr flow)) in
      if typ = 4 then [PROTO_NUMS order (Protocol flow)]
      else if typ = 5 then [ucast (Tos flow)]
      else if typ = 6 then be_put 2 (ucast (TcpFlags flow) :: u16)
      else if typ = 56 then take 6 (or_empty 6 (net_ParseMAC (SrcEthMac flow)))
      else if typ = 80 then take 6 (or_empty 6 (net_ParseMAC (DstEthMac flow)))
      else if typ = 8 then be_put 4 (fst src)
      else if typ = 12 then be_put 4 (fst dst)
      else if typ = 7 then be_put 2 (ucast (L4SrcPort flow) :: u16)
      else if typ = 11 then be_put 2 (ucast (L4DstPort flow) :: u16)
      else if typ = 27 then or_empty 16 (snd src)
      else if typ = 28 then or_empty 16 (snd dst)
      else if typ = 16 then be_put 4 (SrcAs flow)
      else if typ = 17 then be_put 4 (DstAs flow)
      else if typ = 10 then be_put 4 (ucast (InputPort flow) :: u32)
      else if typ = 14 then be_put 4 (ucast (OutputPort flow) :: u32)
      else if typ = 1 then be_put 8 (InBytes flow)
      else if typ = 23 then be_put 8 (OutBytes flow)
      else if typ = 2 then be_put 8 (InPkts flow)
      else if typ = 24 then be_put 8 (OutPkts flow)
      else if typ = 138 then be_put 8 (push_bit 32 (CompanyId flow AND 0xffff) + DeviceId flow)
      else if typ = 150 then be_put 4 (ucast (Timestamp flow) :: u32)
      else if typ = 151 then be_put 4 (ucast (Timestamp flow + 60) :: u32)
      else [])"

definition encodeFlow :: "(u16 \<times> string) list \<Rightarrow> JCHF \<Rightarrow> u8 list" where
  "encodeFlow order flow = concat (map (\<lambda>(t, l). field_bytes order flow t) export_fields)"

section \<open>Messages\<close>

definition writeWithHeader :: "u16 \<Rightarrow> u8 list \<Rightarrow> u8 list" where
  "writeWithHeader ID body = be_put 2 ID @ be_put 2 (of_nat (length body + 4) :: u16) @ body"

text \<open>The padding: as many zero bytes as the length is past a multiple of four.\<close>

definition padded_flow :: "u8 list \<Rightarrow> u8 list" where
  "padded_flow flow = (let n = length flow mod 4 in if 0 < n then flow @ replicate n 0 else flow)"

definition write_flows :: "(u16 \<times> string) list \<Rightarrow> JCHF list \<Rightarrow> u8 list" where
  "write_flows order msgs = concat (map (\<lambda>m. writeWithHeader templateId (padded_flow (encodeFlow order m))) msgs)"

definition packIpfix :: "(u16 \<times> string) list \<Rightarrow> JCHF list \<Rightarrow> u8 list option" where
  "packIpfix order msgs =
     (if msgs = [] then None
      else let dataBuf = writeWithHeader 2 (encodeTemplate templateId) @ write_flows order msgs in
        Some (be_put 2 (10 :: u16) @ be_put 2 (of_nat (length dataBuf + 16) :: u16) @
          be_put 4 (0 :: u32) @ be_put 4 (0 :: u32) @ be_put 4 (0 :: u32) @ dataBuf))"

definition pack9 :: "(u16 \<times> string) list \<Rightarrow> JCHF list \<Rightarrow> u8 list option" where
  "pack9 order flows =
     Some (be_put 2 (9 :: u16) @ be_put 2 (of_nat (length flows + 1) :: u16) @
       be_put 4 (0 :: u32) @ be_put 4 (0 :: u32) @ be_put 4 (0 :: u32) @ be_put 4 (0 :: u32) @
       writeWithHeader 0 (encodeTemplate templateId) @ write_flows order flows)"

section \<open>The formatter\<close>

type_synonym template_tracker = "u32 \<Rightarrow> (u16 \<Rightarrow> string option) option"

record NetflowFormat =
  nff_s :: nf_session
  nff_templateTracker :: template_tracker
  nff_version :: u16

datatype nff_error = UnsupportedNetflowVersion string | CompressionNotAllowed
  | UnsupportedVersionNumber | NotNetflow | NetflowDecode nf_error | NetflowPanic go_panic

definition NewNetflowFormat :: "bool \<Rightarrow> string \<Rightarrow> nff_error + NetflowFormat" where
  "NewNetflowFormat compressed version =
     (let f = \<lparr>nff_s = session_New, nff_templateTracker = Map.empty, nff_version = 0\<rparr> in
      if version = ''ipfix'' then (if compressed then Inl CompressionNotAllowed else Inr (f\<lparr>nff_version := 10\<rparr>))
      else if version = ''netflow9'' then (if compressed then Inl CompressionNotAllowed else Inr (f\<lparr>nff_version := 9\<rparr>))
      else Inl (UnsupportedNetflowVersion version))"

definition NetflowFormat_To :: "(u16 \<times> string) list \<Rightarrow> NetflowFormat \<Rightarrow> JCHF list \<Rightarrow> nff_error + u8 list option" where
  "NetflowFormat_To order f msgs =
     (if nff_version f = 9 then Inr (pack9 order msgs)
      else if nff_version f = 10 then Inr (packIpfix order msgs)
      else Inl UnsupportedVersionNumber)"

text \<open>The tracker only remembers the text of every template to log a change.\<close>

definition addTemplate :: "u32 \<Rightarrow> u16 \<Rightarrow> string \<Rightarrow> template_tracker \<Rightarrow> template_tracker" where
  "addTemplate srcId tid templateStr tracker =
     (let inner = (case tracker srcId of Some m \<Rightarrow> m | None \<Rightarrow> Map.empty) in
      if templateStr \<noteq> (case inner tid of Some t \<Rightarrow> t | None \<Rightarrow> [])
      then tracker(srcId \<mapsto> inner(tid \<mapsto> templateStr)) else tracker(srcId \<mapsto> inner))"

definition ipfix_template_text :: "ipfix_TemplateRecord \<Rightarrow> string" where
  "ipfix_template_text tr = concat (map (\<lambda>fs. nat_digits (unat (ipfix_fs_EnterpriseNumber fs)) @ '':'' @
     nat_digits (unat (ipfix_fs_InformationElementID fs)) @ '' ('' @ nat_digits (unat (ipfix_fs_Length fs)) @ ''), '')
     (ipfix_tr_Fields tr))"

definition nf9_template_text :: "nf9_TemplateRecord \<Rightarrow> string" where
  "nf9_template_text tr = concat (map (\<lambda>fs. nat_digits (unat (nf9_fs_Type fs)) @ '' ('' @
     nat_digits (unat (nf9_fs_Length fs)) @ ''), '') (nf9_tr_Fields tr))"

text \<open>
  \<open>setCHFField\<close>: the value must have the dynamic type that the field asks for; \<open>None\<close> is the
  result false, on which the caller throws the record away.
\<close>

definition setCHFField :: "JCHF \<Rightarrow> u16 \<Rightarrow> tvalue \<Rightarrow> JCHF option" where
  "setCHFField flow ID value =
     (if ID = 4 then (case value of TU8 v \<Rightarrow> Some (flow\<lparr>Protocol := PROTO_NAMES (ucast v)\<rparr>) | _ \<Rightarrow> None)
      else if ID = 5 then (case value of TU8 v \<Rightarrow> Some (flow\<lparr>Tos := ucast v\<rparr>) | _ \<Rightarrow> None)
      else if ID = 6 then (case value of TU16 v \<Rightarrow> Some (flow\<lparr>TcpFlags := ucast v\<rparr>) | _ \<Rightarrow> None)
      else if ID = 7 then (case value of TU16 v \<Rightarrow> Some (flow\<lparr>L4SrcPort := ucast v\<rparr>) | _ \<Rightarrow> None)
      else if ID = 11 then (case value of TU16 v \<Rightarrow> Some (flow\<lparr>L4DstPort := ucast v\<rparr>) | _ \<Rightarrow> None)
      else if ID = 8 then (case value of TIP a \<Rightarrow>
          Some (if IP_String a \<noteq> ''0.0.0.0'' then flow\<lparr>SrcAddr := IP_String a\<rparr> else flow) | _ \<Rightarrow> None)
      else if ID = 12 then (case value of TIP a \<Rightarrow>
          Some (if IP_String a \<noteq> ''0.0.0.0'' then flow\<lparr>DstAddr := IP_String a\<rparr> else flow) | _ \<Rightarrow> None)
      else if ID = 27 then (case value of TIP a \<Rightarrow>
          Some (if IP_String a \<noteq> ''::'' then flow\<lparr>SrcAddr := IP_String a\<rparr> else flow) | _ \<Rightarrow> None)
      else if ID = 28 then (case value of TIP a \<Rightarrow>
          Some (if IP_String a \<noteq> ''::'' then flow\<lparr>DstAddr := IP_String a\<rparr> else flow) | _ \<Rightarrow> None)
      else if ID = 10 then (case value of TU32 v \<Rightarrow> Some (flow\<lparr>InputPort := ucast v\<rparr>) | _ \<Rightarrow> None)
      else if ID = 14 then (case value of TU32 v \<Rightarrow> Some (flow\<lparr>OutputPort := ucast v\<rparr>) | _ \<Rightarrow> None)
      else if ID = 16 then (case value of TU32 v \<Rightarrow> Some (flow\<lparr>SrcAs := v\<rparr>) | _ \<Rightarrow> None)
      else if ID = 17 then (case value of TU32 v \<Rightarrow> Some (flow\<lparr>DstAs := v\<rparr>) | _ \<Rightarrow> None)
      else if ID = 2 then (case value of TU64 v \<Rightarrow> Some (flow\<lparr>InPkts := v\<rparr>) | _ \<Rightarrow> None)
      else if ID = 1 then (case value of TU64 v \<Rightarrow> Some (flow\<lparr>InBytes := v\<rparr>) | _ \<Rightarrow> None)
      else if ID = 24 then (case value of TU64 v \<Rightarrow> Some (flow\<lparr>OutPkts := v\<rparr>) | _ \<Rightarrow> None)
      else if ID = 23 then (case value of TU64 v \<Rightarrow> Some (flow\<lparr>OutBytes := v\<rparr>) | _ \<Rightarrow> None)
      else if ID = 56 then (case value of TMac a \<Rightarrow> Some (flow\<lparr>SrcEthMac := HardwareAddr_String a\<rparr>) | _ \<Rightarrow> None)
      else if ID = 80 then (case value of TMac a \<Rightarrow> Some (flow\<lparr>DstEthMac := HardwareAddr_String a\<rparr>) | _ \<Rightarrow> None)
      else if ID = 150 then (case value of TTime s ns \<Rightarrow> Some (flow\<lparr>Timestamp := word_of_int s\<rparr>) | _ \<Rightarrow> None)
      else Some flow)"

text \<open>A record: the fields that were translated, in order.\<close>

fun set_fields :: "(u16 \<times> tvalue) list \<Rightarrow> JCHF \<Rightarrow> JCHF option" where
  "set_fields [] res = Some res"
| "set_fields ((ID, v) # fs) res = (case setCHFField res ID v of None \<Rightarrow> None | Some res' \<Rightarrow> set_fields fs res')"

definition decodeIpfixRecord :: "ipfix_DataRecord \<Rightarrow> JCHF option" where
  "decodeIpfixRecord dr = set_fields (concat (map (\<lambda>f. case ipfix_f_Translated f of
       Some tf \<Rightarrow> [(ipfix_tf_InformationElementID tf, ipfix_tf_Value tf)] | None \<Rightarrow> []) (ipfix_dr_Fields dr))) NewJCHF"

definition decodeIpfix :: "ipfix_Message \<Rightarrow> template_tracker \<Rightarrow> JCHF list \<times> template_tracker" where
  "decodeIpfix msg tracker =
     (List.map_filter decodeIpfixRecord (concat (map ipfix_ds_Records (ipfix_DataSets msg))),
      fold (\<lambda>tr. addTemplate (ipfix_h_ObservationDomainID (ipfix_Header msg)) (ipfix_tr_TemplateID tr) (ipfix_template_text tr))
        (concat (map ipfix_ts_Records (ipfix_TemplateSets msg))) tracker)"

definition decodeV9Record :: "nf9_DataRecord \<Rightarrow> JCHF option" where
  "decodeV9Record dr = set_fields (concat (map (\<lambda>f. case nf9_f_Translated f of
       Some tf \<Rightarrow> [(nf9_tf_Type tf, nf9_tf_Value tf)] | None \<Rightarrow> []) (nf9_dr_Fields dr))) NewJCHF"

definition decodeV9 :: "nf9_Packet \<Rightarrow> template_tracker \<Rightarrow> JCHF list \<times> template_tracker" where
  "decodeV9 msg tracker =
     (List.map_filter decodeV9Record (concat (map nf9_dfs_Records (nf9_DataFlowSets msg))),
      fold (\<lambda>tr. addTemplate (nf9_h_SourceID (nf9_Header msg)) (nf9_tr_TemplateID tr) (nf9_template_text tr))
        (concat (map nf9_tfs_Records (nf9_TemplateFlowSets msg))) tracker)"

definition flow_maps :: "JCHF list \<Rightarrow> nff_error + gmap list" where
  "flow_maps chfs = map_sum NetflowPanic id (go_mapM (\<lambda>j. map_sum id fst (JCHF_ToMap j)) chfs)"

text \<open>\<open>From\<close>; \<open>None\<close> means that the decoder does not return.\<close>

definition NetflowFormat_From :: "informationElements \<Rightarrow> NetflowFormat \<Rightarrow> u8 list \<Rightarrow>
    (NetflowFormat \<times> (nff_error + gmap list)) option" where
  "NetflowFormat_From elements f raw =
     map_option (\<lambda>(s, r).
       let f' = f\<lparr>nff_s := the s\<rparr> in
       case r of
         Inl e \<Rightarrow> (f', Inl (NetflowDecode e))
       | Inr (NetflowV9 p) \<Rightarrow>
           (let (chfs, tracker) = decodeV9 p (nff_templateTracker f) in
            (f'\<lparr>nff_templateTracker := tracker\<rparr>, flow_maps chfs))
       | Inr (NetflowIpfix p) \<Rightarrow>
           (let (chfs, tracker) = decodeIpfix p (nff_templateTracker f) in
            (f'\<lparr>nff_templateTracker := tracker\<rparr>, flow_maps chfs))
       | Inr _ \<Rightarrow> (f', Inl NotNetflow)) (Decoder_Read elements (Some (nff_s f)) raw)"

section \<open>The layout of a flow\<close>

lemma xtoi4_length: "xtoi4 x = Some y \<Longrightarrow> length y = 2"
  by (cases x rule: xtoi4.cases) (auto split: option.splits prod.splits)

lemma concat_xtoi4_length: "None \<notin> xtoi4 ` set xs \<Longrightarrow> length (concat (map (the \<circ> xtoi4) xs)) = 2 * length xs"
proof (induction xs)
  case (Cons x xs)
  then obtain y where "xtoi4 x = Some y" by (cases "xtoi4 x") auto
  with xtoi4_length [OF this] Cons show ?case by simp
qed simp

lemma ParseMAC_length: "net_ParseMAC s = [] \<or> 6 \<le> length (net_ParseMAC s)"
proof -
  have "6 \<le> length (concat (map (the \<circ> xtoi4) xs))" if "None \<notin> xtoi4 ` set xs" "2 * length xs \<in> {6, 8, 20}" for xs
    using that concat_xtoi4_length [OF that(1)] by fastforce
  then show ?thesis
    unfolding net_ParseMAC_def Let_def by auto
qed

lemma or_empty_length: "bs = [] \<or> n \<le> length bs \<Longrightarrow> length (take n (or_empty n bs)) = n"
  by (auto simp: or_empty_def)

lemma ip2int_length: "snd (ip2int ip) = [] \<or> length (snd (ip2int ip)) = 16"
  by (auto simp: ip2int_def IP_To16_def v4InV6Prefix_def)

lemma mac_length: "length (take 6 (or_empty 6 (net_ParseMAC s))) = 6"
  by (rule or_empty_length [OF ParseMAC_length])

lemma or_empty_16: "length (or_empty 16 (snd (ip2int ip))) = 16"
  using ip2int_length [of ip] by (auto simp: or_empty_def)

lemma field_bytes_length:
  "(t, l) \<in> set export_fields \<Longrightarrow> length (field_bytes order m t) = unat l"
proof -
  have "list_all (\<lambda>(t, l). length (field_bytes order m t) = unat l) export_fields"
    by (simp add: export_fields_def field_bytes_def Let_def mac_length or_empty_16 del: length_take)
  then show "(t, l) \<in> set export_fields \<Longrightarrow> length (field_bytes order m t) = unat l"
    by (auto simp: list_all_iff)
qed

lemma encodeFlow_length: "length (encodeFlow order m) = 124"
proof -
  have "length (encodeFlow order m) = (\<Sum>tl\<leftarrow>export_fields. length (field_bytes order m (fst tl)))"
    by (simp add: encodeFlow_def length_concat o_def case_prod_unfold)
  also have "\<dots> = (\<Sum>tl\<leftarrow>export_fields. unat (snd tl))"
    using field_bytes_length by (intro arg_cong [of _ _ sum_list] map_cong) auto
  also have "\<dots> = 124"
    by (simp add: export_fields_def)
  finally show ?thesis .
qed

lemma padded_flow_encodeFlow [simp]: "padded_flow (encodeFlow order m) = encodeFlow order m"
  by (simp add: padded_flow_def encodeFlow_length)

lemma encodeTemplate_length: "length (encodeTemplate tid) = 92"
  by (simp add: encodeTemplate_def export_fields_def)

section \<open>The values that the decoder gives to the fields\<close>

definition export_types :: "FieldType list" where
  "export_types =
     [FT_Uint8, FT_Uint8, FT_Uint16, FT_MacAddress, FT_MacAddress, FT_Ipv4Address, FT_Ipv4Address, FT_Uint16, FT_Uint16,
      FT_Ipv6Address, FT_Ipv6Address, FT_Uint32, FT_Uint32, FT_Uint32, FT_Uint32, FT_Uint64, FT_Uint64, FT_Uint64,
      FT_Uint64, FT_Uint64, FT_DateTimeSeconds, FT_DateTimeSeconds]"

lemma export_elements:
  "list_all2 (\<lambda>(t, l) ty. map_option iee_Type (builtin ord (0, t)) = Some ty) export_fields export_types"
proof -
  have "list_all2 (\<lambda>(t, l) ty. map_option iee_Type (map_of (rev elements_rfc5102_1) (0, t)) = Some ty)
      (take 20 export_fields) (take 20 export_types)"
    by code_simp
  moreover have "list_all2 (\<lambda>(t, l) ty. map_option iee_Type (map_of (rev elements_rfc5102_2) (0, t)) = Some ty)
      (drop 20 export_fields) (drop 20 export_types)"
    by code_simp
  ultimately show ?thesis
    by (simp add: export_fields_def export_types_def builtin_rfc5102)
qed

text \<open>The value of a field.\<close>

definition field_value :: "(u16 \<times> string) list \<Rightarrow> JCHF \<Rightarrow> u16 \<Rightarrow> FieldType \<Rightarrow> tvalue" where
  "field_value order m t ty = projr (translate_Bytes (field_bytes order m t) ty)"

definition address_out :: "string \<Rightarrow> string" where
  "address_out a =
     (let (v4, v6) = ip2int (net_ParseIP a); s4 = IP_String (be_put 4 v4); s6 = IP_String (or_empty 16 v6) in
      if s6 \<noteq> ''::'' then s6 else if s4 \<noteq> ''0.0.0.0'' then s4 else [])"

definition mac_out :: "string \<Rightarrow> string" where
  "mac_out a = HardwareAddr_String (take 6 (or_empty 6 (net_ParseMAC a)))"

text \<open>The flow that comes back: every field at the width it has on the wire.\<close>

definition exported :: "(u16 \<times> string) list \<Rightarrow> JCHF \<Rightarrow> JCHF" where
  "exported order m = NewJCHF\<lparr>
     Protocol := PROTO_NAMES (ucast (PROTO_NUMS order (Protocol m))),
     Tos := ucast (ucast (Tos m) :: u8), TcpFlags := ucast (ucast (TcpFlags m) :: u16),
     SrcEthMac := mac_out (SrcEthMac m), DstEthMac := mac_out (DstEthMac m),
     SrcAddr := address_out (SrcAddr m), DstAddr := address_out (DstAddr m),
     L4SrcPort := ucast (ucast (L4SrcPort m) :: u16), L4DstPort := ucast (ucast (L4DstPort m) :: u16),
     SrcAs := SrcAs m, DstAs := DstAs m,
     InputPort := ucast (ucast (InputPort m) :: u32), OutputPort := ucast (ucast (OutputPort m) :: u32),
     InBytes := InBytes m, OutBytes := OutBytes m, InPkts := InPkts m, OutPkts := OutPkts m,
     Timestamp := ucast (ucast (Timestamp m) :: u32)\<rparr>"

lemma translate_Bytes_mac: "length bs = 6 \<Longrightarrow> translate_Bytes bs FT_MacAddress = Inr (TMac bs)"
  by (simp add: translate_Bytes_def)

lemma translate_Bytes_ip:
  "length bs = 4 \<Longrightarrow> translate_Bytes bs FT_Ipv4Address = Inr (TIP bs)"
  "length bs = 16 \<Longrightarrow> translate_Bytes bs FT_Ipv6Address = Inr (TIP bs)"
  by (simp_all add: translate_Bytes_def)

lemma translate_Bytes_or_empty:
  "translate_Bytes (take 6 (or_empty 6 (net_ParseMAC s))) FT_MacAddress = Inr (TMac (take 6 (or_empty 6 (net_ParseMAC s))))"
  by (rule translate_Bytes_mac [OF mac_length])

lemma field_values:
  "map2 (\<lambda>(t, l) ty. (t, field_value order m t ty)) export_fields export_types =
     [(4, TU8 (PROTO_NUMS order (Protocol m))), (5, TU8 (ucast (Tos m))), (6, TU16 (ucast (TcpFlags m))),
      (56, TMac (take 6 (or_empty 6 (net_ParseMAC (SrcEthMac m))))), (80, TMac (take 6 (or_empty 6 (net_ParseMAC (DstEthMac m))))),
      (8, TIP (be_put 4 (fst (ip2int (net_ParseIP (SrcAddr m)))))), (12, TIP (be_put 4 (fst (ip2int (net_ParseIP (DstAddr m)))))),
      (7, TU16 (ucast (L4SrcPort m))), (11, TU16 (ucast (L4DstPort m))),
      (27, TIP (or_empty 16 (snd (ip2int (net_ParseIP (SrcAddr m)))))), (28, TIP (or_empty 16 (snd (ip2int (net_ParseIP (DstAddr m)))))),
      (16, TU32 (SrcAs m)), (17, TU32 (DstAs m)), (10, TU32 (ucast (InputPort m))), (14, TU32 (ucast (OutputPort m))),
      (1, TU64 (InBytes m)), (23, TU64 (OutBytes m)), (2, TU64 (InPkts m)), (24, TU64 (OutPkts m)),
      (138, TU64 (push_bit 32 (CompanyId m AND 0xffff) + DeviceId m)),
      (150, TTime (uint (ucast (Timestamp m) :: u32)) 0), (151, TTime (uint (ucast (Timestamp m + 60) :: u32)) 0)]"
  by (simp add: export_fields_def export_types_def field_value_def field_bytes_def Let_def rd_simps
      translate_Bytes_or_empty translate_Bytes_ip or_empty_16)

lemma set_fields_exported:
  "set_fields (map2 (\<lambda>(t, l) ty. (t, field_value order m t ty)) export_fields export_types) NewJCHF =
     Some (exported order m)"
  unfolding field_values
  by (simp add: setCHFField_def exported_def address_out_def mac_out_def NewJCHF_def zero_JCHF_def case_prod_unfold Let_def)

end
