(* ===== verification/Net_Text.thy ===== *)
theory Net_Text
  imports Go_Net
begin

text \<open>
  The printed forms of IPv4 and hardware addresses are read back by \<open>ParseIP\<close> and \<open>ParseMAC\<close>.
\<close>

lemma hex_digit_char: "0 \<le> n \<Longrightarrow> n < 16 \<Longrightarrow> hex_digit (hex_char n) = Some n"
proof -
  have "\<forall>n \<in> set [0..15]. hex_digit (hex_char n) = Some n"
    by code_simp
  then show "0 \<le> n \<Longrightarrow> n < 16 \<Longrightarrow> ?thesis" by simp
qed

lemma hex_char_colon: "0 \<le> n \<Longrightarrow> n < 16 \<Longrightarrow> hex_char n \<noteq> CHR '':''"
proof -
  have "hex_digit (CHR '':'') = None" by code_simp
  then show "0 \<le> n \<Longrightarrow> n < 16 \<Longrightarrow> ?thesis" using hex_digit_char [of n] by auto
qed

lemma nibbles: "0 \<le> uint (w :: u8) div 16" "uint w div 16 < 16" "0 \<le> uint w mod 16" "uint w mod 16 < 16"
  using uint_lt2p [of w] by (auto simp: pos_imp_zdiv_nonneg_iff)

lemma xtoi2_hex_byte: "xtoi2 (hex_byte w) = Some w"
  by (simp add: hex_byte_def hex_digit_char nibbles word_of_int_uint)

lemma ParseMAC_String:
  assumes "length a = 6 \<or> length a = 8"
  shows "net_ParseMAC (HardwareAddr_String a) = a"
proof -
  have split: "strings_Split (HardwareAddr_String a) '':'' = map hex_byte a"
    unfolding HardwareAddr_String_def
    using assms hex_char_colon by (intro strings_Split_Join) (auto simp: hex_byte_def nibbles dest: sym)
  obtain b1 b2 bs where a: "a = b1 # b2 # bs" "length bs = 4 \<or> length bs = 6"
    using assms by (auto simp: length_Suc_conv numeral_eq_Suc)
  then have "\<not> length (HardwareAddr_String a) < 14" "HardwareAddr_String a ! 2 = CHR '':''"
    by (auto simp: HardwareAddr_String_def hex_byte_def length_Suc_conv numeral_eq_Suc)
  then show ?thesis
    using assms by (auto simp: net_ParseMAC_def Let_def split xtoi2_hex_byte comp_def image_iff)
qed

lemma digit_char:
  assumes "n < 10"
  shows "is_digit (char_of (n + 48))" "digit_val (char_of (n + 48)) = int n" "char_of (n + 48) = CHR ''0'' \<longleftrightarrow> n = 0"
proof -
  have "list_all (\<lambda>n. is_digit (char_of (n + 48)) \<and> digit_val (char_of (n + 48)) = int n \<and>
      (char_of (n + 48) = CHR ''0'' \<longleftrightarrow> n = 0)) [0, 1, 2, 3, 4, 5, 6, 7, 8, 9 :: nat]"
    by (simp add: is_digit_def digit_val_def char_of_def bit_0 bit_Suc)
  moreover have "n \<in> set [0, 1, 2, 3, 4, 5, 6, 7, 8, 9]" using assms by auto
  ultimately show "is_digit (char_of (n + 48))" "digit_val (char_of (n + 48)) = int n" "char_of (n + 48) = CHR ''0'' \<longleftrightarrow> n = 0"
    unfolding list_all_iff by blast+
qed

lemma nat_digits_nonempty [simp]: "nat_digits n \<noteq> []"
  by (subst nat_digits.simps) simp

lemma nat_digits_all: "list_all is_digit (nat_digits n)"
  by (induction n rule: nat_digits.induct) (subst nat_digits.simps, simp add: digit_char)

lemma nat_digits_val: "decimal_val (nat_digits n) = int n"
  by (induction n rule: nat_digits.induct)
    (subst nat_digits.simps, simp add: digit_char decimal_val_def zdiv_int zmod_int)

lemma nat_digits_hd: "0 < n \<Longrightarrow> hd (nat_digits n) \<noteq> CHR ''0''"
  by (induction n rule: nat_digits.induct) (subst nat_digits.simps, simp add: digit_char hd_append)

lemma nat_digits_length: "n < 1000 \<Longrightarrow> length (nat_digits n) \<le> 3" "n < 10 \<Longrightarrow> length (nat_digits n) = 1"
  by (simp_all add: nat_digits.simps [of n] nat_digits.simps [of "n div 10"] nat_digits.simps [of "n div 10 div 10"])

lemma octet_digits: "octet (nat_digits (unat (w :: u8))) = Some w"
proof -
  have "unat w < 2 ^ LENGTH(8)" "uint w < 2 ^ LENGTH(8)" by (rule unsigned_less)+
  then have "unat w < 256" "\<not> 255 < uint w" by simp_all
  then show ?thesis
    using nat_digits_hd [of "unat w"] nat_digits_length [of "unat w"]
    by (cases "unat w < 10") (auto simp: octet_def nat_digits_all nat_digits_val)
qed

lemma nat_digits_dot: "CHR ''.'' \<notin> set (nat_digits n)" "CHR '':'' \<notin> set (nat_digits n)" "CHR ''%'' \<notin> set (nat_digits n)"
proof -
  have "\<not> is_digit (CHR ''.'')" "\<not> is_digit (CHR '':'')" "\<not> is_digit (CHR ''%'')"
    by (simp_all add: is_digit_def)
  then show "CHR ''.'' \<notin> set (nat_digits n)" "CHR '':'' \<notin> set (nat_digits n)" "CHR ''%'' \<notin> set (nat_digits n)"
    using nat_digits_all [of n] by (auto simp: list_all_iff)
qed

lemma parse_IPv4_String:
  assumes "length a = 4"
  shows "parse_IPv4 (IPv4_String a) = Some a"
proof -
  have "strings_Split (IPv4_String a) ''.'' = map (\<lambda>w. nat_digits (unat w)) a"
    unfolding IPv4_String_def using assms nat_digits_dot by (intro strings_Split_Join) auto
  moreover obtain b1 b2 b3 b4 where "a = [b1, b2, b3, b4]"
    using assms by (auto simp: length_Suc_conv numeral_eq_Suc)
  ultimately show ?thesis
    by (simp add: parse_IPv4_def octet_digits)
qed

lemma find_append_Some: "\<forall>c \<in> set xs. \<not> P c \<Longrightarrow> P x \<Longrightarrow> find P (xs @ x # ys) = Some x"
  by (induction xs) auto

lemma ParseIP_IPv4_String:
  assumes "length a = 4"
  shows "net_ParseIP (IPv4_String a) = v4InV6Prefix @ a"
proof -
  obtain b1 b2 b3 b4 where a: "a = [b1, b2, b3, b4]"
    using assms by (auto simp: length_Suc_conv numeral_eq_Suc)
  have "find (\<lambda>c. c \<in> set ''.:%'') (IPv4_String a) = Some (CHR ''.'')"
    using nat_digits_dot unfolding a IPv4_String_def by (auto intro!: find_append_Some)
  then show ?thesis
    by (simp add: net_ParseIP_def netip_ParseAddr_def parse_IPv4_String [OF assms])
qed

end
