(* ===== verification/Netflow_Roundtrip.thy ===== *)
theory Netflow_Roundtrip
  imports Netflow_Export Net_Text
begin

text \<open>
  \<open>From\<close> after \<open>To\<close>: a message that the NetFlow formatter writes is read back by the same
  formatter as the flows it was given, every field at the width that it has on the wire; and the
  bound on the number of flows beyond which the 16-bit length of an IPFIX message wraps around.
\<close>

section \<open>The IPFIX template and its records\<close>

definition export_specs :: "ipfix_FieldSpecifier list" where
  "export_specs = map (\<lambda>(t, l). \<lparr>ipfix_fs_InformationElementID = t, ipfix_fs_Length = l,
     ipfix_fs_EnterpriseNumber = 0, ipfix_fs_EnterpriseBitSet = False\<rparr>) export_fields"

definition export_template :: ipfix_TemplateRecord where
  "export_template = \<lparr>ipfix_tr_TemplateID = templateId, ipfix_tr_FieldCount = 22, ipfix_tr_Fields = export_specs\<rparr>"

definition flow_values :: "(u16 \<times> string) list \<Rightarrow> JCHF \<Rightarrow> u8 list list" where
  "flow_values order m = map (field_bytes order m \<circ> fst) export_fields"

lemma ipfix_FieldSpecifier_put:
  "fl \<in> set export_fields \<Longrightarrow>
   ipfix_FieldSpecifier_Unmarshal ((case fl of (t, l) \<Rightarrow> be_put 2 t @ be_put 2 l) @ rest) =
     Inr ((case fl of (t, l) \<Rightarrow> \<lparr>ipfix_fs_InformationElementID = t, ipfix_fs_Length = l,
       ipfix_fs_EnterpriseNumber = 0, ipfix_fs_EnterpriseBitSet = False\<rparr>), rest)"
proof -
  have "list_all (\<lambda>(t, l). t AND EnterpriseBit = 0) export_fields"
    by code_simp
  then show "fl \<in> set export_fields \<Longrightarrow> ?thesis"
    by (auto simp: list_all_iff ipfix_FieldSpecifier_Unmarshal_def rd_bind_def rd_simps)
qed

lemma rd_many_map:
  assumes "\<And>x rest. x \<in> set xs \<Longrightarrow> r (enc x @ rest) = Inr (f x, rest)"
  shows "rd_many (length xs) r (concat (map enc xs) @ rest) = Inr (map f xs, rest)"
  using assms by (induction xs arbitrary: rest) (simp_all add: rd_bind_def)

lemma export_fields_length [simp]: "length export_fields = 22"
  by (simp add: export_fields_def)

lemma ipfix_specs_parse:
  "rd_many 22 ipfix_FieldSpecifier_Unmarshal
     (concat (map (\<lambda>(t, l). be_put 2 t @ be_put 2 l) export_fields) @ rest) = Inr (export_specs, rest)"
  unfolding export_specs_def export_fields_length [symmetric]
  by (rule rd_many_map) (rule ipfix_FieldSpecifier_put)

lemma ipfix_template_parses:
  "ipfix_TemplateRecord_Unmarshal (encodeTemplate templateId @ rest) = Inr (export_template, rest)"
  using ipfix_specs_parse [of rest]
  by (simp add: ipfix_TemplateRecord_Unmarshal_def ipfix_FieldSpecifiers_Unmarshal_def encodeTemplate_def
      rd_bind_def rd_simps export_template_def)

lemma ipfix_template_set_parses: "ipfix_TemplateRecords (encodeTemplate templateId) = Inr [export_template]"
  using ipfix_template_parses [of "[]"]
  by (simp add: ipfix_TemplateRecords.simps [of "encodeTemplate _"] ipfix_TemplateRecords.simps [of "[]"]
      encodeTemplate_length)

lemma flow_values_fit: "list_all2 ipfix_field_fits (ipfix_tr_Fields export_template) (flow_values order m)"
proof -
  have "\<forall>(t, l) \<in> set export_fields. l \<noteq> VariableLength"
    by (simp add: export_fields_def VariableLength_def)
  then show ?thesis
    using field_bytes_length
    by (auto simp: export_template_def export_specs_def flow_values_def list_all2_map1 list_all2_map2
        ipfix_field_fits_def intro!: list_all2_same [THEN iffD2])
qed

lemma encode_flow_record: "ipfix_encode_record export_template (flow_values order m) = encodeFlow order m"
proof -
  have "list_all (\<lambda>(t, l). l \<noteq> VariableLength) export_fields"
    by code_simp
  then have "map2 ipfix_encode_field (map f tls) (map (field_bytes order m \<circ> fst) tls) = map (\<lambda>(t, l). field_bytes order m t) tls"
    if "tls = export_fields" "f = (\<lambda>(t, l). \<lparr>ipfix_fs_InformationElementID = t, ipfix_fs_Length = l,
       ipfix_fs_EnterpriseNumber = 0, ipfix_fs_EnterpriseBitSet = False\<rparr>)" for tls f
    using that unfolding that(2) by (auto simp: list_all_iff map2_map_map ipfix_encode_field_def)
  then show ?thesis
    by (simp add: ipfix_encode_record_def export_template_def export_specs_def flow_values_def encodeFlow_def)
qed

lemma encodeFlow_nonempty [simp]: "encodeFlow order m \<noteq> []"
  using encodeFlow_length [of order m] by auto

lemma ipfix_flow_set:
  "ipfix_DataSet_Unmarshal h export_template t (encodeFlow order m) =
     Some (Inr \<lparr>ipfix_ds_Header = h, ipfix_ds_Records = [ipfix_record_of t export_template (flow_values order m)]\<rparr>)"
  using ipfix_DataRecords_append [of "[flow_values order m]" export_template "[]" t "[]"] flow_values_fit [of order m]
  by (simp add: ipfix_DataSet_Unmarshal_def encode_flow_record ipfix_padding_ok_def)

section \<open>The sets of an IPFIX message\<close>

lemma ipfix_Sets_cons:
  assumes "body \<noteq> []" "uint L = int (length body) + 4"
  shows "ipfix_Sets t i s m (be_put 2 ID @ be_put 2 L @ body @ rest) =
     (case ipfix_Set t i \<lparr>ipfix_sh_ID = ID, ipfix_sh_Length = L\<rparr> body s m of
        None \<Rightarrow> None
      | Some (s', Inl e) \<Rightarrow> Some (s', Inl e)
      | Some (s', Inr m') \<Rightarrow> ipfix_Sets t (Suc i) s' m' rest)"
proof -
  have head: "ipfix_SetHeader_Unmarshal (be_put 2 ID @ be_put 2 L @ body @ rest) =
      Inr (\<lparr>ipfix_sh_ID = ID, ipfix_sh_Length = L\<rparr>, body @ rest)"
    by (simp add: ipfix_SetHeader_Unmarshal_def rd_bind_def rd_simps)
  show ?thesis
    using assms(1) by (subst ipfix_Sets.simps) (simp add: head assms(2) Let_def split: option.split sum.split)
qed

lemma header_size: "n + 4 < 65536 \<Longrightarrow> uint (of_nat (n + 4) :: u16) = int n + 4"
  by (simp only: uint_nat unat_of_nat) (simp add: take_bit_nat_eq_self)

lemma ipfix_Sets_put:
  assumes "body \<noteq> []" "length body + 4 < 65536"
  shows "ipfix_Sets t i s m (writeWithHeader ID body @ rest) =
     (case ipfix_Set t i \<lparr>ipfix_sh_ID = ID, ipfix_sh_Length = of_nat (length body + 4)\<rparr> body s m of
        None \<Rightarrow> None
      | Some (s', Inl e) \<Rightarrow> Some (s', Inl e)
      | Some (s', Inr m') \<Rightarrow> ipfix_Sets t (Suc i) s' m' rest)"
  using ipfix_Sets_cons [OF assms(1) header_size [OF assms(2)], of t i s m ID rest]
  unfolding writeWithHeader_def by (simp only: append.assoc)

definition flow_data_set :: "informationElements \<Rightarrow> (u16 \<times> string) list \<Rightarrow> JCHF \<Rightarrow> ipfix_DataSet" where
  "flow_data_set elements order m = \<lparr>ipfix_ds_Header = \<lparr>ipfix_sh_ID = templateId, ipfix_sh_Length = 128\<rparr>,
     ipfix_ds_Records = [ipfix_record_of (Some elements) export_template (flow_values order m)]\<rparr>"

lemma ipfix_flows_parse:
  assumes "lookup_template s (ipfix_h_ObservationDomainID (ipfix_Header p)) templateId = Some (IPFIX_Template export_template)"
  shows "ipfix_Sets (Some elements) i s p (write_flows order msgs) =
    Some (s, Inr (p\<lparr>ipfix_DataSets := ipfix_DataSets p @ map (flow_data_set elements order) msgs\<rparr>))"
  using assms
proof (induction msgs arbitrary: i p)
  case Nil
  then show ?case by (simp add: write_flows_def ipfix_Sets.simps [of _ _ _ _ "[]"])
next
  case (Cons m msgs)
  let ?p = "p\<lparr>ipfix_DataSets := ipfix_DataSets p @ [flow_data_set elements order m]\<rparr>"
  have "ipfix_Set (Some elements) i \<lparr>ipfix_sh_ID = templateId, ipfix_sh_Length = of_nat (length (encodeFlow order m) + 4)\<rparr>
      (encodeFlow order m) s p = Some (s, Inr ?p)"
    using Cons.prems by (simp add: ipfix_Set_def Let_def templateId_def ipfix_flow_set flow_data_set_def encodeFlow_length)
  moreover have "length (encodeFlow order m) + 4 < 65536"
    by (simp add: encodeFlow_length)
  ultimately have "ipfix_Sets (Some elements) i s p (write_flows order (m # msgs)) =
      ipfix_Sets (Some elements) (Suc i) s ?p (write_flows order msgs)"
    using ipfix_Sets_put [of "encodeFlow order m" "Some elements" i s p templateId "write_flows order msgs"]
    by (simp add: write_flows_def)
  then show ?case using Cons.IH [of ?p "Suc i"] Cons.prems by simp
qed


section \<open>Reading a record back\<close>

lemma export_type:
  "list_all2 (\<lambda>(t, l) ty. \<exists>e. Translate_Key (builtin ord) 0 t = Some e \<and> iee_Type e = ty) export_fields export_types"
  using export_elements [of ord] by (rule list_all2_mono) (auto simp: Translate_Key_def)

lemma ipfix_record_values:
  "list_all2 (\<lambda>(t, l) ty. \<exists>e. Translate_Key elements 0 t = Some e \<and> iee_Type e = ty) tls tys \<Longrightarrow>
   concat (map (\<lambda>f. case ipfix_f_Translated f of
       Some tf \<Rightarrow> [(ipfix_tf_InformationElementID tf, ipfix_tf_Value tf)] | None \<Rightarrow> [])
     (map2 (ipfix_field_of (Some elements)) (map (\<lambda>(t, l). \<lparr>ipfix_fs_InformationElementID = t, ipfix_fs_Length = l,
        ipfix_fs_EnterpriseNumber = 0, ipfix_fs_EnterpriseBitSet = False\<rparr>) tls) (map (field_bytes order m \<circ> fst) tls))) =
   map2 (\<lambda>(t, l) ty. (t, field_value order m t ty)) tls tys"
  by (induction rule: list_all2_induct) (auto simp: ipfix_field_of_def field_value_def)

lemma decodeIpfixRecord_exported:
  "decodeIpfixRecord (ipfix_record_of (Some (builtin ord)) export_template (flow_values order m)) = Some (exported order m)"
  unfolding decodeIpfixRecord_def
  by (simp only: ipfix_record_of_def export_template_def export_specs_def flow_values_def
      ipfix_DataRecord.simps ipfix_TemplateRecord.simps ipfix_record_values [OF export_type] set_fields_exported)

section \<open>The message\<close>

definition ipfix_header :: "nat \<Rightarrow> ipfix_MessageHeader" where
  "ipfix_header n = \<lparr>ipfix_h_Version = 10, ipfix_h_Length = of_nat (112 + 128 * n), ipfix_h_ExportTime = 0,
     ipfix_h_SequenceNumber = 0, ipfix_h_ObservationDomainID = 0\<rparr>"

definition export_template_set :: ipfix_TemplateSet where
  "export_template_set = \<lparr>ipfix_ts_Header = \<lparr>ipfix_sh_ID = 2, ipfix_sh_Length = 96\<rparr>, ipfix_ts_Records = [export_template]\<rparr>"

lemma write_flows_length: "length (write_flows order msgs) = 128 * length msgs"
  by (induction msgs) (simp_all add: write_flows_def writeWithHeader_def encodeFlow_length)

lemma packIpfix_message:
  assumes "msgs \<noteq> []"
  shows "packIpfix order msgs = Some (be_put 2 (10 :: u16) @ be_put 2 (of_nat (112 + 128 * length msgs) :: u16) @
     be_put 4 (0 :: u32) @ be_put 4 (0 :: u32) @ be_put 4 (0 :: u32) @
     writeWithHeader 2 (encodeTemplate templateId) @ write_flows order msgs)"
proof -
  have "length (writeWithHeader 2 (encodeTemplate templateId) @ write_flows order msgs) + 16 = 112 + 128 * length msgs"
    by (simp add: writeWithHeader_def encodeTemplate_length write_flows_length)
  then show ?thesis using assms by (simp only: packIpfix_def Let_def if_False append.assoc)
qed

lemma ipfix_header_parses:
  "ipfix_MessageHeader_Unmarshal (be_put 2 (10 :: u16) @ be_put 2 (of_nat (112 + 128 * n) :: u16) @
     be_put 4 (0 :: u32) @ be_put 4 (0 :: u32) @ be_put 4 (0 :: u32) @ rest) = Inr (ipfix_header n, rest)"
  by (simp add: ipfix_MessageHeader_Unmarshal_def ipfix_header_def rd_bind_def rd_wrap_def rd_simps)

lemma ipfix_body_parses:
  fixes s :: nf_session
  assumes "ipfix_h_ObservationDomainID h = 0"
  shows "ipfix_Sets (Some elements) i (Some s)
     \<lparr>ipfix_Header = h, ipfix_TemplateSets = [], ipfix_OptionsTemplateSets = [], ipfix_DataSets = [], ipfix_OptionsDataSets = []\<rparr>
     (writeWithHeader 2 (encodeTemplate templateId) @ write_flows order msgs) =
   Some (Some (AddTemplate s 0 (IPFIX_Template export_template)), Inr
     \<lparr>ipfix_Header = h, ipfix_TemplateSets = [export_template_set], ipfix_OptionsTemplateSets = [],
      ipfix_DataSets = map (flow_data_set elements order) msgs, ipfix_OptionsDataSets = []\<rparr>)"
proof -
  let ?s = "Some (AddTemplate s 0 (IPFIX_Template export_template))"
  let ?p = "\<lparr>ipfix_Header = h, ipfix_TemplateSets = [], ipfix_OptionsTemplateSets = [], ipfix_DataSets = [], ipfix_OptionsDataSets = []\<rparr>"
  have "encodeTemplate templateId \<noteq> []" "length (encodeTemplate templateId) + 4 < 65536"
    using encodeTemplate_length [of templateId] by auto
  moreover have "ipfix_Set (Some elements) i \<lparr>ipfix_sh_ID = 2, ipfix_sh_Length = of_nat (length (encodeTemplate templateId) + 4)\<rparr>
      (encodeTemplate templateId) (Some s) ?p = Some (?s, Inr (?p\<lparr>ipfix_TemplateSets := [export_template_set]\<rparr>))"
    using assms by (simp add: ipfix_Set_def ipfix_TemplateSet_UnmarshalRecords_def ipfix_template_set_parses Let_def
        export_template_set_def encodeTemplate_length register_all_def register_template_def)
  moreover have "lookup_template ?s 0 templateId = Some (IPFIX_Template export_template)"
    by (simp add: lookup_template_def session.get_add export_template_def)
  ultimately show ?thesis
    using assms by (simp add: ipfix_Sets_put ipfix_flows_parse)
qed

text \<open>The length in the header is a \<open>uint16\<close>: it counts the flows modulo 512.\<close>

lemma ipfix_header_Length: "uint (ipfix_h_Length (ipfix_header n)) = 112 + 128 * int (n mod 512)"
proof -
  have "uint (ipfix_h_Length (ipfix_header n)) = int ((112 + 128 * n) mod 2 ^ 16)"
    unfolding ipfix_header_def by (simp only: ipfix_MessageHeader.simps uint_nat unat_of_nat) (simp add: take_bit_eq_mod)
  also have "(112 + 128 * n) mod 2 ^ 16 = 112 + 128 * (n mod 512)"
  proof -
    have "128 * n = 128 * (n mod 512) + 2 ^ 16 * (n div 512)"
      by (subst div_mult_mod_eq [of n 512, symmetric]) (simp only: distrib_left, simp)
    then have "112 + 128 * n = (112 + 128 * (n mod 512)) + 2 ^ 16 * (n div 512)"
      by simp
    moreover have "112 + 128 * (n mod 512) < 2 ^ 16"
      using mod_less_divisor [of 512 n] by simp
    ultimately show ?thesis by (metis mod_less mod_mult_self2)
  qed
  finally show ?thesis by simp
qed

lemma write_flows_split: "write_flows order msgs = write_flows order (take k msgs) @ write_flows order (drop k msgs)"
  unfolding write_flows_def by (metis append_take_drop_id concat_append map_append)

definition ipfix_message :: "informationElements \<Rightarrow> (u16 \<times> string) list \<Rightarrow> nat \<Rightarrow> JCHF list \<Rightarrow> ipfix_Message" where
  "ipfix_message elements order n msgs = \<lparr>ipfix_Header = ipfix_header n, ipfix_TemplateSets = [export_template_set],
     ipfix_OptionsTemplateSets = [], ipfix_DataSets = map (flow_data_set elements order) msgs, ipfix_OptionsDataSets = []\<rparr>"

lemma ipfix_Read_packIpfix:
  assumes "packIpfix order msgs = Some raw"
  shows "ipfix_Read elements (Some s) None raw =
    Some (Some (AddTemplate s 0 (IPFIX_Template export_template)),
      Inr (ipfix_message elements order (length msgs) (take (length msgs mod 512) msgs)))"
proof -
  let ?k = "length msgs mod 512"
  let ?h = "ipfix_header (length msgs)"
  let ?body = "writeWithHeader 2 (encodeTemplate templateId) @ write_flows order (take ?k msgs)"
  from assms have ne: "msgs \<noteq> []" by (auto simp: packIpfix_def)
  have len: "length ?body = 96 + 128 * ?k"
    by (simp add: writeWithHeader_def encodeTemplate_length write_flows_length min_def)
  have read: "io_ReadFull (96 + 128 * ?k) (?body @ write_flows order (drop ?k msgs)) = Inr (?body, write_flows order (drop ?k msgs))"
    by (rule io_ReadFull_append) (simp only: len)
  have size: "nat (uint (ipfix_h_Length ?h) - 16) = 96 + 128 * ?k"
    by (simp add: ipfix_header_Length nat_eq_iff)
  have long: "\<not> ipfix_h_Length ?h < 16" "\<not> uint (ipfix_h_Length ?h) - 16 \<le> 0"
    by (simp_all add: ipfix_header_Length word_less_def)
  have "ipfix_h_Version ?h = 10" "ipfix_h_ObservationDomainID ?h = 0"
    by (simp_all add: ipfix_header_def)
  moreover have raw: "ipfix_MessageHeader_Unmarshal raw = Inr (?h, ?body @ write_flows order (drop ?k msgs))"
    using assms ipfix_header_parses [of "length msgs" "?body @ write_flows order (drop ?k msgs)"] write_flows_split [of order msgs ?k]
    unfolding packIpfix_message [OF ne] by simp
  ultimately show ?thesis
    using long read ipfix_body_parses [of ?h elements 0 s order "take ?k msgs"]
    by (simp add: ipfix_Read_def ipfix_UnmarshalSets_def Let_def size ipfix_message_def del: append_assoc)
qed

section \<open>From after To, for IPFIX\<close>

lemma concat_singletons: "concat (map (\<lambda>x. [f x]) xs) = map f xs"
  by (induction xs) auto

lemma decodeIpfix_message:
  "fst (decodeIpfix (ipfix_message (builtin ord) order n msgs) tracker) = map (exported order) msgs"
  by (simp add: decodeIpfix_def ipfix_message_def flow_data_set_def concat_singletons List.map_filter_def
      decodeIpfixRecord_exported o_def)

lemma Decoder_Read_10:
  "Decoder_Read elements s (be_put 2 (10 :: u16) @ bs) = with_session NetflowIpfix (ipfix_Read elements s None (be_put 2 (10 :: u16) @ bs))"
  by (simp add: Decoder_Read_def io_ReadFull_append be_word_put Let_def)

lemma From_packIpfix:
  assumes "packIpfix order msgs = Some raw"
  shows "map_option snd (NetflowFormat_From (builtin ord) f raw) =
    Some (flow_maps (map (exported order) (take (length msgs mod 512) msgs)))"
proof -
  from assms have "msgs \<noteq> []" by (auto simp: packIpfix_def)
  from packIpfix_message [OF this, of order] assms obtain bs where raw: "raw = be_put 2 (10 :: u16) @ bs" by auto
  show ?thesis
    using ipfix_Read_packIpfix [OF assms, of "builtin ord" "nff_s f"]
      decodeIpfix_message [of ord order "length msgs" "take (length msgs mod 512) msgs" "nff_templateTracker f"]
    unfolding raw NetflowFormat_From_def Decoder_Read_10
    by (auto simp: with_session_def Let_def split: prod.splits)
qed

section \<open>The NetFlow 9 packet\<close>

definition export_specs9 :: "nf9_FieldSpecifier list" where
  "export_specs9 = map (\<lambda>(t, l). \<lparr>nf9_fs_Type = t, nf9_fs_Length = l\<rparr>) export_fields"

definition export_template9 :: nf9_TemplateRecord where
  "export_template9 = \<lparr>nf9_tr_TemplateID = templateId, nf9_tr_FieldCount = 22, nf9_tr_Fields = export_specs9\<rparr>"

lemma nf9_FieldSpecifier_put:
  "nf9_FieldSpecifier_Unmarshal ((case fl of (t, l) \<Rightarrow> be_put 2 t @ be_put 2 l) @ rest) =
     Inr ((case fl of (t, l) \<Rightarrow> \<lparr>nf9_fs_Type = t, nf9_fs_Length = l\<rparr>), rest)"
  by (cases fl) (simp add: nf9_FieldSpecifier_Unmarshal_def rd_bind_def rd_simps)

lemma nf9_specs_parse:
  "rd_many 22 nf9_FieldSpecifier_Unmarshal
     (concat (map (\<lambda>(t, l). be_put 2 t @ be_put 2 l) export_fields) @ rest) = Inr (export_specs9, rest)"
  unfolding export_specs9_def export_fields_length [symmetric]
  by (rule rd_many_map) (rule nf9_FieldSpecifier_put)

lemma nf9_template_parses:
  "nf9_TemplateRecord_Unmarshal (encodeTemplate templateId @ rest) = Inr (export_template9, rest)"
  using nf9_specs_parse [of rest]
  by (simp add: nf9_TemplateRecord_Unmarshal_def nf9_FieldSpecifiers_Unmarshal_def encodeTemplate_def
      rd_bind_def rd_simps export_template9_def)

lemma nf9_template_set_parses: "nf9_TemplateRecords (encodeTemplate templateId) = Inr [export_template9]"
  using nf9_template_parses [of "[]"]
  by (simp add: nf9_TemplateRecords.simps [of "encodeTemplate _"] nf9_TemplateRecords.simps [of "[]"]
      encodeTemplate_length)

lemma flow_values_fit9: "nf9_fits (nf9_tr_Fields export_template9) (flow_values order m)"
proof -
  have "list_all (\<lambda>(t, l). l \<noteq> 0) export_fields"
    by code_simp
  then have pos: "unat l \<noteq> 0" if "(t, l) \<in> set export_fields" for t l
    using that by (auto simp: list_all_iff unat_eq_zero)
  have "[] \<notin> set (flow_values order m)"
  proof
    assume "[] \<in> set (flow_values order m)"
    then obtain t l where "(t, l) \<in> set export_fields" "field_bytes order m t = []"
      by (auto simp: flow_values_def)
    then show False using field_bytes_length [of t l order m] pos [of t l] by simp
  qed
  moreover have "map length (flow_values order m) = map (\<lambda>fs. unat (nf9_fs_Length fs)) export_specs9"
    using field_bytes_length by (auto simp: flow_values_def export_specs9_def)
  ultimately show ?thesis by (simp add: nf9_fits_def export_template9_def)
qed

lemma concat_flow_values: "concat (flow_values order m) = encodeFlow order m"
  by (simp add: flow_values_def encodeFlow_def o_def case_prod_unfold)

lemma export_template9_Size: "nf9_TemplateRecord_Size export_template9 = 124"
  using nf9_fits_Size [OF flow_values_fit9] by (simp add: concat_flow_values encodeFlow_length)

lemma nf9_flow_set:
  "nf9_DataFlowSet_Unmarshal h export_template9 t (encodeFlow order m) =
     Some (Inr \<lparr>nf9_dfs_Header = h, nf9_dfs_Records = [nf9_record_of t export_template9 (flow_values order m)]\<rparr>)"
  using nf9_DataRecords_append [of "[flow_values order m]" export_template9 "[]" t "[]"] flow_values_fit9 [of order m]
  by (simp add: nf9_DataFlowSet_Unmarshal_def concat_flow_values export_template9_Size)


lemma nf9_FlowSets_cons:
  assumes "body \<noteq> []" "uint L = int (length body) + 4"
  shows "nf9_FlowSets t (Suc n) i s p (be_put 2 ID @ be_put 2 L @ body @ rest) =
     Option.bind (nf9_FlowSet t i \<lparr>nf9_fsh_ID = ID, nf9_fsh_Length = L\<rparr> body s p) (\<lambda>(s', r).
       case r of Inl e \<Rightarrow> Some (s', Inl e) | Inr p' \<Rightarrow> nf9_FlowSets t n (Suc i) s' p' rest)"
proof -
  have "nf9_FlowSetHeader_Unmarshal (be_put 2 ID @ be_put 2 L @ body @ rest) =
      Inr (\<lparr>nf9_fsh_ID = ID, nf9_fsh_Length = L\<rparr>, body @ rest)"
    by (simp add: nf9_FlowSetHeader_Unmarshal_def rd_bind_def rd_simps)
  then show ?thesis
    using assms(1) by (simp add: nf9_FlowSets.simps(2) assms(2) Let_def io_ReadFull_append)
qed

lemma nf9_FlowSets_put:
  assumes "body \<noteq> []" "length body + 4 < 65536"
  shows "nf9_FlowSets t (Suc n) i s p (writeWithHeader ID body @ rest) =
     Option.bind (nf9_FlowSet t i \<lparr>nf9_fsh_ID = ID, nf9_fsh_Length = of_nat (length body + 4)\<rparr> body s p) (\<lambda>(s', r).
       case r of Inl e \<Rightarrow> Some (s', Inl e) | Inr p' \<Rightarrow> nf9_FlowSets t n (Suc i) s' p' rest)"
  using nf9_FlowSets_cons [OF assms(1) header_size [OF assms(2)], of t n i s p ID rest]
  unfolding writeWithHeader_def by (simp only: append.assoc)

definition flow_data_set9 :: "informationElements \<Rightarrow> (u16 \<times> string) list \<Rightarrow> JCHF \<Rightarrow> nf9_DataFlowSet" where
  "flow_data_set9 elements order m = \<lparr>nf9_dfs_Header = \<lparr>nf9_fsh_ID = templateId, nf9_fsh_Length = 128\<rparr>,
     nf9_dfs_Records = [nf9_record_of (Some elements) export_template9 (flow_values order m)]\<rparr>"

lemma nf9_flows_parse:
  assumes "lookup_template s (nf9_h_SourceID (nf9_Header p)) templateId = Some (NF9_Template export_template9)"
  shows "nf9_FlowSets (Some elements) n i s p (write_flows order msgs) =
    Some (s, Inr (p\<lparr>nf9_DataFlowSets := nf9_DataFlowSets p @ map (flow_data_set9 elements order) (take n msgs)\<rparr>))"
  using assms
proof (induction msgs arbitrary: i p n)
  case Nil
  then show ?case by (cases n) (simp_all add: write_flows_def nf9_FlowSets.simps)
next
  case (Cons m msgs)
  let ?p = "p\<lparr>nf9_DataFlowSets := nf9_DataFlowSets p @ [flow_data_set9 elements order m]\<rparr>"
  show ?case
  proof (cases n)
    case (Suc n')
    have "nf9_FlowSet (Some elements) i \<lparr>nf9_fsh_ID = templateId, nf9_fsh_Length = of_nat (length (encodeFlow order m) + 4)\<rparr>
        (encodeFlow order m) s p = Some (s, Inr ?p)"
      using Cons.prems by (simp add: nf9_FlowSet_def Let_def templateId_def nf9_flow_set flow_data_set9_def encodeFlow_length)
    moreover have "length (encodeFlow order m) + 4 < 65536"
      by (simp add: encodeFlow_length)
    ultimately have "nf9_FlowSets (Some elements) n i s p (write_flows order (m # msgs)) =
        nf9_FlowSets (Some elements) n' (Suc i) s ?p (write_flows order msgs)"
      using nf9_FlowSets_put [of "encodeFlow order m" "Some elements" n' i s p templateId "write_flows order msgs"] Suc
      by (simp add: write_flows_def)
    then show ?thesis using Cons.IH [of ?p n' "Suc i"] Cons.prems Suc by simp
  qed (simp add: nf9_FlowSets.simps)
qed

definition nf9_header :: "nat \<Rightarrow> nf9_PacketHeader" where
  "nf9_header n = \<lparr>nf9_h_Version = 9, nf9_h_Count = of_nat (n + 1), nf9_h_SysUpTime = 0, nf9_h_UnixSecs = 0,
     nf9_h_SequenceNumber = 0, nf9_h_SourceID = 0\<rparr>"

definition export_template_set9 :: nf9_TemplateFlowSet where
  "export_template_set9 = \<lparr>nf9_tfs_Header = \<lparr>nf9_fsh_ID = 0, nf9_fsh_Length = 96\<rparr>, nf9_tfs_Records = [export_template9]\<rparr>"

lemma nf9_body_parses:
  fixes s :: nf_session
  assumes "nf9_h_SourceID h = 0"
  shows "nf9_FlowSets (Some elements) (Suc n) i (Some s)
     \<lparr>nf9_Header = h, nf9_TemplateFlowSets = [], nf9_OptionsTemplateFlowSets = [], nf9_DataFlowSets = [], nf9_OptionsDataFlowSets = []\<rparr>
     (writeWithHeader 0 (encodeTemplate templateId) @ write_flows order msgs) =
   Some (Some (AddTemplate s 0 (NF9_Template export_template9)), Inr
     \<lparr>nf9_Header = h, nf9_TemplateFlowSets = [export_template_set9], nf9_OptionsTemplateFlowSets = [],
      nf9_DataFlowSets = map (flow_data_set9 elements order) (take n msgs), nf9_OptionsDataFlowSets = []\<rparr>)"
proof -
  let ?s = "Some (AddTemplate s 0 (NF9_Template export_template9))"
  let ?p = "\<lparr>nf9_Header = h, nf9_TemplateFlowSets = [], nf9_OptionsTemplateFlowSets = [], nf9_DataFlowSets = [], nf9_OptionsDataFlowSets = []\<rparr>"
  have "encodeTemplate templateId \<noteq> []" "length (encodeTemplate templateId) + 4 < 65536"
    using encodeTemplate_length [of templateId] by auto
  moreover have "nf9_FlowSet (Some elements) i \<lparr>nf9_fsh_ID = 0, nf9_fsh_Length = of_nat (length (encodeTemplate templateId) + 4)\<rparr>
      (encodeTemplate templateId) (Some s) ?p = Some (?s, Inr (?p\<lparr>nf9_TemplateFlowSets := [export_template_set9]\<rparr>))"
    using assms by (simp add: nf9_FlowSet_def nf9_TemplateFlowSet_UnmarshalRecords_def nf9_template_set_parses Let_def
        export_template_set9_def encodeTemplate_length register_all_def register_template_def)
  moreover have "lookup_template ?s 0 templateId = Some (NF9_Template export_template9)"
    by (simp add: lookup_template_def session.get_add export_template9_def)
  ultimately show ?thesis
    using assms by (simp add: nf9_FlowSets_put nf9_flows_parse)
qed


definition nf9_packet :: "informationElements \<Rightarrow> (u16 \<times> string) list \<Rightarrow> nat \<Rightarrow> JCHF list \<Rightarrow> nf9_Packet" where
  "nf9_packet elements order n msgs = \<lparr>nf9_Header = nf9_header n,
     nf9_TemplateFlowSets = (if nf9_h_Count (nf9_header n) = 0 then [] else [export_template_set9]),
     nf9_OptionsTemplateFlowSets = [], nf9_DataFlowSets = map (flow_data_set9 elements order) msgs, nf9_OptionsDataFlowSets = []\<rparr>"

text \<open>The count in the header is a \<open>uint16\<close>, and the template set is counted.\<close>

lemma nf9_header_Count: "unat (nf9_h_Count (nf9_header n)) = (n + 1) mod 65536"
  unfolding nf9_header_def by (simp only: nf9_PacketHeader.simps unat_of_nat) (simp add: take_bit_eq_mod)

lemma nf9_header_parses:
  "nf9_PacketHeader_Unmarshal (be_put 2 (9 :: u16) @ be_put 2 (of_nat (n + 1) :: u16) @ be_put 4 (0 :: u32) @
     be_put 4 (0 :: u32) @ be_put 4 (0 :: u32) @ be_put 4 (0 :: u32) @ rest) = Inr (nf9_header n, rest)"
  by (simp add: nf9_PacketHeader_Unmarshal_def nf9_header_def rd_bind_def rd_wrap_def rd_simps)

lemma nf9_Read_pack9:
  assumes "pack9 order msgs = Some raw"
  shows "\<exists>s'. nf9_Read elements (Some s) None raw =
    Some (Some s', Inr (nf9_packet elements order (length msgs) (take ((length msgs + 1) mod 65536 - 1) msgs)))"
proof -
  let ?h = "nf9_header (length msgs)"
  let ?body = "writeWithHeader 0 (encodeTemplate templateId) @ write_flows order msgs"
  have raw: "nf9_PacketHeader_Unmarshal raw = Inr (?h, ?body)"
    using assms nf9_header_parses [of "length msgs" ?body] by (simp add: pack9_def)
  have h: "nf9_h_Version ?h = 9" "nf9_h_SourceID ?h = 0"
    by (simp_all add: nf9_header_def)
  have "length ?body \<noteq> 0"
    by (simp add: writeWithHeader_def)
  then have body: "?body \<noteq> []" by auto
  show ?thesis
  proof (cases "nf9_h_Count ?h = 0")
    case True
    then have "(length msgs + 1) mod 65536 - 1 = 0"
      using nf9_header_Count [of "length msgs"] by simp
    then show ?thesis using raw h True by (simp add: nf9_Read_def nf9_packet_def)
  next
    case False
    then obtain n where n: "unat (nf9_h_Count ?h) = Suc n"
      by (metis not0_implies_Suc unat_eq_zero)
    then have "(length msgs + 1) mod 65536 - 1 = n"
      using nf9_header_Count [of "length msgs"] by simp
    then show ?thesis
      using raw h n False body nf9_body_parses [of ?h elements n 0 s order msgs]
      by (simp add: nf9_Read_def nf9_UnmarshalFlowSets_def nf9_packet_def Let_def)
  qed
qed

lemma nf9_record_values:
  "list_all2 (\<lambda>(t, l) ty. \<exists>e. Translate_Key elements 0 t = Some e \<and> iee_Type e = ty) tls tys \<Longrightarrow>
   concat (map (\<lambda>f. case nf9_f_Translated f of Some tf \<Rightarrow> [(nf9_tf_Type tf, nf9_tf_Value tf)] | None \<Rightarrow> [])
     (map2 (nf9_field_of (Some elements)) (map (\<lambda>(t, l). \<lparr>nf9_fs_Type = t, nf9_fs_Length = l\<rparr>) tls)
        (map (field_bytes order m \<circ> fst) tls))) =
   map2 (\<lambda>(t, l) ty. (t, field_value order m t ty)) tls tys"
  by (induction rule: list_all2_induct) (auto simp: nf9_field_of_def field_value_def)

lemma decodeV9Record_exported:
  "decodeV9Record (nf9_record_of (Some (builtin ord)) export_template9 (flow_values order m)) = Some (exported order m)"
  unfolding decodeV9Record_def
  by (simp only: nf9_record_of_def export_template9_def export_specs9_def flow_values_def
      nf9_DataRecord.simps nf9_TemplateRecord.simps nf9_record_values [OF export_type] set_fields_exported)

lemma decodeV9_packet:
  "fst (decodeV9 (nf9_packet (builtin ord) order n msgs) tracker) = map (exported order) msgs"
  by (simp add: decodeV9_def nf9_packet_def flow_data_set9_def concat_singletons List.map_filter_def
      decodeV9Record_exported o_def)

lemma Decoder_Read_9:
  "Decoder_Read elements s (be_put 2 (9 :: u16) @ bs) = with_session NetflowV9 (nf9_Read elements s None (be_put 2 (9 :: u16) @ bs))"
  by (simp add: Decoder_Read_def io_ReadFull_append be_word_put Let_def)

lemma From_pack9:
  assumes "pack9 order msgs = Some raw"
  shows "map_option snd (NetflowFormat_From (builtin ord) f raw) =
    Some (flow_maps (map (exported order) (take ((length msgs + 1) mod 65536 - 1) msgs)))"
proof -
  from assms obtain bs where raw: "raw = be_put 2 (9 :: u16) @ bs" by (auto simp: pack9_def)
  obtain s' where "nf9_Read (builtin ord) (Some (nff_s f)) None raw =
      Some (Some s', Inr (nf9_packet (builtin ord) order (length msgs) (take ((length msgs + 1) mod 65536 - 1) msgs)))"
    using nf9_Read_pack9 [OF assms] by blast
  then show ?thesis
    using decodeV9_packet [of ord order "length msgs" "take ((length msgs + 1) mod 65536 - 1) msgs" "nff_templateTracker f"]
    unfolding raw NetflowFormat_From_def Decoder_Read_9
    by (auto simp: with_session_def Let_def split: prod.splits)
qed

section \<open>Properties\<close>

text \<open>How many of \<open>n\<close> flows come back: the 16-bit fields of the two headers wrap around.\<close>

definition flows_delivered :: "NetflowFormat \<Rightarrow> nat \<Rightarrow> nat" where
  "flows_delivered f n = (if nff_version f = 9 then (n + 1) mod 65536 - 1 else n mod 512)"

text \<open>
  C10: whatever flows \<open>To\<close> writes as one message, in either version, \<open>From\<close> reads
  back, in order, every field cut to its width on the wire -- but only as many as the 16-bit header
  fields can say: the number of flows modulo 512 for IPFIX, where the length of the message wraps
  around, and modulo 65536 counting the template for NetFlow 9.
\<close>

theorem netflow_format_roundtrip:
  assumes "NetflowFormat_To order f msgs = Inr (Some raw)"
  shows "map_option snd (NetflowFormat_From (builtin ord) g raw) =
    Some (flow_maps (map (exported order) (take (flows_delivered f (length msgs)) msgs)))"
  using assms From_pack9 From_packIpfix
  by (auto simp: NetflowFormat_To_def flows_delivered_def split: if_splits)

theorem netflow_format_roundtrip_witness:
  "map_option (map_sum id (map (\<lambda>m. m ''l4_dst_port''))) (map_option snd (NetflowFormat_From (builtin []) (projr (NewNetflowFormat False ''ipfix''))
     (the (projr (NetflowFormat_To proto_table (projr (NewNetflowFormat False ''ipfix''))
        [NewJCHF\<lparr>L4DstPort := 53\<rparr>, NewJCHF\<lparr>L4DstPort := 443\<rparr>]))))) = Some (Inr [Some (VInt64 53), Some (VInt64 443)])"
proof -
  let ?f = "projr (NewNetflowFormat False ''ipfix'')"
  let ?msgs = "[NewJCHF\<lparr>L4DstPort := 53\<rparr>, NewJCHF\<lparr>L4DstPort := 443\<rparr>]"
  have "NetflowFormat_To proto_table ?f ?msgs = Inr (Some (the (projr (NetflowFormat_To proto_table ?f ?msgs))))"
    by (simp add: NewNetflowFormat_def NetflowFormat_To_def packIpfix_def Let_def)
  note again = netflow_format_roundtrip [OF this, of "[]" ?f]
  show ?thesis
    unfolding again by (simp add: flows_delivered_def NewNetflowFormat_def flow_maps_def exported_def JCHF_ToMap_def Let_def
        NewJCHF_def zero_JCHF_def JCHF_columns_def)
qed

section \<open>Flows that come back unchanged\<close>

text \<open>An address or a MAC address in its printed form, and values that fit their field.\<close>

definition canonical_IPv4 :: "string \<Rightarrow> bool" where
  "canonical_IPv4 s \<longleftrightarrow> s = [] \<or> (\<exists>a b c d. (a, b, c, d) \<noteq> (0, 0, 0, 0) \<and> s = IPv4_String [a, b, c, d])"

definition canonical_MAC :: "string \<Rightarrow> bool" where
  "canonical_MAC s \<longleftrightarrow> (\<exists>a. length a = 6 \<and> s = HardwareAddr_String a)"

definition canonical_flow :: "JCHF \<Rightarrow> bool" where
  "canonical_flow m \<longleftrightarrow>
     Protocol m \<noteq> [] \<and> Protocol m \<in> snd ` set proto_table \<and>
     canonical_IPv4 (SrcAddr m) \<and> canonical_IPv4 (DstAddr m) \<and> canonical_MAC (SrcEthMac m) \<and> canonical_MAC (DstEthMac m) \<and>
     Tos m < 2 ^ 8 \<and> TcpFlags m < 2 ^ 16 \<and> L4SrcPort m < 2 ^ 16 \<and> L4DstPort m < 2 ^ 16 \<and>
     InputPort m < 2 ^ 32 \<and> OutputPort m < 2 ^ 32 \<and> Timestamp m < 2 ^ 32"

text \<open>What a message carries of a flow.\<close>

definition wire_view :: "JCHF \<Rightarrow> JCHF" where
  "wire_view m = NewJCHF\<lparr>
     Protocol := Protocol m, Tos := Tos m, TcpFlags := TcpFlags m, SrcEthMac := SrcEthMac m, DstEthMac := DstEthMac m,
     SrcAddr := SrcAddr m, DstAddr := DstAddr m, L4SrcPort := L4SrcPort m, L4DstPort := L4DstPort m,
     SrcAs := SrcAs m, DstAs := DstAs m, InputPort := InputPort m, OutputPort := OutputPort m,
     InBytes := InBytes m, OutBytes := OutBytes m, InPkts := InPkts m, OutPkts := OutPkts m, Timestamp := Timestamp m\<rparr>"

lemma address_out_canonical:
  assumes "canonical_IPv4 s"
  shows "address_out s = s"
proof -
  have zero: "IP_String (be_put 4 (0 :: u32)) = ''0.0.0.0''" "IP_String (replicate 16 0) = ''::''"
    by code_simp+
  have zero4: "IPv4_String [0, 0, 0, 0] = ''0.0.0.0''"
    by code_simp
  show ?thesis
  proof (cases "s = []")
    case True
    have "net_ParseIP [] = []" by code_simp
    with True show ?thesis by (simp add: address_out_def ip2int_def or_empty_def zero)
  next
    case False
    then obtain a b c d where s: "(a, b, c, d) \<noteq> (0, 0, 0, 0)" "s = IPv4_String [a, b, c, d]"
      using assms by (auto simp: canonical_IPv4_def)
    have 4: "IP_To4 (v4InV6Prefix @ [a, b, c, d]) = [a, b, c, d]"
      by (simp add: IP_To4_def v4InV6Prefix_def)
    have be: "be_put 4 (be_word [a, b, c, d] :: u32) = [a, b, c, d]"
      using be_put_word [of "[a, b, c, d]", where 'w = 32] by (simp add: numeral_eq_Suc)
    have "s \<noteq> ''0.0.0.0''"
    proof
      assume "s = ''0.0.0.0''"
      then have "IPv4_String [a, b, c, d] = IPv4_String [0, 0, 0, 0]"
        using s zero4 by simp
      then have "Some [a, b, c, d] = Some [0, 0, 0, 0]"
        using parse_IPv4_String [of "[a, b, c, d]"] parse_IPv4_String [of "[0, 0, 0, 0]"] by simp
      with s show False by simp
    qed
    moreover have "ip2int (v4InV6Prefix @ [a, b, c, d]) = (be_word [a, b, c, d], [])"
      by (simp add: ip2int_def 4)
    moreover have "IP_String [a, b, c, d] = IPv4_String [a, b, c, d]"
      by (simp add: IP_String_def IP_To4_def)
    ultimately show ?thesis
      using s(2) ParseIP_IPv4_String [of "[a, b, c, d]"] zero(2)
      by (simp add: address_out_def be or_empty_def Let_def)
  qed
qed

lemma mac_out_canonical: "canonical_MAC s \<Longrightarrow> mac_out s = s"
  by (auto simp: canonical_MAC_def mac_out_def ParseMAC_String or_empty_def)

lemma ucast_fits:
  assumes "w < 2 ^ LENGTH('b)" "LENGTH('b) < LENGTH('a)"
  shows "ucast (ucast (w :: 'a::len word) :: 'b::len word) = w"
proof -
  have "unat (2 ^ LENGTH('b) :: 'a word) = unat (of_nat (2 ^ LENGTH('b)) :: 'a word)"
    by simp
  also have "\<dots> = 2 ^ LENGTH('b)"
    unfolding unat_of_nat using assms(2) by (simp add: take_bit_nat_eq_self)
  finally have "unat w < 2 ^ LENGTH('b)"
    using assms(1) by (simp add: word_less_nat_alt)
  then have "unat (ucast (ucast w :: 'b word) :: 'a word) = unat w"
    using assms(2) by (simp add: unsigned_ucast_eq unsigned_take_bit_eq take_bit_nat_eq_self)
  then show ?thesis by (rule unsigned_word_eqI)
qed

lemma exported_canonical:
  assumes "canonical_flow m" "set order = set proto_table"
  shows "exported order m = wire_view m"
proof -
  obtain k where k: "(k, Protocol m) \<in> set proto_table" "Protocol m \<noteq> []"
    using assms(1) by (auto simp: canonical_flow_def)
  then have "ucast (PROTO_NUMS order (Protocol m)) = k"
    using PROTO_NUMS_NAMES(1) [OF assms(2) k] proto_small [OF k(1)] ucast_fits [of k, where 'b = 8] by simp
  then have "PROTO_NAMES (ucast (PROTO_NUMS order (Protocol m))) = Protocol m"
    using PROTO_NUMS_NAMES(2) [OF assms(2) k] by simp
  then show ?thesis
    using assms(1) ucast_fits [of "Tos m", where 'b = 8] ucast_fits [of "TcpFlags m", where 'b = 16]
      ucast_fits [of "L4SrcPort m", where 'b = 16] ucast_fits [of "L4DstPort m", where 'b = 16]
      ucast_fits [of "InputPort m", where 'b = 32] ucast_fits [of "OutputPort m", where 'b = 32]
      ucast_fits [of "Timestamp m", where 'b = 32]
    by (simp add: exported_def wire_view_def canonical_flow_def address_out_canonical mac_out_canonical)
qed

lemma canonical_message:
  assumes "NetflowFormat_To order f msgs = Inr (Some raw)" "length msgs \<le> 511" "\<forall>m \<in> set msgs. canonical_flow m"
    "set order = set proto_table"
  shows "map_option snd (NetflowFormat_From (builtin ord) g raw) = Some (flow_maps (map wire_view msgs))"
proof -
  have "map_option snd (NetflowFormat_From (builtin ord) g raw) =
      Some (flow_maps (map (exported order) (take (flows_delivered f (length msgs)) msgs)))"
    using assms(1) From_pack9 From_packIpfix
    by (auto simp: NetflowFormat_To_def flows_delivered_def split: if_splits)
  moreover have "take (flows_delivered f (length msgs)) msgs = msgs"
    using assms(2) by (simp add: flows_delivered_def)
  moreover have "map (exported order) msgs = map wire_view msgs"
    using assms(3,4) exported_canonical by simp
  ultimately show ?thesis by simp
qed

text \<open>
  C11: flows whose addresses are IPv4 addresses and MAC addresses in their printed form,
  whose protocol has a name and whose numbers fit their fields come back from a message of at most
  511 of them exactly as they were, in all the fields that the message carries, whatever the order in
  which the tables of protocol names and information elements were built.
\<close>

theorem netflow_format_lossless:
  assumes "NetflowFormat_To order f msgs = Inr (Some raw)" "length msgs \<le> 511" "\<forall>m \<in> set msgs. canonical_flow m"
    "set order = set proto_table"
  shows "map_option snd (NetflowFormat_From (builtin ord) g raw) = Some (flow_maps (map wire_view msgs))"
  by (rule canonical_message [OF assms])

definition sample_flow :: JCHF where
  "sample_flow = NewJCHF\<lparr>Protocol := ''UDP'', SrcAddr := ''10.1.2.3'', L4DstPort := 53, InBytes := 77,
     SrcEthMac := ''00:1b:2c:00:00:01'', DstEthMac := ''ff:ff:ff:ff:ff:ff'', CompanyId := 9\<rparr>"

lemma sample_flow_canonical: "canonical_flow sample_flow"
proof -
  have "''10.1.2.3'' = IPv4_String [10, 1, 2, 3]"
    by code_simp
  then have "canonical_IPv4 ''10.1.2.3''"
    unfolding canonical_IPv4_def by (intro disjI2 exI [of _ 10] exI [of _ 1] exI [of _ 2] exI [of _ 3]) simp
  moreover have "length [0, 0x1b, 0x2c, 0, 0, 1 :: u8] = 6 \<and> ''00:1b:2c:00:00:01'' = HardwareAddr_String [0, 0x1b, 0x2c, 0, 0, 1]"
    "length [255, 255, 255, 255, 255, 255 :: u8] = 6 \<and> ''ff:ff:ff:ff:ff:ff'' = HardwareAddr_String [255, 255, 255, 255, 255, 255]"
    by code_simp+
  then have "canonical_MAC ''00:1b:2c:00:00:01''" "canonical_MAC ''ff:ff:ff:ff:ff:ff''"
    unfolding canonical_MAC_def by blast+
  moreover have "list_ex (\<lambda>kv. snd kv = ''UDP'') proto_table"
    by code_simp
  ultimately show ?thesis
    by (auto simp: canonical_flow_def sample_flow_def NewJCHF_def zero_JCHF_def list_ex_iff canonical_IPv4_def [of "[]"] image_iff Bex_def)
qed

theorem netflow_format_lossless_witness:
  "\<exists>raw. NetflowFormat_To proto_table (projr (NewNetflowFormat False ''netflow9'')) [sample_flow, sample_flow] = Inr (Some raw) \<and>
     map_option snd (NetflowFormat_From (builtin []) (projr (NewNetflowFormat False ''netflow9'')) raw) =
       Some (flow_maps [wire_view sample_flow, wire_view sample_flow])"
proof -
  let ?f = "projr (NewNetflowFormat False ''netflow9'')"
  obtain raw where raw: "NetflowFormat_To proto_table ?f [sample_flow, sample_flow] = Inr (Some raw)"
    by (simp add: NewNetflowFormat_def NetflowFormat_To_def pack9_def)
  show ?thesis
    using netflow_format_lossless [OF raw, of "[]" ?f] raw sample_flow_canonical by simp
qed

end
