(* ===== verification/Ic_Classes.thy ===== *)
theory Ic_Classes
  imports Go_Strings "HOL-Library.AList"
begin

text \<open>
  Interface classification, \<open>pkg/util/ic/ic.go\<close>: the names of network boundaries, connectivity
  types, network classes and RPKI results, the traffic profile of a flow from the classes of its two
  ends and the reverse table of profiles; and the names of content delivery networks,
  \<open>pkg/util/cdn/cdn.go\<close>.
\<close>

section \<open>Tables\<close>

text \<open>Reading a Go map of strings: the zero value when the key is absent.\<close>

definition table_read :: "('k \<times> string) list \<Rightarrow> 'k \<Rightarrow> string" where
  "table_read t k = (case map_of t k of Some v \<Rightarrow> v | None \<Rightarrow> [])"

definition NETWORK_BOUNDARY_INT_TO_NAME :: "(i64 \<times> string) list" where
  "NETWORK_BOUNDARY_INT_TO_NAME =
    [(10, ''external''), (20, ''internal'')]"

definition NETWORK_CLASS_INT_TO_NAME :: "(u32 \<times> string) list" where
  "NETWORK_CLASS_INT_TO_NAME =
    [(20, ''outside''), (10, ''inside''), (80, ''aws''),
     (90, ''azure''), (100, ''gcp''), (110, ''ibm''),
     (40, ''in''), (50, ''out''), (60, ''not_a_host''),
     (70, ''error'')]"

definition CONNECTIVITY_TYPE_INT_TO_NAME :: "(i64 \<times> string) list" where
  "CONNECTIVITY_TYPE_INT_TO_NAME =
    [(5, ''free_pni''), (15, ''customer''), (25, ''host''),
     (35, ''backbone''), (45, ''paid_pni''), (55, ''other''),
     (65, ''transit''), (75, ''ix''), (85, ''reserved''),
     (95, ''available''), (105, ''datacenter_interconnect''), (115, ''aggregation_interconnect''),
     (125, ''embedded_cache''), (135, ''cloud_interconnect''), (145, ''datacenter_fabric'')]"

definition RPKI_INT_TO_NAME :: "(u32 \<times> string) list" where
  "RPKI_INT_TO_NAME =
    [(1, ''RPKI Unknown''),
     (2, ''RPKI Invalid: explicit ASN 0''),
     (3, ''RPKI Invalid: prefix length out of bounds''),
     (4, ''RPKI Invalid: incorrect Origin ASN (should be AS%d)''),
     (5, ''RPKI Valid''),
     (6, ''RPKI Invalid: valid covering prefix''),
     (7, ''RPKI Invalid: unknown covering prefix''),
     (8, ''RPKI Error''),
     (9, [])]"

definition RPKI_INT_TO_MIN_NAME :: "(u32 \<times> string) list" where
  "RPKI_INT_TO_MIN_NAME =
    [(1, ''RPKI Unknown''), (2, ''RPKI Invalid - Will be dropped''),
     (3, ''RPKI Invalid - Will be dropped''), (4, ''RPKI Invalid - Will be dropped''),
     (5, ''RPKI Valid''), (6, ''RPKI Invalid - covering Valid/Unknown''),
     (7, ''RPKI Invalid - covering Valid/Unknown''), (8, ''RPKI Error''),
     (9, [])]"

text \<open>The first part of \<open>RPKI_INVALID_NAME\<close>, up to the place of the number.\<close>

definition RPKI_INVALID_prefix :: string where
  "RPKI_INVALID_prefix = ''RPKI Invalid: incorrect Origin ASN (should be AS''"

definition RPKI_INVALID_MIN_NAME :: string where
  "RPKI_INVALID_MIN_NAME = ''RPKI Invalid - Will be dropped''"

definition cdn2Name :: "(u32 \<times> string) list" where
  "cdn2Name =
    [(0, ''--''), (1, ''AFXcdn''), (2, ''Akamai''), (3, ''Alibaba Cloud''),
     (4, ''Amazon + AWS''), (5, ''Ananke''), (6, ''Apple''), (7, ''AT&T''),
     (8, ''Azion''), (9, ''BelugaCDN''), (10, ''Blue Hat Network''), (11, ''CacheFly''),
     (12, ''CDN77''), (13, ''CDNetworks''), (14, ''CDNify''), (15, ''ChinaCache''),
     (16, ''Cloudflare''), (17, ''EdgeCast Verizon''), (18, ''Facebook''), (19, ''Fastly''),
     (20, ''G-Core CDN''), (21, ''Google Youtube''), (22, ''Hibernia''), (23, ''Imperva Incapsula''),
     (24, ''Instartlogic''), (25, ''Internap''), (26, ''KeyCDN''), (27, ''LeaseWeb CDN''),
     (28, ''Level3''), (29, ''Limelight''), (30, ''Medianova''), (31, ''Netflix''),
     (32, ''Mirror Image''), (33, ''Ngenix''), (34, ''QUANTIL ChinaNetCenter''), (35, ''Reflected Networks - Swift''),
     (36, ''Alibaba_Cloud''), (37, ''Tata communications''), (38, ''Telefonica''), (39, ''TurboBytes''),
     (40, ''Microsoft Azure''), (41, ''Yahoo''), (42, ''Zenedge''), (43, ''Stackpath MaxCDN NetDNA Highwinds''),
     (44, ''Dropbox''), (45, ''Pandora''), (46, ''Twitch.TV''), (47, ''Comcast CDN''),
     (48, ''BunnyCDN''), (49, ''CDNvideo''), (50, ''cdnnow''), (51, ''SingularCDN''),
     (52, ''Kingsoft Cloud''), (53, ''Tencent Cloud'')]"

definition NameByCDN :: "u32 \<Rightarrow> string" where
  "NameByCDN cdn = table_read cdn2Name cdn"

definition NamesByCDNs :: "u32 list \<Rightarrow> string list" where
  "NamesByCDNs = map NameByCDN"

section \<open>Names and numbers\<close>

definition NameFromCTInt :: "(i64 \<times> string) list \<Rightarrow> i64 \<Rightarrow> string" where
  "NameFromCTInt names n = (case map_of names n of Some v \<Rightarrow> v | None \<Rightarrow> ''none'')"

definition NameFromNBInt :: "i64 \<Rightarrow> string" where
  "NameFromNBInt n = (case map_of NETWORK_BOUNDARY_INT_TO_NAME n of Some v \<Rightarrow> v | None \<Rightarrow> ''none'')"

text \<open>The inverted tables.  No two numbers of a table have the same name, so the order of the loop
  over the map does not matter.\<close>

definition inverted :: "('k \<times> string) list \<Rightarrow> (string \<times> 'k) list" where
  "inverted t = map (\<lambda>(k, v). (v, k)) t"

definition IntFromCTName :: "(string \<times> i64) list \<Rightarrow> string \<Rightarrow> i64" where
  "IntFromCTName numbers s = (case map_of numbers s of Some v \<Rightarrow> v | None \<Rightarrow> 0)"

definition IntFromNBName :: "string \<Rightarrow> i64" where
  "IntFromNBName s = (case map_of (inverted NETWORK_BOUNDARY_INT_TO_NAME) s of Some v \<Rightarrow> v | None \<Rightarrow> 0)"

text \<open>
  \<open>OverrideConnectivityType\<close> renames connectivity types: it changes both tables, and leaves the old
  name in the table of numbers.  The order of its loop over the map of new names is an argument.
\<close>

definition override_pairs :: "string \<Rightarrow> (string \<times> string) list" where
  "override_pairs newBase = concat (map (\<lambda>pt. case strings_Split pt '':'' of [a, b] \<Rightarrow> [(a, b)] | _ \<Rightarrow> [])
     (strings_Split newBase '',''))"

definition override_step :: "string \<times> string \<Rightarrow> (i64 \<times> string) list \<times> (string \<times> i64) list \<times> nat \<Rightarrow>
    (i64 \<times> string) list \<times> (string \<times> i64) list \<times> nat" where
  "override_step = (\<lambda>(old, new) (names, numbers, found).
     case map_of numbers old of
       Some v \<Rightarrow> (AList.update v new names, AList.update new v numbers, found + 1)
     | None \<Rightarrow> (names, numbers, found))"

definition OverrideConnectivityType :: "(string \<times> string) list \<Rightarrow> (i64 \<times> string) list \<times> (string \<times> i64) list \<Rightarrow>
    (i64 \<times> string) list \<times> (string \<times> i64) list \<times> nat" where
  "OverrideConnectivityType newC = (\<lambda>(names, numbers). fold override_step newC (names, numbers, 0))"

section \<open>Traffic profiles\<close>

datatype TrafficProfileNumbers = Profile (OriginationNumbers: "u32 list") (DestinationNumbers: "u32 list")

definition trafficProfileNumbersByName :: "(string \<times> TrafficProfileNumbers list) list" where
  "trafficProfileNumbersByName =
    [(''internal'', [Profile [10] [10]]),
     (''through'', [Profile [20] [20]]),
     (''from outside, terminated inside'', [Profile [20] [10]]),
     (''originated inside, to outside'', [Profile [10] [20]]),
     (''cloud internal'', [Profile [80] [80], Profile [90] [90], Profile [100] [100], Profile [110] [110]]),
     (''multi-cloud'', [Profile [80] [90, 100, 110], Profile [90] [80, 100, 110], Profile [100] [80, 90, 110], Profile [110] [80, 90, 100], Profile [90, 100, 110] [80], Profile [80, 100, 110] [90], Profile [80, 90, 110] [100], Profile [80, 90, 100] [110]]),
     (''from outside to cloud'', [Profile [20] [80, 90, 100, 110]]),
     (''from cloud to outside'', [Profile [80, 90, 100, 110] [20]]),
     (''from cloud to inside'', [Profile [80, 90, 100, 110] [10]]),
     (''from inside to cloud'', [Profile [10] [80, 90, 100, 110]]),
     ([], [])]"

definition TrafficProfileNumbersFromName :: "string \<Rightarrow> TrafficProfileNumbers list" where
  "TrafficProfileNumbersFromName profile =
     (case map_of trafficProfileNumbersByName (strings_ToLower profile) of Some ps \<Rightarrow> ps | None \<Rightarrow> [])"

definition from_cloud :: "u32 \<Rightarrow> bool" where
  "from_cloud v \<longleftrightarrow> v = 80 \<or> v = 90 \<or> v = 100 \<or> v = 110"

definition TrafficNameFromNumbers :: "u32 \<Rightarrow> u32 \<Rightarrow> string" where
  "TrafficNameFromNumbers ov dv =
     (let fromCloud = from_cloud ov; fromOutside = ov = 20; fromInside = ov = 10;
          toCloud = from_cloud dv; toOutside = dv = 20; toInside = dv = 10
      in if fromInside \<and> toOutside then ''originated inside, to outside''
         else if fromOutside \<and> toInside then ''from outside, terminated inside''
         else if fromOutside \<and> toOutside then ''through''
         else if fromInside \<and> toInside then ''internal''
         else if fromCloud \<and> ov = dv then ''cloud internal''
         else if fromCloud \<and> toCloud \<and> ov \<noteq> dv then ''multi-cloud''
         else if fromOutside \<and> toCloud then ''from outside to cloud''
         else if fromCloud \<and> toOutside then ''from cloud to outside''
         else if fromCloud \<and> toInside then ''from cloud to inside''
         else if fromInside \<and> toCloud then ''from inside to cloud''
         else [])"

text \<open>A pair of numbers is in a profile when one of its entries lists both.\<close>

definition in_profile :: "TrafficProfileNumbers list \<Rightarrow> u32 \<Rightarrow> u32 \<Rightarrow> bool" where
  "in_profile ps ov dv \<longleftrightarrow> list_ex (\<lambda>p. ov \<in> set (OriginationNumbers p) \<and> dv \<in> set (DestinationNumbers p)) ps"

section \<open>Lemmas\<close>

lemma table_inverse:
  assumes "distinct (map fst t)" "distinct (map snd t)"
  shows "map_of (inverted t) s = Some k \<longleftrightarrow> map_of t k = Some s"
proof -
  have "distinct (map fst (inverted t))"
    using assms(2) by (simp add: inverted_def o_def case_prod_unfold)
  then have "map_of (inverted t) s = Some k \<longleftrightarrow> (s, k) \<in> set (inverted t)"
    by (rule map_of_eq_Some_iff)
  also have "\<dots> \<longleftrightarrow> (k, s) \<in> set t"
    by (auto simp: inverted_def)
  also have "\<dots> \<longleftrightarrow> map_of t k = Some s"
    using map_of_eq_Some_iff [OF assms(1)] by simp
  finally show ?thesis .
qed

lemma ct_table_distinct:
  "distinct (map fst CONNECTIVITY_TYPE_INT_TO_NAME)" "distinct (map snd CONNECTIVITY_TYPE_INT_TO_NAME)"
  by code_simp+

lemma connectivity_roundtrip:
  assumes "s \<in> snd ` set CONNECTIVITY_TYPE_INT_TO_NAME"
  shows "NameFromCTInt CONNECTIVITY_TYPE_INT_TO_NAME (IntFromCTName (inverted CONNECTIVITY_TYPE_INT_TO_NAME) s) = s"
proof -
  obtain k where "map_of CONNECTIVITY_TYPE_INT_TO_NAME k = Some s"
    using assms map_of_eq_Some_iff [OF ct_table_distinct(1)] by auto
  moreover from this have "map_of (inverted CONNECTIVITY_TYPE_INT_TO_NAME) s = Some k"
    using table_inverse [OF ct_table_distinct] by blast
  ultimately show ?thesis
    by (simp add: NameFromCTInt_def IntFromCTName_def)
qed

lemma TrafficNameFromNumbers_unknown:
  "\<not> (from_cloud ov \<or> ov = 10 \<or> ov = 20) \<or> \<not> (from_cloud dv \<or> dv = 10 \<or> dv = 20) \<Longrightarrow> TrafficNameFromNumbers ov dv = []"
  unfolding TrafficNameFromNumbers_def Let_def by (elim disjE) auto

section \<open>Properties\<close>

text \<open>
  C39: the two ways from traffic classes to a profile agree: for every pair of class numbers
  and every name of a profile, the pair is listed under that name in the table of profiles if and
  only if \<open>TrafficNameFromNumbers\<close> gives the pair that name, so the profiles are disjoint and the
  table lists no pair too few or too many.
\<close>

theorem traffic_profile_agrees:
  assumes "(name, ps) \<in> set trafficProfileNumbersByName" "name \<noteq> []"
  shows "in_profile (TrafficProfileNumbersFromName name) ov dv \<longleftrightarrow> TrafficNameFromNumbers ov dv = name"
proof -
  have keep: "list_all (\<lambda>(name, ps). strings_ToLower name = name \<and> map_of trafficProfileNumbersByName name = Some ps)
      trafficProfileNumbersByName"
    by code_simp
  then have here: "TrafficProfileNumbersFromName name = ps"
    using assms(1) by (auto simp: list_all_iff TrafficProfileNumbersFromName_def)
  define classes where "classes = [10, 20, 80, 90, 100, 110 :: u32]"
  have listed: "list_all (\<lambda>(name, ps). list_all (\<lambda>p. list_all (\<lambda>v. v \<in> set classes) (OriginationNumbers p) \<and>
      list_all (\<lambda>v. v \<in> set classes) (DestinationNumbers p)) ps) trafficProfileNumbersByName"
    unfolding classes_def by code_simp
  have agree: "list_all (\<lambda>(name, ps). name = [] \<or> list_all (\<lambda>ov. list_all (\<lambda>dv.
      in_profile ps ov dv \<longleftrightarrow> TrafficNameFromNumbers ov dv = name) classes) classes) trafficProfileNumbersByName"
    unfolding classes_def by code_simp
  show ?thesis
  proof (cases "ov \<in> set classes \<and> dv \<in> set classes")
    case True
    have "list_all (\<lambda>ov. list_all (\<lambda>dv. in_profile ps ov dv \<longleftrightarrow> TrafficNameFromNumbers ov dv = name) classes) classes"
      using agree [unfolded list_all_iff [of _ trafficProfileNumbersByName], THEN bspec, OF assms(1)] assms(2) by simp
    with True show ?thesis unfolding here list_all_iff by blast
  next
    case False
    then have "\<not> in_profile ps ov dv"
      using listed [unfolded list_all_iff [of _ trafficProfileNumbersByName], THEN bspec, OF assms(1)]
      unfolding in_profile_def list_ex_iff list_all_iff prod.case by blast
    moreover have "TrafficNameFromNumbers ov dv = []"
    proof (rule TrafficNameFromNumbers_unknown)
      show "\<not> (from_cloud ov \<or> ov = 10 \<or> ov = 20) \<or> \<not> (from_cloud dv \<or> dv = 10 \<or> dv = 20)"
        using False unfolding classes_def from_cloud_def by simp blast
    qed
    ultimately show ?thesis using assms(2) by (simp add: here)
  qed
qed

theorem traffic_profile_agrees_witness:
  "in_profile (TrafficProfileNumbersFromName ''multi-cloud'') 80 110"
proof -
  have "list_ex (\<lambda>(n, ps). n = ''multi-cloud'') trafficProfileNumbersByName"
    by code_simp
  then obtain ps where "(''multi-cloud'', ps) \<in> set trafficProfileNumbersByName"
    by (auto simp: list_ex_iff)
  from traffic_profile_agrees [OF this, of 80 110] show ?thesis
    by (simp add: TrafficNameFromNumbers_def Let_def from_cloud_def)
qed

end
