(* ===== verification/Tag_Mapper.thy ===== *)
theory Tag_Mapper
  imports Go_Strings "HOL-Library.AList"
begin

text \<open>
  The tag mapper that reads its tables from a CSV file, \<open>pkg/maps/file/file.go\<close>: lines of two fields
  fill a table of strings, lines of three define a function for a column (or count as two), lines
  of four map a value of a column to another column and value.  Opening the file, decompressing it
  and splitting it into lines is not modelled: the mapper is built from the lines.
\<close>

unbundle bit_operations_syntax

definition FixupName :: "string \<Rightarrow> string" where
  "FixupName name = strings_ToLower (strings_ReplaceByte name (CHR '' '') (CHR ''_''))"

text \<open>\<open>strconv.FormatInt(n, 16)\<close>.\<close>

fun hex_digits :: "nat \<Rightarrow> string" where
  "hex_digits n = (let c = (\<lambda>d :: nat. if d < 10 then char_of (d + 48) else char_of (d + 87)) in
     if n < 16 then [c n] else hex_digits (n div 16) @ [c (n mod 16)])"

declare hex_digits.simps [simp del]

definition FormatInt16 :: "i64 \<Rightarrow> string" where
  "FormatInt16 n = (if sint n < 0 then CHR ''-'' # hex_digits (nat (- sint n)) else hex_digits (nat (sint n)))"

text \<open>The only function that a line can name is \<open>to_hex\<close>; a function is its target column.\<close>

record FileTagMapper =
  ftm_tags :: "u32 \<Rightarrow> (string \<Rightarrow> (string \<times> string) option) option"
  ftm_funcs :: "string \<Rightarrow> string option"
  ftm_kvs :: "u32 \<Rightarrow> string option"

definition add_line :: "string \<Rightarrow> FileTagMapper \<Rightarrow> FileTagMapper" where
  "add_line line m =
     (case strings_SplitN line '','' 4 of
        [a, b] \<Rightarrow>
          (case strconv_Atoi a of None \<Rightarrow> m
           | Some ida \<Rightarrow> m\<lparr>ftm_kvs := (ftm_kvs m)(ucast ida \<mapsto> b)\<rparr>)
      | [a, b, c] \<Rightarrow>
          (if c = ''to_hex'' then m\<lparr>ftm_funcs := (ftm_funcs m)(a \<mapsto> FixupName b)\<rparr>
           else case strconv_Atoi a of None \<Rightarrow> m
           | Some ida \<Rightarrow> m\<lparr>ftm_kvs := (ftm_kvs m)(ucast ida \<mapsto> strings_Join [b, c] '','')\<rparr>)
      | [a, b, c, d] \<Rightarrow>
          (case strconv_Atoi c of None \<Rightarrow> m
           | Some ida \<Rightarrow> (let col = (case ftm_tags m (ucast ida) of Some t \<Rightarrow> t | None \<Rightarrow> Map.empty)
               in m\<lparr>ftm_tags := (ftm_tags m)(ucast ida \<mapsto> col(FixupName a \<mapsto> (FixupName b, FixupName d)))\<rparr>))
      | _ \<Rightarrow> m)"

definition NewFileTagMapper :: "string list \<Rightarrow> FileTagMapper" where
  "NewFileTagMapper file_lines =
     fold add_line file_lines \<lparr>ftm_tags = Map.empty, ftm_funcs = Map.empty, ftm_kvs = Map.empty\<rparr>"

definition LookupKV :: "FileTagMapper \<Rightarrow> u32 \<Rightarrow> string" where
  "LookupKV m k = (case ftm_kvs m k of Some v \<Rightarrow> v | None \<Rightarrow> [])"

definition tag_of :: "FileTagMapper \<Rightarrow> u32 \<Rightarrow> string \<Rightarrow> (string \<times> string) option" where
  "tag_of m tagval colname = Option.bind (ftm_tags m tagval) (\<lambda>t. t colname)"

definition LookupTagValue :: "FileTagMapper \<Rightarrow> u32 \<Rightarrow> string \<Rightarrow> (string \<times> string) option" where
  "LookupTagValue m tagval colname =
     (case ftm_funcs m colname of
        Some c \<Rightarrow> Some (c, FormatInt16 (ucast tagval))
      | None \<Rightarrow> tag_of m tagval colname)"

definition LookupTagValueBig :: "FileTagMapper \<Rightarrow> i64 \<Rightarrow> string \<Rightarrow> (string \<times> string) option" where
  "LookupTagValueBig m tagval colname =
     (case ftm_funcs m colname of
        Some c \<Rightarrow> Some (c, FormatInt16 tagval)
      | None \<Rightarrow> tag_of m (ucast tagval) colname)"

section \<open>Which line wins\<close>

text \<open>The specification: what a line says of a column and a value.\<close>

definition says_tag :: "u32 \<Rightarrow> string \<Rightarrow> string \<Rightarrow> (string \<times> string) option" where
  "says_tag v col line =
     (case strings_SplitN line '','' 4 of
        [a, b, c, d] \<Rightarrow> (case strconv_Atoi c of None \<Rightarrow> None
          | Some ida \<Rightarrow> if ucast ida = v \<and> FixupName a = col then Some (FixupName b, FixupName d) else None)
      | _ \<Rightarrow> None)"

definition says_func :: "string \<Rightarrow> string \<Rightarrow> string option" where
  "says_func col line =
     (case strings_SplitN line '','' 4 of
        [a, b, c] \<Rightarrow> if c = ''to_hex'' \<and> a = col then Some (FixupName b) else None
      | _ \<Rightarrow> None)"

fun last_said :: "('l \<Rightarrow> 'a option) \<Rightarrow> 'l list \<Rightarrow> 'a option" where
  "last_said f [] = None"
| "last_said f (l # ls) = (case last_said f ls of Some a \<Rightarrow> Some a | None \<Rightarrow> f l)"

lemma fold_last_said:
  assumes "\<And>l m. get (step l m) = (case f l of Some a \<Rightarrow> Some a | None \<Rightarrow> get m)"
  shows "get (fold step ls m) = (case last_said f ls of Some a \<Rightarrow> Some a | None \<Rightarrow> get m)"
  by (induction ls arbitrary: m) (auto simp: assms split: option.splits)

lemma add_line_tag: "tag_of (add_line l m) v col = (case says_tag v col l of Some a \<Rightarrow> Some a | None \<Rightarrow> tag_of m v col)"
  by (auto simp: add_line_def says_tag_def tag_of_def Let_def split: list.splits option.splits)

lemma add_line_func: "ftm_funcs (add_line l m) col = (case says_func col l of Some a \<Rightarrow> Some a | None \<Rightarrow> ftm_funcs m col)"
  by (auto simp: add_line_def says_func_def Let_def split: list.splits option.splits)

text \<open>
  C40: a lookup in a mapper that was read from a file answers with the function of the
  column if the file defines one, from its last definition, and otherwise with what the last line
  about this column and value says; no other line matters.
\<close>

theorem tag_lookup_last_line_wins:
  "LookupTagValue (NewFileTagMapper ls) v col =
     (case last_said (says_func col) ls of
        Some c \<Rightarrow> Some (c, FormatInt16 (ucast v))
      | None \<Rightarrow> last_said (says_tag v col) ls)"
  using fold_last_said [of "\<lambda>m. ftm_funcs m col" add_line "says_func col", OF add_line_func]
    fold_last_said [of "\<lambda>m. tag_of m v col" add_line "says_tag v col", OF add_line_tag]
  by (auto simp: LookupTagValue_def NewFileTagMapper_def tag_of_def split: option.splits)

text \<open>A 64-bit value is looked up by its low 32 bits: values that agree there share their tags.\<close>

lemma big_tag_aliases:
  "ftm_funcs m col = None \<Longrightarrow> LookupTagValueBig m (w + 2 ^ 32) col = LookupTagValueBig m w col"
proof -
  have "(ucast (w + 2 ^ 32) :: u32) = ucast w"
    by transfer (simp add: take_bit_eq_mod mod_mod_cancel)
  then show "ftm_funcs m col = None \<Longrightarrow> ?thesis"
    by (simp add: LookupTagValueBig_def)
qed

end
