(* ===== verification/Cat_Flow.thy ===== *)
theory Cat_Flow
  imports Kt_Types Ic_Proto Ic_Classes Tag_Mapper Go_Net Nf_Read
begin

text \<open>
  The conversion of a Kentik flow to the flow record, \<open>flowToJCHF\<close> of \<open>pkg/cat/jchf.go\<close>.  The
  record that is filled comes from a pool and still holds what the flow before left in it.  What the
  function asks of the API client, the tag mappers and the resolver is in the record \<open>cat_env\<close>;
  the loops over Go maps take the order of their keys as an argument.  \<open>UpdateTests\<close> refreshes the
  cache of the API client for later flows and is left out.
\<close>

section \<open>The flow\<close>

text \<open>The accessors of the Cap'n Proto message; \<open>None\<close> for a text is the error.\<close>

datatype Custom_value =
    Uint16Val u16 | Uint32Val u32 | Uint64Val u64 | StrVal string | AddrVal "u8 list" | Float32Val u32 | OtherVal

record CHF =
  chf_DstAs :: u32
  chf_DstGeo :: u32
  chf_DstGeoRegion :: u32
  chf_DstGeoCity :: u32
  chf_HeaderLen :: u32
  chf_InputPort :: u32
  chf_IpSize :: u32
  chf_L4DstPort :: u32
  chf_L4SrcPort :: u32
  chf_OutputPort :: u32
  chf_Protocol :: u32
  chf_SampledPacketSize :: u32
  chf_SrcAs :: u32
  chf_SrcGeo :: u32
  chf_SrcGeoRegion :: u32
  chf_SrcGeoCity :: u32
  chf_TcpFlags :: u32
  chf_Tos :: u32
  chf_VlanIn :: u32
  chf_VlanOut :: u32
  chf_MplsType :: u32
  chf_TcpRetransmit :: u32
  chf_SampleRate :: u32
  chf_DeviceId :: u32
  chf_SrcNextHopAs :: u32
  chf_DstNextHopAs :: u32
  chf_SrcSecondAsn :: u32
  chf_DstSecondAsn :: u32
  chf_SrcThirdAsn :: u32
  chf_DstThirdAsn :: u32
  chf_Ipv4DstAddr :: u32
  chf_Ipv4SrcAddr :: u32
  chf_SrcRoutePrefix :: u32
  chf_DstRoutePrefix :: u32
  chf_Ipv4SrcNextHop :: u32
  chf_Ipv4DstNextHop :: u32
  chf_InBytes :: u64
  chf_InPkts :: u64
  chf_OutBytes :: u64
  chf_OutPkts :: u64
  chf_SrcEthMac :: u64
  chf_DstEthMac :: u64
  chf_Ipv6DstAddr :: "u8 list"
  chf_Ipv6SrcAddr :: "u8 list"
  chf_Ipv6SrcNextHop :: "u8 list"
  chf_Ipv6DstNextHop :: "u8 list"
  chf_SrcFlowTags :: "string option"
  chf_DstFlowTags :: "string option"
  chf_SrcBgpAsPath :: "string option"
  chf_DstBgpAsPath :: "string option"
  chf_SrcBgpCommunity :: "string option"
  chf_DstBgpCommunity :: "string option"
  chf_Custom :: "(u32 \<times> Custom_value) list"
  chf_Big :: bool
  chf_SampleAdj :: bool

record Flow =
  flow_CompanyId :: i64
  flow_CHF :: CHF
  flow_DeviceName :: string

section \<open>What the conversion asks others\<close>

record kt_Interface =
  if_Description :: string
  if_Alias :: string
  if_SnmpSpeedMbps :: i64
  if_Address :: string
  if_Provider :: string
  if_NetworkBoundary :: string
  if_ConnectivityType :: string

text \<open>A device: the site by its name, the full site by its market and its country.\<close>

record kt_Device =
  dev_Name :: string
  dev_DeviceSubtype :: string
  dev_SendingIps :: "u8 list list"
  dev_Site :: "string option"
  dev_Interfaces :: "u64 \<Rightarrow> kt_Interface option"
  dev_Customs :: "(u32 \<times> string) list"
  dev_FullSite :: "(string \<times> string) option"

record syn_Agent =
  ag_Alias :: string
  ag_LocalIp :: string
  ag_Ip :: string
  ag_Asn :: u32
  ag_Region :: string
  ag_City :: string
  ag_Country :: string
  ag_CloudRegion :: string
  ag_CloudProvider :: string
  ag_SiteName :: string
  ag_Id :: string

datatype udr_type = UDR_TYPE_INT | UDR_TYPE_BIGINT | UDR_TYPE_STRING

record UDR =
  udr_ColumnName :: string
  udr_ApplicationName :: string
  udr_Type :: udr_type

record UDRMapper =
  um_UDRs :: "i32 \<Rightarrow> (string \<Rightarrow> UDR option) option"
  um_Subtypes :: "string \<Rightarrow> (string \<Rightarrow> UDR option) option"

record cat_env =
  env_Region :: "u32 \<Rightarrow> string"
  env_City :: "u32 \<Rightarrow> string"
  env_Device :: "u64 \<Rightarrow> u64 \<Rightarrow> kt_Device option"
  env_Resolve :: "(string \<Rightarrow> string) option"
  env_Customs :: "u32 \<Rightarrow> string option"
  env_TagValue :: "u64 \<Rightarrow> u32 \<Rightarrow> string \<Rightarrow> (string \<times> string) option"
  env_TagValueBig :: "u64 \<Rightarrow> i64 \<Rightarrow> string \<Rightarrow> (string \<times> string) option"
  env_udrMapr :: "UDRMapper option"
  env_Test :: "i64 \<Rightarrow> (string \<times> string) option"
  env_Agent :: "i64 \<Rightarrow> syn_Agent option"
  env_AgentByIP :: "string \<Rightarrow> syn_Agent option"
  env_defaultProvider :: string

section \<open>Writing custom columns\<close>

definition put_str :: "string \<Rightarrow> string \<Rightarrow> JCHF \<Rightarrow> JCHF" where
  "put_str k v j = j\<lparr>CustomStr := Some ((map_read (CustomStr j))(k \<mapsto> v))\<rparr>"

definition put_int :: "string \<Rightarrow> i32 \<Rightarrow> JCHF \<Rightarrow> JCHF" where
  "put_int k v j = j\<lparr>CustomInt := Some ((map_read (CustomInt j))(k \<mapsto> v))\<rparr>"

definition put_big :: "string \<Rightarrow> i64 \<Rightarrow> JCHF \<Rightarrow> JCHF" where
  "put_big k v j = j\<lparr>CustomBigInt := Some ((map_read (CustomBigInt j))(k \<mapsto> v))\<rparr>"

definition put_float :: "string \<Rightarrow> u32 \<Rightarrow> JCHF \<Rightarrow> JCHF" where
  "put_float k v j = j\<lparr>CustomFloat := Some ((map_read (CustomFloat j))(k \<mapsto> v))\<rparr>"

definition delete_str :: "string \<Rightarrow> JCHF \<Rightarrow> JCHF" where
  "delete_str k j = j\<lparr>CustomStr := Some ((map_read (CustomStr j))(k := None))\<rparr>"

definition delete_int :: "string \<Rightarrow> JCHF \<Rightarrow> JCHF" where
  "delete_int k j = j\<lparr>CustomInt := Some ((map_read (CustomInt j))(k := None))\<rparr>"

definition delete_big :: "string \<Rightarrow> JCHF \<Rightarrow> JCHF" where
  "delete_big k j = j\<lparr>CustomBigInt := Some ((map_read (CustomBigInt j))(k := None))\<rparr>"

definition get_int :: "JCHF \<Rightarrow> string \<Rightarrow> i32" where
  "get_int j k = (case map_read (CustomInt j) k of Some v \<Rightarrow> v | None \<Rightarrow> 0)"

definition get_big :: "JCHF \<Rightarrow> string \<Rightarrow> i64" where
  "get_big j k = (case map_read (CustomBigInt j) k of Some v \<Rightarrow> v | None \<Rightarrow> 0)"

definition get_str :: "JCHF \<Rightarrow> string \<Rightarrow> string" where
  "get_str j k = map_string (CustomStr j) k"

section \<open>The fields of the message\<close>

text \<open>\<open>%c\<close> of package \<open>fmt\<close>: the UTF-8 encoding of a code point, or of U+FFFD when it is not one.\<close>

definition rune_utf8 :: "u32 \<Rightarrow> string" where
  "rune_utf8 w =
     (let n = (if 0x10FFFF < uint w \<or> (0xD800 \<le> uint w \<and> uint w \<le> 0xDFFF) then 0xFFFD else uint w);
          b = (\<lambda>i :: int. char_of i) in
      if n < 0x80 then [b n]
      else if n < 0x800 then [b (0xC0 + n div 64), b (0x80 + n mod 64)]
      else if n < 0x10000 then [b (0xE0 + n div 4096), b (0x80 + n div 64 mod 64), b (0x80 + n mod 64)]
      else [b (0xF0 + n div 262144), b (0x80 + n div 4096 mod 64), b (0x80 + n div 64 mod 64), b (0x80 + n mod 64)])"

definition geo_name :: "u32 \<Rightarrow> string" where
  "geo_name g = (let s = rune_utf8 (drop_bit 8 g) @ rune_utf8 (g AND 0xFF) in if hd s = CHR ''-'' then ''--'' else s)"

definition UDR_TYPE :: string where
  "UDR_TYPE = ''application_type''"

definition APP_PROTOCOL_COL :: string where
  "APP_PROTOCOL_COL = ''app_protocol''"

text \<open>Lines 76 to 128: new maps for the custom columns, and the numbers.\<close>

definition flow_numbers :: "cat_env \<Rightarrow> i64 \<Rightarrow> Flow \<Rightarrow> JCHF \<Rightarrow> JCHF" where
  "flow_numbers env currentTS src dst =
     (let c = flow_CHF src in
      dst\<lparr>CustomStr := Some Map.empty, CustomInt := Some Map.empty, CustomBigInt := Some Map.empty,
        CustomFloat := Some Map.empty,
        Timestamp := currentTS, DstAs := chf_DstAs c,
        DstGeo := (if 0 < chf_DstGeo c then geo_name (chf_DstGeo c) else DstGeo dst),
        DstGeoRegion := env_Region env (chf_DstGeoRegion c), DstGeoCity := env_City env (chf_DstGeoCity c),
        HeaderLen := chf_HeaderLen c, InBytes := chf_InBytes c, InPkts := chf_InPkts c,
        InputPort := ucast (chf_InputPort c), IpSize := chf_IpSize c, L4DstPort := chf_L4DstPort c,
        L4SrcPort := chf_L4SrcPort c, OutputPort := ucast (chf_OutputPort c),
        Protocol := PROTO_NAMES (ucast (chf_Protocol c)), SampledPacketSize := chf_SampledPacketSize c,
        SrcAs := chf_SrcAs c,
        SrcGeo := (if 0 < chf_SrcGeo c then geo_name (chf_SrcGeo c) else SrcGeo dst),
        SrcGeoRegion := env_Region env (chf_SrcGeoRegion c), SrcGeoCity := env_City env (chf_SrcGeoCity c),
        TcpFlags := chf_TcpFlags c, Tos := chf_Tos c, VlanIn := chf_VlanIn c, VlanOut := chf_VlanOut c,
        MplsType := chf_MplsType c, OutBytes := chf_OutBytes c, OutPkts := chf_OutPkts c,
        TcpRetransmit := chf_TcpRetransmit c, SampleRate := chf_SampleRate c div 100,
        DeviceId := ucast (chf_DeviceId c), DeviceName := flow_DeviceName src, CompanyId := flow_CompanyId src,
        SrcNextHopAs := chf_SrcNextHopAs c, DstNextHopAs := chf_DstNextHopAs c,
        SrcSecondAsn := chf_SrcSecondAsn c, DstSecondAsn := chf_DstSecondAsn c,
        SrcThirdAsn := chf_SrcThirdAsn c, DstThirdAsn := chf_DstThirdAsn c\<rparr>)"

text \<open>Lines 130 to 166: what is known about the device and its interfaces.\<close>

definition input_interface :: "kt_Device \<Rightarrow> JCHF \<Rightarrow> JCHF" where
  "input_interface d dst =
     (case dev_Interfaces d (InputPort dst) of
        None \<Rightarrow> dst
      | Some i \<Rightarrow> put_str ''input_connectivity_type'' (if_ConnectivityType i)
          (put_str ''input_network_boundary'' (if_NetworkBoundary i) (put_str ''input_provider'' (if_Provider i)
          (dst\<lparr>InputIntDesc := if_Description i, InputIntAlias := if_Alias i,
             InputInterfaceCapacity := if_SnmpSpeedMbps i, InputInterfaceIP := if_Address i\<rparr>))))"

definition output_interface :: "kt_Device \<Rightarrow> JCHF \<Rightarrow> JCHF" where
  "output_interface d dst =
     (case dev_Interfaces d (OutputPort dst) of
        None \<Rightarrow> dst
      | Some i \<Rightarrow> put_str ''output_connectivity_type'' (if_ConnectivityType i)
          (put_str ''output_network_boundary'' (if_NetworkBoundary i) (put_str ''output_provider'' (if_Provider i)
          (dst\<lparr>OutputIntDesc := if_Description i, OutputIntAlias := if_Alias i,
             OutputInterfaceCapacity := if_SnmpSpeedMbps i, OutputInterfaceIP := if_Address i\<rparr>))))"

definition flow_device :: "kt_Device option \<Rightarrow> JCHF \<Rightarrow> JCHF" where
  "flow_device dev dst =
     (case dev of
        None \<Rightarrow> dst
      | Some d \<Rightarrow>
          (let j1 = put_str UDR_TYPE (dev_DeviceSubtype d) (dst\<lparr>DeviceName := dev_Name d\<rparr>);
               j2 = (case dev_SendingIps d of [] \<Rightarrow> j1 | ip # _ \<Rightarrow> put_str ''SamplerAddress'' (IP_String ip) j1);
               j3 = (case dev_Site d of None \<Rightarrow> j2 | Some s \<Rightarrow> put_str ''device_site'' s j2);
               j4 = output_interface d (input_interface d j3)
           in case dev_FullSite d of None \<Rightarrow> j4
              | Some (market, country) \<Rightarrow> put_str ''device_site_country'' country (put_str ''device_site_market'' market j4)))"

definition custom_names :: "kt_Device option \<Rightarrow> u32 \<Rightarrow> string option" where
  "custom_names dev = (case dev of None \<Rightarrow> Map.empty | Some d \<Rightarrow> fold (\<lambda>(i, n) m. m(i \<mapsto> n)) (dev_Customs d) Map.empty)"

text \<open>Lines 168 to 192: the MAC addresses are printed from eight bytes; the tags and the BGP data are
  taken over when reading them fails, and a failed read gives the empty text.\<close>

definition on_error :: "string option \<Rightarrow> string \<Rightarrow> string" where
  "on_error t old = (case t of None \<Rightarrow> [] | Some s \<Rightarrow> old)"

definition flow_strings :: "CHF \<Rightarrow> JCHF \<Rightarrow> JCHF" where
  "flow_strings c dst = dst\<lparr>
     SrcEthMac := HardwareAddr_String (be_put 8 (chf_SrcEthMac c)),
     DstEthMac := HardwareAddr_String (be_put 8 (chf_DstEthMac c)),
     SrcFlowTags := on_error (chf_SrcFlowTags c) (SrcFlowTags dst),
     DstFlowTags := on_error (chf_DstFlowTags c) (DstFlowTags dst),
     SrcBgpAsPath := on_error (chf_SrcBgpAsPath c) (SrcBgpAsPath dst),
     DstBgpAsPath := on_error (chf_DstBgpAsPath c) (DstBgpAsPath dst),
     SrcBgpCommunity := on_error (chf_SrcBgpCommunity c) (SrcBgpCommunity dst),
     DstBgpCommunity := on_error (chf_DstBgpCommunity c) (DstBgpCommunity dst)\<rparr>"

text \<open>Lines 194 to 244: the addresses, with the host names when there is a resolver.\<close>

definition Int2ip :: "u32 \<Rightarrow> u8 list" where
  "Int2ip nn = be_put 4 nn"

definition pick_addr :: "u32 \<Rightarrow> u8 list \<Rightarrow> string" where
  "pick_addr v4 v6 = IP_String (if 0 < v4 then Int2ip v4 else v6)"

definition resolve_to :: "cat_env \<Rightarrow> string \<Rightarrow> string \<Rightarrow> JCHF \<Rightarrow> JCHF" where
  "resolve_to env col ip dst = (case env_Resolve env of None \<Rightarrow> dst | Some resolve \<Rightarrow> put_str col (resolve ip) dst)"

definition flow_addresses :: "cat_env \<Rightarrow> CHF \<Rightarrow> JCHF \<Rightarrow> JCHF" where
  "flow_addresses env c dst =
     (let da = pick_addr (chf_Ipv4DstAddr c) (chf_Ipv6DstAddr c);
          sa = pick_addr (chf_Ipv4SrcAddr c) (chf_Ipv6SrcAddr c);
          j1 = resolve_to env ''dst_host'' da (dst\<lparr>DstAddr := da\<rparr>);
          j2 = j1\<lparr>SrcAddr := sa, SrcRoutePrefix := IP_String (Int2ip (chf_SrcRoutePrefix c)),
                 DstRoutePrefix := IP_String (Int2ip (chf_DstRoutePrefix c))\<rparr>
      in (resolve_to env ''src_host'' sa j2)\<lparr>
           SrcNextHop := pick_addr (chf_Ipv4SrcNextHop c) (chf_Ipv6SrcNextHop c),
           DstNextHop := pick_addr (chf_Ipv4DstNextHop c) (chf_Ipv6DstNextHop c)\<rparr>)"

section \<open>Custom columns\<close>

definition custom_u32 :: "cat_env \<Rightarrow> string \<Rightarrow> bool \<Rightarrow> u32 \<Rightarrow> JCHF \<Rightarrow> JCHF" where
  "custom_u32 env name isInt v dst =
     (if name \<in> {''src_cdn_int'', ''dst_cdn_int''} then put_str name (NameByCDN v) dst
      else if name \<in> {''trf_origination'', ''trf_termination'', ''host_direction''} then
        put_str name (table_read NETWORK_CLASS_INT_TO_NAME v) dst
      else if name \<in> {''src_network_bndry'', ''dst_network_bndry'', ''ult_exit_network_bndry''} then
        put_str name (NameFromNBInt (ucast v)) dst
      else if name \<in> {''src_connect_type'', ''dst_connect_type'', ''ult_exit_connect_type''} then
        put_str name (NameFromCTInt CONNECTIVITY_TYPE_INT_TO_NAME (ucast v)) dst
      else if name = ''dst_rpki'' then
        (if 32 < v \<or> v = 4 then
           put_str ''i_dst_rpki_min_name'' RPKI_INVALID_MIN_NAME
             (put_str ''i_dst_rpki_name'' (RPKI_INVALID_prefix @ nat_digits (unat v) @ '')'') dst)
         else put_str ''i_dst_rpki_min_name'' (table_read RPKI_INT_TO_MIN_NAME v)
             (put_str ''i_dst_rpki_name'' (table_read RPKI_INT_TO_NAME v) dst))
      else if name = ''ult_exit_device_id'' then
        (let dst' = put_int name v dst in
         case env_Device env (CompanyId dst) (ucast v) of
           None \<Rightarrow> dst'
         | Some d \<Rightarrow>
             (let j = put_str ''ult_exit_device'' (dev_Name d) dst' in
              case dev_Site d of None \<Rightarrow> j | Some s \<Rightarrow> put_str ''ult_exit_site'' s j))
      else case env_TagValue env (CompanyId dst) v name of
          Some (tk, tv) \<Rightarrow> put_str tk tv dst
        | None \<Rightarrow> if isInt then dst else put_int name v dst)"

definition flow_custom :: "cat_env \<Rightarrow> (u32 \<Rightarrow> string option) \<Rightarrow> u32 \<times> Custom_value \<Rightarrow> JCHF \<Rightarrow> JCHF" where
  "flow_custom env custColNames = (\<lambda>(cid, val) dst.
     let (name, isInt) = (case env_Customs env cid of
         Some n \<Rightarrow> (n, False)
       | None \<Rightarrow> (case custColNames cid of Some k \<Rightarrow> (k, False) | None \<Rightarrow> (nat_digits (unat cid), True)))
     in case val of
          Uint16Val v \<Rightarrow> put_int name (ucast v) dst
        | Uint32Val v \<Rightarrow> custom_u32 env name isInt v dst
        | Uint64Val v \<Rightarrow>
            (case env_TagValueBig env (CompanyId dst) v name of
               Some (tk, tv) \<Rightarrow> put_str tk tv dst
             | None \<Rightarrow> put_big name v dst)
        | StrVal sv \<Rightarrow> put_str name sv dst
        | AddrVal sv \<Rightarrow>
            if 1 < length sv then
              put_str name (IP_String (if hd sv = 4 \<and> length sv = 5 then take 4 (drop 1 sv) else drop 1 sv)) dst
            else dst
        | Float32Val fv \<Rightarrow> put_float name fv dst
        | OtherVal \<Rightarrow> dst)"

definition custom_columns :: "cat_env \<Rightarrow> (u32 \<Rightarrow> string option) \<Rightarrow> CHF \<Rightarrow> JCHF \<Rightarrow> JCHF" where
  "custom_columns env custColNames c = fold (flow_custom env custColNames) (chf_Custom c)"

section \<open>User-defined columns\<close>

definition synResultTypes :: "(i32 \<times> string) list" where
  "synResultTypes = [(0, ''error''), (1, ''timeout''), (2, ''ping''), (3, ''fetch''), (4, ''trace''), (5, ''knock''), (6, ''query''), (7, ''shake''), (8, ''pageload''), (9, ''transaction''), (10, ''dnssec'')]"

text \<open>One row of the mapping: the column moves to its new name, in the map of its type.\<close>

definition udr_move :: "string \<Rightarrow> UDR \<Rightarrow> JCHF \<Rightarrow> JCHF" where
  "udr_move col udr j =
     (case udr_Type udr of
        UDR_TYPE_INT \<Rightarrow>
          (case map_read (CustomInt j) col of
             Some val \<Rightarrow> delete_int col (put_int (udr_ColumnName udr) val j) | None \<Rightarrow> j)
      | UDR_TYPE_STRING \<Rightarrow>
          (case map_read (CustomStr j) col of
             Some val \<Rightarrow> delete_str col (put_str (udr_ColumnName udr) val j) | None \<Rightarrow> j)
      | UDR_TYPE_BIGINT \<Rightarrow>
          (case map_read (CustomBigInt j) col of
             Some val \<Rightarrow> delete_big col (put_big (udr_ColumnName udr) val j)
           | None \<Rightarrow>
               (case map_read (CustomInt j) col of
                  Some val \<Rightarrow> delete_int col (put_int (udr_ColumnName udr) val j) | None \<Rightarrow> j)))"

definition udr_test :: "cat_env \<Rightarrow> string \<Rightarrow> JCHF \<Rightarrow> JCHF" where
  "udr_test env col j =
     (let j1 = put_str ''test_url'' (''https://portal.kentik.com/v4/synthetics/tests/'' @ strconv_Itoa (get_big j col) @ ''/results'') j in
      case env_Test env (get_big j col) of
        Some (name, typ) \<Rightarrow> put_str ''test_type'' typ (put_str ''test_name'' name j1)
      | None \<Rightarrow> put_str ''test_type'' [] (put_str ''test_name'' [] j1))"

definition udr_agent :: "cat_env \<Rightarrow> string \<Rightarrow> JCHF \<Rightarrow> JCHF" where
  "udr_agent env col j =
     (case env_Agent env (get_big j col) of
        None \<Rightarrow> put_str ''agent_name'' [] j
      | Some a \<Rightarrow>
          (let j1 = put_str ''agent_name'' (ag_Alias a) j;
               j2 = (if SrcAddr j1 = [] \<or> SrcAddr j1 = ''<nil>'' then
                       (let sa = (if ag_LocalIp a \<noteq> [] then ag_LocalIp a else ag_Ip a)
                        in resolve_to env ''src_host'' sa (j1\<lparr>SrcAddr := sa\<rparr>))
                     else j1);
               j3 = put_str ''src_site'' (ag_SiteName a) (put_str ''src_cloud_provider'' (ag_CloudProvider a)
                      (put_str ''src_cloud_region'' (ag_CloudRegion a)
                      (j2\<lparr>SrcAs := ag_Asn a, SrcGeoRegion := ag_Region a, SrcGeoCity := ag_City a, SrcGeo := ag_Country a\<rparr>)))
           in if DstAddr j3 \<noteq> [] \<and> DstAddr j3 \<noteq> ''<nil>'' then
                (case env_AgentByIP env (DstAddr j3) of
                   None \<Rightarrow> j3
                 | Some da \<Rightarrow>
                     put_str ''dst_site'' (ag_SiteName da) (put_str ''dst_cloud_provider'' (ag_CloudProvider da)
                       (put_str ''dst_cloud_region'' (ag_CloudRegion da)
                       ((put_str ''dst_agent_id'' (ag_Id da) (put_str ''dst_agent_name'' (ag_Alias da) j3))
                          \<lparr>DstAs := ag_Asn da, DstGeoRegion := ag_Region da, DstGeoCity := ag_City da, DstGeo := ag_Country da\<rparr>))))
              else j3))"

definition udr_visit :: "cat_env \<Rightarrow> string \<Rightarrow> UDR \<Rightarrow> JCHF \<Rightarrow> JCHF" where
  "udr_visit env col udr j =
     (let j1 = udr_move col udr j;
          j2 = (if map_read (CustomStr j1) UDR_TYPE = None then put_str UDR_TYPE (udr_ApplicationName udr) j1 else j1);
          c = udr_ColumnName udr
      in if c = ''result_type'' then put_str ''result_type_str'' (table_read synResultTypes (get_int j2 c)) j2
         else if c = ''test_id'' then udr_test env c j2
         else if c = ''agent_id'' then udr_agent env c j2
         else j2)"

definition udr_columns :: "UDRMapper \<Rightarrow> JCHF \<Rightarrow> string \<Rightarrow> UDR option" where
  "udr_columns um j =
     (if get_str j UDR_TYPE \<noteq> [] \<and> um_Subtypes um (get_str j UDR_TYPE) \<noteq> None then the (um_Subtypes um (get_str j UDR_TYPE))
      else case map_read (CustomInt j) APP_PROTOCOL_COL of
          Some ap \<Rightarrow> map_read (um_UDRs um ap)
        | None \<Rightarrow> Map.empty)"

definition apply_udrs :: "cat_env \<Rightarrow> string list \<Rightarrow> JCHF \<Rightarrow> JCHF" where
  "apply_udrs env order j =
     (case env_udrMapr env of
        None \<Rightarrow> j
      | Some um \<Rightarrow> fold (\<lambda>col j'. case udr_columns um j col of None \<Rightarrow> j' | Some udr \<Rightarrow> udr_visit env col udr j') order j)"

text \<open>\<open>NewUDRMapper\<close> of \<open>pkg/cat/mapping.go\<close>, from the lines of the file.\<close>

definition udr_type_of :: "string \<Rightarrow> udr_type" where
  "udr_type_of s =
     (if strings_HasPrefix s ''INT64_'' then UDR_TYPE_BIGINT
      else if strings_HasPrefix s ''STR'' \<or> strings_HasPrefix s ''INET_'' then UDR_TYPE_STRING
      else UDR_TYPE_INT)"

definition add_udr_line :: "string \<Rightarrow> UDRMapper \<times> nat \<Rightarrow> UDRMapper \<times> nat" where
  "add_udr_line line = (\<lambda>(um, found).
     case strings_SplitN line '','' 4 of
       [p0, p1, p2, p3] \<Rightarrow>
         (case strconv_Atoi p0 of
            None \<Rightarrow> (um, found)
          | Some appId \<Rightarrow>
              (let udr = \<lparr>udr_ColumnName = FixupName p2, udr_ApplicationName = FixupName p3, udr_Type = udr_type_of p1\<rparr>;
                   app = ucast appId :: i32
               in if 0 <s app then
                    (um\<lparr>um_UDRs := (um_UDRs um)(app \<mapsto> (map_read (um_UDRs um app))(FixupName p1 \<mapsto> udr))\<rparr>, found + 1)
                  else
                    (um\<lparr>um_Subtypes := (um_Subtypes um)(p3 \<mapsto> (map_read (um_Subtypes um p3))(FixupName p1 \<mapsto> udr))\<rparr>, found + 1)))
     | _ \<Rightarrow> (um, found))"

definition NewUDRMapper :: "string list \<Rightarrow> UDRMapper \<times> nat" where
  "NewUDRMapper file_lines = fold add_udr_line file_lines (\<lparr>um_UDRs = Map.empty, um_Subtypes = Map.empty\<rparr>, 0)"

section \<open>Common names\<close>

definition remapCustomStrings :: "(string \<times> string) list" where
  "remapCustomStrings =
    [(''kt_aws_dst_acc_id'', ''dest_account''), (''kt_aws_src_acc_id'', ''source_account''),
     (''kt_az_dst_sub_id'', ''dest_account''), (''kt_az_src_sub_id'', ''source_account''),
     (''destination_project_id'', ''dest_account''), (''source_project_id'', ''source_account''),
     (''account'', ''source_account''), (''kt_aws_src_region'', ''source_region''),
     (''kt_aws_dst_region'', ''dest_region''), (''kt_az_src_region'', ''source_region''),
     (''kt_az_dst_region'', ''dest_region''), (''src_region'', ''source_region''),
     (''dst_region'', ''dest_region''), (''source_region'', ''source_region''),
     (''destination_region'', ''dest_region''), (''kt_aws_src_vpc_id'', ''source_vpc''),
     (''kt_aws_dst_vpc_id'', ''dest_vpc''), (''kt_az_dst_rsrc_group'', ''source_vpc''),
     (''kt_az_src_rsrc_group'', ''dest_vpc''), (''source_subnet_name'', ''source_vpc''),
     (''destination_subnet_name'', ''dest_vpc''), (''src_vpc'', ''source_vpc''),
     (''dst_vpc'', ''dest_vpc'')]"

text \<open>The tags of another cloud provider are dropped.\<close>

definition kicked_out :: "string \<Rightarrow> string \<Rightarrow> bool" where
  "kicked_out typ k \<longleftrightarrow>
     (let aws = strings_HasPrefix k ''kt_aws''; az = strings_HasPrefix k ''kt_az'' in
      if typ = ''gcp_subnet'' then aws \<or> az
      else if typ = ''aws_subnet'' then az
      else if typ = ''azure_subnet'' then aws
      else if typ = ''ibm_subnet'' then aws \<or> az
      else False)"

definition remap_visit :: "string \<Rightarrow> JCHF \<Rightarrow> JCHF" where
  "remap_visit k j =
     (case map_read (CustomStr j) k of
        None \<Rightarrow> j
      | Some v \<Rightarrow>
          if kicked_out (get_str j UDR_TYPE) k then delete_str k j
          else case map_of remapCustomStrings k of
              Some n \<Rightarrow> delete_str k (put_str n v j)
            | None \<Rightarrow> j)"

text \<open>The loop ranges over the map it changes: every key that is there at the start and still there
  at its turn is visited, a key that the loop adds may be visited or not.\<close>

definition remap_strings :: "string list \<Rightarrow> JCHF \<Rightarrow> JCHF" where
  "remap_strings order j = fold remap_visit order j"

section \<open>The conversion\<close>

definition getEventType :: "JCHF \<Rightarrow> string" where
  "getEventType dst =
     (if get_int dst APP_PROTOCOL_COL = 12 then ''KSnmp''
      else if get_int dst APP_PROTOCOL_COL = 10 then (if get_int dst ''result_type'' = 4 then ''KTrace'' else ''KSynth'')
      else if get_int dst APP_PROTOCOL_COL = 18 then ''KSynthgest''
      else ''KFlow'')"

definition getProviderType :: "cat_env \<Rightarrow> JCHF \<Rightarrow> string" where
  "getProviderType env dst =
     (case map_read (CustomStr dst) UDR_TYPE of
        None \<Rightarrow> env_defaultProvider env
      | Some udr \<Rightarrow>
          if udr = ''kprobe'' \<or> udr = ''kappa'' then env_defaultProvider env
          else if get_int dst APP_PROTOCOL_COL = 10 \<or> get_int dst APP_PROTOCOL_COL = 11 then ''kentik-network-synthetic''
          else if strings_HasSuffix udr ''_subnet'' then ''kentik-vpc''
          else env_defaultProvider env)"

definition endpoint :: "string \<Rightarrow> u32 \<Rightarrow> string" where
  "endpoint addr port = addr @ '':'' @ strconv_Itoa (ucast port)"

definition finish_flow :: "cat_env \<Rightarrow> JCHF \<Rightarrow> JCHF" where
  "finish_flow env dst =
     (let j1 = (if map_read (CustomStr dst) ''Type'' = None then put_str ''Type'' ''kflow'' dst else dst);
          j2 = put_str ''dst_endpoint'' (endpoint (DstAddr j1) (L4DstPort j1))
                 (put_str ''src_endpoint'' (endpoint (SrcAddr j1) (L4SrcPort j1)) j1);
          j3 = j2\<lparr>EventType := getEventType j2\<rparr>
      in j3\<lparr>Provider := getProviderType env j3\<rparr>)"

definition flowToJCHF :: "cat_env \<Rightarrow> i64 \<Rightarrow> string list \<Rightarrow> string list \<Rightarrow> Flow \<Rightarrow> JCHF \<Rightarrow> JCHF" where
  "flowToJCHF env currentTS udr_order remap_order src dst =
     (let c = flow_CHF src;
          j1 = flow_numbers env currentTS src dst;
          dev = env_Device env (CompanyId j1) (DeviceId j1);
          j2 = flow_addresses env c (flow_strings c (flow_device dev j1));
          j3 = apply_udrs env udr_order (custom_columns env (custom_names dev) c j2)
      in finish_flow env (remap_strings remap_order j3))"

end
