(* ===== verification/Flow_Record.thy ===== *)
theory Flow_Record
  imports Cat_Flow
begin

text \<open>
  What \<open>flowToJCHF\<close> guarantees: which fields of the pooled record survive it, the shape of the
  record it returns, and the renaming of the custom columns.
\<close>

section \<open>The pooled record\<close>

definition known_interface :: "cat_env \<Rightarrow> Flow \<Rightarrow> u32 \<Rightarrow> bool" where
  "known_interface env src port =
     (case env_Device env (flow_CompanyId src) (ucast (chf_DeviceId (flow_CHF src))) of
        None \<Rightarrow> False | Some d \<Rightarrow> dev_Interfaces d (ucast port) \<noteq> None)"

text \<open>The part of the pooled record that reaches the new one; every other field is blank.\<close>

definition carried :: "cat_env \<Rightarrow> Flow \<Rightarrow> JCHF \<Rightarrow> JCHF" where
  "carried env src dst =
     (let c = flow_CHF src;
          known = known_interface env src;
          failed = (\<lambda>t :: string option. t = None)
      in zero_JCHF\<lparr>
           DstGeo := (if 0 < chf_DstGeo c then [] else DstGeo dst),
           SrcGeo := (if 0 < chf_SrcGeo c then [] else SrcGeo dst),
           NextHop := NextHop dst,
           InputIntDesc := (if known (chf_InputPort c) then [] else InputIntDesc dst),
           InputIntAlias := (if known (chf_InputPort c) then [] else InputIntAlias dst),
           InputInterfaceCapacity := (if known (chf_InputPort c) then 0 else InputInterfaceCapacity dst),
           InputInterfaceIP := (if known (chf_InputPort c) then [] else InputInterfaceIP dst),
           OutputIntDesc := (if known (chf_OutputPort c) then [] else OutputIntDesc dst),
           OutputIntAlias := (if known (chf_OutputPort c) then [] else OutputIntAlias dst),
           OutputInterfaceCapacity := (if known (chf_OutputPort c) then 0 else OutputInterfaceCapacity dst),
           OutputInterfaceIP := (if known (chf_OutputPort c) then [] else OutputInterfaceIP dst),
           SrcFlowTags := (if failed (chf_SrcFlowTags c) then [] else SrcFlowTags dst),
           DstFlowTags := (if failed (chf_DstFlowTags c) then [] else DstFlowTags dst),
           SrcBgpAsPath := (if failed (chf_SrcBgpAsPath c) then [] else SrcBgpAsPath dst),
           DstBgpAsPath := (if failed (chf_DstBgpAsPath c) then [] else DstBgpAsPath dst),
           SrcBgpCommunity := (if failed (chf_SrcBgpCommunity c) then [] else SrcBgpCommunity dst),
           DstBgpCommunity := (if failed (chf_DstBgpCommunity c) then [] else DstBgpCommunity dst),
           avroSet := avroSet dst, hasSetAvro := hasSetAvro dst, ApplySample := ApplySample dst\<rparr>)"

lemma flow_numbers_device:
  "CompanyId (flow_numbers env ts src dst) = flow_CompanyId src"
  "DeviceId (flow_numbers env ts src dst) = ucast (chf_DeviceId (flow_CHF src))"
  "InputPort (flow_numbers env ts src dst) = ucast (chf_InputPort (flow_CHF src))"
  "OutputPort (flow_numbers env ts src dst) = ucast (chf_OutputPort (flow_CHF src))"
  by (simp_all add: flow_numbers_def Let_def)

lemma put_str_ports [simp]:
  "InputPort (put_str k v j) = InputPort j" "OutputPort (put_str k v j) = OutputPort j"
  by (simp_all add: put_str_def)

lemma kept_if: "(if b then x else if b then y else z) = (if b then x else z)"
  by simp

lemma on_error_kept: "on_error t (if t = None then y else z) = on_error t z"
  by (simp add: on_error_def split: option.split)

lemmas carry_defs = flow_strings_def flow_numbers_def carried_def zero_JCHF_def Let_def kept_if on_error_kept

definition relabel :: "string \<Rightarrow> string \<Rightarrow> JCHF \<Rightarrow> JCHF" where
  "relabel e p j = j\<lparr>EventType := e, Provider := p\<rparr>"

lemma relabel_select [simp]:
  "CustomStr (relabel e p j) = CustomStr j" "CustomInt (relabel e p j) = CustomInt j"
  "CustomBigInt (relabel e p j) = CustomBigInt j" "CustomFloat (relabel e p j) = CustomFloat j"
  "CompanyId (relabel e p j) = CompanyId j" "SrcAddr (relabel e p j) = SrcAddr j" "DstAddr (relabel e p j) = DstAddr j"
  "L4SrcPort (relabel e p j) = L4SrcPort j" "L4DstPort (relabel e p j) = L4DstPort j"
  by (simp_all add: relabel_def)

lemma relabel_update [simp]:
  "put_str k v (relabel e p j) = relabel e p (put_str k v j)"
  "put_int k i (relabel e p j) = relabel e p (put_int k i j)"
  "put_big k b (relabel e p j) = relabel e p (put_big k b j)"
  "put_float k f (relabel e p j) = relabel e p (put_float k f j)"
  "delete_str k (relabel e p j) = relabel e p (delete_str k j)"
  "delete_int k (relabel e p j) = relabel e p (delete_int k j)"
  "delete_big k (relabel e p j) = relabel e p (delete_big k j)"
  "(relabel e p j)\<lparr>SrcAddr := v\<rparr> = relabel e p (j\<lparr>SrcAddr := v\<rparr>)"
  "(relabel e p j)\<lparr>SrcAs := a, SrcGeoRegion := v, SrcGeoCity := w, SrcGeo := x\<rparr> =
     relabel e p (j\<lparr>SrcAs := a, SrcGeoRegion := v, SrcGeoCity := w, SrcGeo := x\<rparr>)"
  "(relabel e p j)\<lparr>DstAs := a, DstGeoRegion := v, DstGeoCity := w, DstGeo := x\<rparr> =
     relabel e p (j\<lparr>DstAs := a, DstGeoRegion := v, DstGeoCity := w, DstGeo := x\<rparr>)"
  by (simp_all add: relabel_def put_str_def put_int_def put_big_def put_float_def delete_str_def delete_int_def delete_big_def)

lemma relabel_get [simp]:
  "get_int (relabel e p j) = get_int j" "get_big (relabel e p j) = get_big j" "get_str (relabel e p j) = get_str j"
  by (simp_all add: get_int_def get_big_def get_str_def fun_eq_iff)

lemmas relabel_push = if_distrib [of "relabel e p" for e p] option.case_distrib [of "relabel e p" for e p]
  prod.case_distrib [of "relabel e p" for e p] Custom_value.case_distrib [of "relabel e p" for e p]
  udr_type.case_distrib [of "relabel e p" for e p]

lemma resolve_to_relabel [simp]: "resolve_to env col ip (relabel e p j) = relabel e p (resolve_to env col ip j)"
  by (simp add: resolve_to_def split: option.split)

lemma fold_relabel:
  "(\<And>x j. f x (relabel e p j) = relabel e p (f x j)) \<Longrightarrow> fold f xs (relabel e p j) = relabel e p (fold f xs j)"
  by (induction xs arbitrary: j) simp_all

lemma custom_u32_relabel: "custom_u32 env n i v (relabel e p j) = relabel e p (custom_u32 env n i v j)"
  unfolding custom_u32_def Let_def by (simp only: relabel_push relabel_update relabel_select)

lemma custom_columns_relabel: "custom_columns env names c (relabel e p j) = relabel e p (custom_columns env names c j)"
  unfolding custom_columns_def
  by (rule fold_relabel)
    (simp only: flow_custom_def Let_def split_beta relabel_push custom_u32_relabel relabel_update relabel_select)

lemma udr_move_relabel: "udr_move col u (relabel e p j) = relabel e p (udr_move col u j)"
  by (simp only: udr_move_def relabel_push relabel_update relabel_select)

lemma udr_test_relabel: "udr_test env col (relabel e p j) = relabel e p (udr_test env col j)"
  by (simp only: udr_test_def Let_def relabel_push relabel_update relabel_get split_beta)

lemma udr_agent_relabel: "udr_agent env col (relabel e p j) = relabel e p (udr_agent env col j)"
  by (simp only: udr_agent_def Let_def relabel_push [symmetric] relabel_update relabel_get relabel_select resolve_to_relabel)

lemma udr_visit_relabel: "udr_visit env col u (relabel e p j) = relabel e p (udr_visit env col u j)"
  by (simp only: udr_visit_def Let_def relabel_push [symmetric] udr_move_relabel udr_test_relabel udr_agent_relabel
    relabel_update relabel_get relabel_select)

lemma remap_strings_relabel: "remap_strings order (relabel e p j) = relabel e p (remap_strings order j)"
  unfolding remap_strings_def
  by (rule fold_relabel) (simp only: remap_visit_def relabel_push relabel_update relabel_select relabel_get)

lemma relabel_relabel [simp]: "relabel e p (relabel e' p' j) = relabel e p j"
  by (simp add: relabel_def)

lemma getEventType_same [simp]:
  "getEventType (relabel e p j) = getEventType j" "getEventType (j\<lparr>EventType := e\<rparr>) = getEventType j"
  by (simp_all add: getEventType_def get_int_def)

lemma get_int_label [simp]: "get_int (j\<lparr>EventType := e\<rparr>) = get_int j"
  by (simp add: get_int_def fun_eq_iff)

lemma getProviderType_same [simp]:
  "getProviderType env (relabel e p j) = getProviderType env j" "getProviderType env (j\<lparr>EventType := e\<rparr>) = getProviderType env j"
  by (simp_all add: getProviderType_def split: option.split cong: if_cong)

definition with_endpoints :: "JCHF \<Rightarrow> JCHF" where
  "with_endpoints dst =
     (let j1 = (if map_read (CustomStr dst) ''Type'' = None then put_str ''Type'' ''kflow'' dst else dst)
      in put_str ''dst_endpoint'' (endpoint (DstAddr j1) (L4DstPort j1))
           (put_str ''src_endpoint'' (endpoint (SrcAddr j1) (L4SrcPort j1)) j1))"

lemma finish_flow_alt:
  "finish_flow env j = relabel (getEventType (with_endpoints j)) (getProviderType env (with_endpoints j)) (with_endpoints j)"
  by (simp only: finish_flow_def with_endpoints_def Let_def getProviderType_same getEventType_same relabel_def)

lemma finish_flow_relabel: "finish_flow env (relabel e p j) = finish_flow env j"
proof -
  have "with_endpoints (relabel e p j) = relabel e p (with_endpoints j)"
    by (simp add: with_endpoints_def Let_def)
  then show ?thesis
    by (simp only: finish_flow_alt getProviderType_same getEventType_same relabel_relabel)
qed

lemma apply_udrs_relabel: "apply_udrs env order (relabel e p j) = relabel e p (apply_udrs env order j)"
proof (cases "env_udrMapr env")
  case (Some um)
  have "udr_columns um (relabel e p j) = udr_columns um j"
    by (simp only: udr_columns_def relabel_select relabel_get)
  then show ?thesis unfolding apply_udrs_def Some option.case
    by (simp only: fold_relabel udr_visit_relabel relabel_push)
qed (simp add: apply_udrs_def)

text \<open>The record before the custom columns.\<close>

definition flow_columns :: "cat_env \<Rightarrow> i64 \<Rightarrow> Flow \<Rightarrow> JCHF \<Rightarrow> JCHF" where
  "flow_columns env ts src dst = flow_addresses env (flow_CHF src) (flow_strings (flow_CHF src)
     (flow_device (env_Device env (flow_CompanyId src) (ucast (chf_DeviceId (flow_CHF src)))) (flow_numbers env ts src dst)))"

lemma flowToJCHF_alt:
  "flowToJCHF env ts uo ro src dst = finish_flow env (remap_strings ro (apply_udrs env uo
     (custom_columns env (custom_names (env_Device env (flow_CompanyId src) (ucast (chf_DeviceId (flow_CHF src)))))
       (flow_CHF src) (flow_columns env ts src dst))))"
  by (simp only: flowToJCHF_def Let_def flow_numbers_device flow_columns_def)

lemma conversion_relabels:
  assumes "flow_columns env ts src dst = relabel e p (flow_columns env ts src dst')"
  shows "flowToJCHF env ts uo ro src dst = flowToJCHF env ts uo ro src dst'"
  by (simp only: flowToJCHF_alt assms custom_columns_relabel apply_udrs_relabel remap_strings_relabel finish_flow_relabel)

text \<open>
  The conversion of the blank record differs from that of the pooled one, after the numbers, by blank
  interface fields, by \<open>blank_rest\<close> and by nothing else; the stages that follow move these to the end,
  where they are overwritten.
\<close>

definition blank_input :: "bool \<Rightarrow> JCHF \<Rightarrow> JCHF" where
  "blank_input b j = (if b then j\<lparr>InputIntDesc := [], InputIntAlias := [], InputInterfaceCapacity := 0, InputInterfaceIP := []\<rparr> else j)"

definition blank_output :: "bool \<Rightarrow> JCHF \<Rightarrow> JCHF" where
  "blank_output b j = (if b then j\<lparr>OutputIntDesc := [], OutputIntAlias := [], OutputInterfaceCapacity := 0, OutputInterfaceIP := []\<rparr> else j)"

definition blank_rest :: "CHF \<Rightarrow> JCHF \<Rightarrow> JCHF" where
  "blank_rest c j = j\<lparr>
     SrcFlowTags := (if chf_SrcFlowTags c = None then [] else SrcFlowTags j),
     DstFlowTags := (if chf_DstFlowTags c = None then [] else DstFlowTags j),
     SrcBgpAsPath := (if chf_SrcBgpAsPath c = None then [] else SrcBgpAsPath j),
     DstBgpAsPath := (if chf_DstBgpAsPath c = None then [] else DstBgpAsPath j),
     SrcBgpCommunity := (if chf_SrcBgpCommunity c = None then [] else SrcBgpCommunity j),
     DstBgpCommunity := (if chf_DstBgpCommunity c = None then [] else DstBgpCommunity j),
     SrcEthMac := [], DstEthMac := [], DstAddr := [], SrcAddr := [], DstNextHop := [], SrcNextHop := [],
     SrcRoutePrefix := [], DstRoutePrefix := [], EventType := [], Provider := []\<rparr>"

lemma blank_update:
  "put_str k v (blank_input b j) = blank_input b (put_str k v j)"
  "put_str k v (blank_output b j) = blank_output b (put_str k v j)"
  "put_str k v (blank_rest c j) = blank_rest c (put_str k v j)"
  "(blank_input b j)\<lparr>DeviceName := v\<rparr> = blank_input b (j\<lparr>DeviceName := v\<rparr>)"
  "(blank_output b j)\<lparr>DeviceName := v\<rparr> = blank_output b (j\<lparr>DeviceName := v\<rparr>)"
  "(blank_rest c j)\<lparr>DeviceName := v\<rparr> = blank_rest c (j\<lparr>DeviceName := v\<rparr>)"
  by (simp_all add: blank_input_def blank_output_def blank_rest_def put_str_def)

lemma blank_port [simp]:
  "InputPort (blank_input b j) = InputPort j" "OutputPort (blank_input b j) = OutputPort j"
  "InputPort (blank_output b j) = InputPort j" "OutputPort (blank_output b j) = OutputPort j"
  "InputPort (blank_rest c j) = InputPort j" "OutputPort (blank_rest c j) = OutputPort j"
  by (simp_all add: blank_input_def blank_output_def blank_rest_def)

lemma blank_rest_interface:
  "(blank_rest c j)\<lparr>InputIntDesc := v, InputIntAlias := w, InputInterfaceCapacity := n, InputInterfaceIP := x\<rparr> =
     blank_rest c (j\<lparr>InputIntDesc := v, InputIntAlias := w, InputInterfaceCapacity := n, InputInterfaceIP := x\<rparr>)"
  "(blank_rest c j)\<lparr>OutputIntDesc := v, OutputIntAlias := w, OutputInterfaceCapacity := n, OutputInterfaceIP := x\<rparr> =
     blank_rest c (j\<lparr>OutputIntDesc := v, OutputIntAlias := w, OutputInterfaceCapacity := n, OutputInterfaceIP := x\<rparr>)"
  by (simp_all add: blank_rest_def)

lemma interface_blank_rest:
  "input_interface d (blank_rest c j) = blank_rest c (input_interface d j)"
  "output_interface d (blank_rest c j) = blank_rest c (output_interface d j)"
  by (simp_all only: input_interface_def output_interface_def blank_port blank_rest_interface blank_update
    option.case_distrib [of "blank_rest c" for c])

lemma blank_input_absorbed:
  "(blank_input b j)\<lparr>InputIntDesc := v, InputIntAlias := w, InputInterfaceCapacity := n, InputInterfaceIP := x\<rparr> =
     j\<lparr>InputIntDesc := v, InputIntAlias := w, InputInterfaceCapacity := n, InputInterfaceIP := x\<rparr>"
  "(blank_output b j)\<lparr>InputIntDesc := v, InputIntAlias := w, InputInterfaceCapacity := n, InputInterfaceIP := x\<rparr> =
     blank_output b (j\<lparr>InputIntDesc := v, InputIntAlias := w, InputInterfaceCapacity := n, InputInterfaceIP := x\<rparr>)"
  by (simp_all add: blank_input_def blank_output_def)

lemma input_interface_blank:
  assumes "b \<Longrightarrow> dev_Interfaces d (InputPort j) \<noteq> None"
  shows "input_interface d (blank_input b (blank_output b' j)) = blank_output b' (input_interface d j)"
proof (cases "dev_Interfaces d (InputPort j)")
  case None
  moreover from this assms have "\<not> b" by auto
  ultimately show ?thesis by (simp add: input_interface_def blank_input_def)
next
  case (Some i)
  then show ?thesis
    by (simp only: input_interface_def blank_port option.case blank_input_absorbed blank_update)
qed

lemma output_interface_blank:
  assumes "b \<Longrightarrow> dev_Interfaces d (OutputPort j) \<noteq> None"
  shows "output_interface d (blank_output b j) = output_interface d j"
  using assms by (cases "dev_Interfaces d (OutputPort j)") (auto simp: output_interface_def blank_output_def put_str_def)

lemma interface_ports [simp]: "OutputPort (input_interface d j) = OutputPort j"
  by (simp add: input_interface_def put_str_def split: option.split)

lemmas blank_pull =
  if_distrib [of "blank_rest c" for c, symmetric] option.case_distrib [of "blank_rest c" for c, symmetric]
  prod.case_distrib [of "blank_rest c" for c, symmetric] list.case_distrib [of "blank_rest c" for c, symmetric]

lemma flow_device_blank_rest: "flow_device dev (blank_rest c j) = blank_rest c (flow_device dev j)"
  by (simp only: flow_device_def Let_def blank_update interface_blank_rest blank_pull split_beta)

lemma flow_device_blank_interfaces:
  assumes "i \<Longrightarrow> \<exists>d. dev = Some d \<and> dev_Interfaces d (InputPort j) \<noteq> None"
    and "out \<Longrightarrow> \<exists>d. dev = Some d \<and> dev_Interfaces d (OutputPort j) \<noteq> None"
  shows "flow_device dev (blank_input i (blank_output out j)) = flow_device dev j"
proof (cases dev)
  case None
  then show ?thesis using assms by (auto simp: blank_input_def blank_output_def)
next
  case (Some d)
  have ports: "i \<Longrightarrow> dev_Interfaces d (InputPort j) \<noteq> None" "out \<Longrightarrow> dev_Interfaces d (OutputPort j) \<noteq> None"
    using assms Some by auto
  let ?head = "\<lambda>j. let j1 = put_str UDR_TYPE (dev_DeviceSubtype d) (j\<lparr>DeviceName := dev_Name d\<rparr>);
      j2 = (case dev_SendingIps d of [] \<Rightarrow> j1 | ip # _ \<Rightarrow> put_str ''SamplerAddress'' (IP_String ip) j1)
    in case dev_Site d of None \<Rightarrow> j2 | Some s \<Rightarrow> put_str ''device_site'' s j2"
  have "?head (blank_input i (blank_output out j)) = blank_input i (blank_output out (?head j))"
    by (simp add: blank_update Let_def split: option.split list.split)
  moreover have at_port: "InputPort (?head j) = InputPort j" "OutputPort (?head j) = OutputPort j"
    by (simp_all add: Let_def split: option.split list.split)
  have "output_interface d (input_interface d (blank_input i (blank_output out j'))) = output_interface d (input_interface d j')"
    if "InputPort j' = InputPort j" "OutputPort j' = OutputPort j" for j'
    using ports that by (simp add: input_interface_blank output_interface_blank)
  note this [OF at_port]
  ultimately have "output_interface d (input_interface d (?head (blank_input i (blank_output out j)))) =
      output_interface d (input_interface d (?head j))"
    by (simp only:)
  then show ?thesis
    unfolding flow_device_def Some option.case Let_def by (simp only:)
qed

lemma flow_addresses_blank_rest:
  "flow_addresses env c (flow_strings c (blank_rest c j)) = relabel [] [] (flow_addresses env c (flow_strings c j))"
  by (simp add: flow_addresses_def flow_strings_def blank_rest_def relabel_def resolve_to_def put_str_def on_error_kept Let_def
    split: option.split)

lemma flow_numbers_carried:
  "flow_numbers env ts src (carried env src dst) =
    blank_rest (flow_CHF src) (blank_input (known_interface env src (chf_InputPort (flow_CHF src)))
      (blank_output (known_interface env src (chf_OutputPort (flow_CHF src))) (flow_numbers env ts src dst)))"
  by (rule JCHF.equality) (simp_all add: carry_defs blank_rest_def blank_input_def blank_output_def)

lemma flow_columns_carried:
  "flow_columns env ts src (carried env src dst) = relabel [] [] (flow_columns env ts src dst)"
proof -
  let ?dev = "env_Device env (flow_CompanyId src) (ucast (chf_DeviceId (flow_CHF src)))"
  have "flow_device ?dev (blank_input (known_interface env src (chf_InputPort (flow_CHF src)))
      (blank_output (known_interface env src (chf_OutputPort (flow_CHF src))) (flow_numbers env ts src dst))) =
    flow_device ?dev (flow_numbers env ts src dst)"
    by (rule flow_device_blank_interfaces) (auto simp: known_interface_def flow_numbers_device split: option.splits)
  then show ?thesis
    by (simp only: flow_columns_def flow_numbers_carried flow_device_blank_rest flow_addresses_blank_rest)
qed


section \<open>The shape of the result\<close>

lemma resolve_to_writes:
  "resolve_to env col ip j = j\<lparr>CustomStr := (case env_Resolve env of None \<Rightarrow> CustomStr j
     | Some r \<Rightarrow> Some ((map_read (CustomStr j))(col \<mapsto> r ip)))\<rparr>"
  by (simp add: resolve_to_def put_str_def split: option.split)


text \<open>
  After the columns of the message the conversion only writes custom columns, the source and destination
  data of synthetic agents, and the two labels.  A predicate that these writes preserve holds for the
  result when it holds for the record with the columns of the message.
\<close>

locale flow_invariant =
  fixes P :: "JCHF \<Rightarrow> bool"
  assumes P_str: "P j \<Longrightarrow> P (put_str k v j)" and P_int: "P j \<Longrightarrow> P (put_int k i j)"
    and P_big: "P j \<Longrightarrow> P (put_big k b j)" and P_float: "P j \<Longrightarrow> P (put_float k f j)"
    and P_del_str: "P j \<Longrightarrow> P (delete_str k j)" and P_del_int: "P j \<Longrightarrow> P (delete_int k j)"
    and P_del_big: "P j \<Longrightarrow> P (delete_big k j)"
    and P_addr: "P j \<Longrightarrow> P (j\<lparr>SrcAddr := v\<rparr>)"
    and P_src: "P j \<Longrightarrow> P (j\<lparr>SrcAs := a, SrcGeoRegion := v, SrcGeoCity := w, SrcGeo := x\<rparr>)"
    and P_dst: "P j \<Longrightarrow> P (j\<lparr>DstAs := a, DstGeoRegion := v, DstGeoCity := w, DstGeo := x\<rparr>)"
    and P_label: "P j \<Longrightarrow> P (relabel e p j)"
begin

lemmas P_writes = P_str P_int P_big P_float P_del_str P_del_int P_del_big P_addr P_src P_dst P_label

lemma P_branch:
  "P x \<Longrightarrow> P y \<Longrightarrow> P (if b then x else y)"
  "P x \<Longrightarrow> (\<And>v. P (f v)) \<Longrightarrow> P (case opt of None \<Rightarrow> x | Some v \<Rightarrow> f v)"
  "(\<And>v w. P (g v w)) \<Longrightarrow> P (case p of (v, w) \<Rightarrow> g v w)"
  by (auto split: option.split prod.split)

lemma P_fold: "(\<And>x j. P j \<Longrightarrow> P (f x j)) \<Longrightarrow> P j \<Longrightarrow> P (fold f xs j)"
  by (induction xs arbitrary: j) simp_all

lemma P_resolve_to: "P j \<Longrightarrow> P (resolve_to env col ip j)"
  unfolding resolve_to_def by (intro P_branch P_writes)

lemma P_custom_u32: "P j \<Longrightarrow> P (custom_u32 env n i v j)"
  unfolding custom_u32_def Let_def by (intro P_branch P_writes)

lemma P_flow_custom: "P j \<Longrightarrow> P (flow_custom env names x j)"
  unfolding flow_custom_def Let_def split_beta
  by (cases "snd x"; simp only: Custom_value.case; intro P_branch P_writes P_custom_u32)

lemma P_udr_move: "P j \<Longrightarrow> P (udr_move col u j)"
  unfolding udr_move_def by (cases "udr_Type u"; simp only: udr_type.case; intro P_branch P_writes)

lemma P_udr_test: "P j \<Longrightarrow> P (udr_test env col j)"
  unfolding udr_test_def Let_def by (intro P_branch P_writes)

lemma P_udr_agent: "P j \<Longrightarrow> P (udr_agent env col j)"
  unfolding udr_agent_def Let_def by (intro P_branch P_writes P_resolve_to)

lemma P_udr_visit: "P j \<Longrightarrow> P (udr_visit env col u j)"
  unfolding udr_visit_def Let_def by (intro P_branch P_writes P_udr_test P_udr_agent P_udr_move)

lemma P_apply_udrs: "P j \<Longrightarrow> P (apply_udrs env order j)"
  unfolding apply_udrs_def by (intro P_branch P_fold P_udr_visit)

lemma P_remap_visit: "P j \<Longrightarrow> P (remap_visit k j)"
  unfolding remap_visit_def by (intro P_branch P_writes)

lemma P_finish_flow: "P j \<Longrightarrow> P (finish_flow env j)"
  unfolding finish_flow_alt with_endpoints_def Let_def by (intro P_branch P_writes)

theorem P_flowToJCHF: "P (flow_columns env ts src dst) \<Longrightarrow> P (flowToJCHF env ts uo ro src dst)"
  unfolding flowToJCHF_alt custom_columns_def remap_strings_def
  by (intro P_finish_flow P_fold P_remap_visit P_apply_udrs P_flow_custom)

end

lemmas write_defs = put_str_def put_int_def put_big_def put_float_def delete_str_def delete_int_def delete_big_def relabel_def

text \<open>The four maps of custom columns are there, so that writing to them cannot panic.\<close>

definition filled :: "JCHF \<Rightarrow> bool" where
  "filled j \<longleftrightarrow> CustomStr j \<noteq> None \<and> CustomInt j \<noteq> None \<and> CustomBigInt j \<noteq> None \<and> CustomFloat j \<noteq> None"

interpretation filled: flow_invariant filled
  by unfold_locales (simp_all add: filled_def write_defs)

lemma filled_flow_columns: "filled (flow_columns env ts src dst)"
proof -
  have "filled (flow_numbers env ts src dst)"
    by (simp add: filled_def flow_numbers_def Let_def)
  moreover have "filled (flow_device dev j)" if "filled j" for dev j
    using that by (simp add: flow_device_def input_interface_def output_interface_def put_str_def filled_def Let_def split: option.split list.split)
  moreover have "filled (flow_strings c j)" if "filled j" for c j
    using that by (simp add: filled_def flow_strings_def)
  moreover have "filled (flow_addresses env c j)" if "filled j" for c j
    using that by (simp add: filled_def flow_addresses_def resolve_to_def put_str_def Let_def split: option.split)
  ultimately show ?thesis by (simp add: flow_columns_def)
qed

text \<open>The record without the fields that the conversion writes after the columns of the message.\<close>

definition settled :: "JCHF \<Rightarrow> JCHF" where
  "settled j = j\<lparr>CustomStr := None, CustomInt := None, CustomBigInt := None, CustomFloat := None, SrcAddr := [],
     SrcAs := 0, SrcGeoRegion := [], SrcGeoCity := [], SrcGeo := [], DstAs := 0, DstGeoRegion := [], DstGeoCity := [],
     DstGeo := [], EventType := [], Provider := []\<rparr>"

interpretation settled: flow_invariant "\<lambda>j. settled j = x" for x
  by unfold_locales (simp_all add: settled_def write_defs)

lemma settled_flowToJCHF: "settled (flowToJCHF env ts uo ro src dst) = settled (flow_columns env ts src dst)"
  by (rule settled.P_flowToJCHF) (rule refl)

lemma getEventType_cases: "getEventType j \<in> {''KFlow'', ''KSnmp'', ''KSynth'', ''KTrace'', ''KSynthgest''}"
  by (simp add: getEventType_def)

lemma relabel_labels [simp]: "EventType (relabel e p j) = e" "Provider (relabel e p j) = p"
  by (simp_all add: relabel_def)

lemma put_str_select [simp]:
  "SrcAddr (put_str k v j) = SrcAddr j" "DstAddr (put_str k v j) = DstAddr j"
  "L4SrcPort (put_str k v j) = L4SrcPort j" "L4DstPort (put_str k v j) = L4DstPort j"
  "CustomStr (put_str k v j) = Some ((map_read (CustomStr j))(k \<mapsto> v))"
  by (simp_all add: put_str_def)

lemma with_endpoints_select:
  "SrcAddr (with_endpoints j) = SrcAddr j" "DstAddr (with_endpoints j) = DstAddr j"
  "L4SrcPort (with_endpoints j) = L4SrcPort j" "L4DstPort (with_endpoints j) = L4DstPort j"
  "map_string (CustomStr (with_endpoints j)) ''src_endpoint'' = endpoint (SrcAddr j) (L4SrcPort j)"
  "map_string (CustomStr (with_endpoints j)) ''dst_endpoint'' = endpoint (DstAddr j) (L4DstPort j)"
  "map_read (CustomStr (with_endpoints j)) ''Type'' \<noteq> None"
  by (simp_all add: with_endpoints_def Let_def map_string_def)

text \<open>
  C14: whatever the flow and the pooled record are, the converted record has its
  four maps of custom columns, a type, one of five event types, and the two endpoints that the
  stitching key reads are the printed source and destination of the record itself.
\<close>

theorem converted_flow_wellformed:
  "let r = flowToJCHF env ts uo ro src dst in
    filled r \<and> map_read (CustomStr r) ''Type'' \<noteq> None \<and>
    EventType r \<in> {''KFlow'', ''KSnmp'', ''KSynth'', ''KTrace'', ''KSynthgest''} \<and>
    map_string (CustomStr r) ''src_endpoint'' = SrcAddr r @ '':'' @ strconv_Itoa (ucast (L4SrcPort r)) \<and>
    map_string (CustomStr r) ''dst_endpoint'' = DstAddr r @ '':'' @ strconv_Itoa (ucast (L4DstPort r))"
proof -
  define r where "r = flowToJCHF env ts uo ro src dst"
  have "filled r"
    unfolding r_def by (rule filled.P_flowToJCHF) (rule filled_flow_columns)
  moreover obtain j where "r = finish_flow env j"
    unfolding r_def flowToJCHF_alt by blast
  ultimately show ?thesis
    using getEventType_cases unfolding r_def [symmetric] Let_def finish_flow_alt
    by (simp add: with_endpoints_select endpoint_def)
qed

definition undescribed :: "JCHF \<Rightarrow> JCHF" where
  "undescribed j = j\<lparr>CustomStr := None, DeviceName := [], InputIntDesc := [], InputIntAlias := [],
     InputInterfaceCapacity := 0, InputInterfaceIP := [], OutputIntDesc := [], OutputIntAlias := [],
     OutputInterfaceCapacity := 0, OutputInterfaceIP := []\<rparr>"

lemma undescribed_flow_device: "undescribed (flow_device dev j) = undescribed j"
proof -
  have put: "undescribed (put_str k v j') = undescribed j'" "undescribed (j'\<lparr>DeviceName := v\<rparr>) = undescribed j'" for k v j'
    by (simp_all add: undescribed_def put_str_def)
  moreover have "undescribed (input_interface d j') = undescribed j'" "undescribed (output_interface d j') = undescribed j'" for d j'
    by (simp_all add: input_interface_def output_interface_def put split: option.split) (simp_all add: undescribed_def)
  ultimately show ?thesis
    by (simp add: flow_device_def Let_def split: option.split list.split)
qed

text \<open>A field that neither \<open>settled\<close> nor \<open>undescribed\<close> blanks is the one of the message.\<close>

lemma field_of_message:
  assumes "\<And>j. f (settled j) = f j" "\<And>j. f (undescribed j) = f j"
    and "\<And>j. f (flow_addresses env (flow_CHF src) (flow_strings (flow_CHF src) j)) = g (f j)"
  shows "f (flowToJCHF env ts uo ro src dst) = g (f (flow_numbers env ts src dst))"
proof -
  have "f (flowToJCHF env ts uo ro src dst) = f (flow_columns env ts src dst)"
    using settled_flowToJCHF assms(1) by metis
  also have "\<dots> = g (f (flow_numbers env ts src dst))"
    unfolding flow_columns_def assms(3) using undescribed_flow_device assms(2) by metis
  finally show ?thesis .
qed

text \<open>
  C12: the counters, ports, interfaces, flags and identifiers of the
  message are in the converted record unchanged, whatever custom columns and mappings there are; the
  sample rate is a hundredth, and the MAC addresses are printed from the eight bytes of their words.
\<close>

theorem converted_flow_carries_the_message:
  "let r = flowToJCHF env ts uo ro src dst; c = flow_CHF src in
    Timestamp r = ts \<and> InBytes r = chf_InBytes c \<and> InPkts r = chf_InPkts c \<and> OutBytes r = chf_OutBytes c \<and>
    OutPkts r = chf_OutPkts c \<and> L4SrcPort r = chf_L4SrcPort c \<and> L4DstPort r = chf_L4DstPort c \<and>
    InputPort r = ucast (chf_InputPort c) \<and> OutputPort r = ucast (chf_OutputPort c) \<and> TcpFlags r = chf_TcpFlags c \<and>
    Tos r = chf_Tos c \<and> VlanIn r = chf_VlanIn c \<and> VlanOut r = chf_VlanOut c \<and>
    Protocol r = PROTO_NAMES (ucast (chf_Protocol c)) \<and> SampleRate r = chf_SampleRate c div 100 \<and>
    DeviceId r = ucast (chf_DeviceId c) \<and> CompanyId r = flow_CompanyId src \<and>
    DstAddr r = pick_addr (chf_Ipv4DstAddr c) (chf_Ipv6DstAddr c) \<and>
    SrcEthMac r = HardwareAddr_String (be_put 8 (chf_SrcEthMac c)) \<and>
    DstEthMac r = HardwareAddr_String (be_put 8 (chf_DstEthMac c))"
proof -
  define r c where r_def: "r = flowToJCHF env ts uo ro src dst" and c_def: "c = flow_CHF src"
  note message = field_of_message [where env = env and src = src and uo = uo and ro = ro and ts = ts and dst = dst, folded r_def, folded c_def]
  note kept = message [where g = "\<lambda>x. x"]
  note defs = settled_def undescribed_def flow_addresses_def flow_strings_def resolve_to_writes Let_def
    flow_numbers_def c_def [symmetric]
  have numbers0: "Timestamp r = ts" "InBytes r = chf_InBytes c" "InPkts r = chf_InPkts c" "OutBytes r = chf_OutBytes c" "OutPkts r = chf_OutPkts c" "L4SrcPort r = chf_L4SrcPort c"
    by (subst kept; simp add: defs)+
  have numbers1: "L4DstPort r = chf_L4DstPort c" "InputPort r = ucast (chf_InputPort c)" "OutputPort r = ucast (chf_OutputPort c)" "TcpFlags r = chf_TcpFlags c" "Tos r = chf_Tos c" "VlanIn r = chf_VlanIn c"
    by (subst kept; simp add: defs)+
  have numbers2: "VlanOut r = chf_VlanOut c" "Protocol r = PROTO_NAMES (ucast (chf_Protocol c))" "SampleRate r = chf_SampleRate c div 100" "DeviceId r = ucast (chf_DeviceId c)" "CompanyId r = flow_CompanyId src"
    by (subst kept; simp add: defs)+
  have text0: "DstAddr r = pick_addr (chf_Ipv4DstAddr c) (chf_Ipv6DstAddr c)"
    by (rule message [where g = "\<lambda>x. pick_addr (chf_Ipv4DstAddr c) (chf_Ipv6DstAddr c)"]) (simp_all add: defs)
  have text1: "SrcEthMac r = HardwareAddr_String (be_put 8 (chf_SrcEthMac c))"
    by (rule message [where g = "\<lambda>x. HardwareAddr_String (be_put 8 (chf_SrcEthMac c))"]) (simp_all add: defs)
  have text2: "DstEthMac r = HardwareAddr_String (be_put 8 (chf_DstEthMac c))"
    by (rule message [where g = "\<lambda>x. HardwareAddr_String (be_put 8 (chf_DstEthMac c))"]) (simp_all add: defs)
  show ?thesis
    unfolding r_def [symmetric] c_def [symmetric] Let_def
    by (simp only: numbers0 numbers1 numbers2 text0 text1 text2 simp_thms)
qed

section \<open>Common names\<close>

abbreviation column :: "JCHF \<Rightarrow> string \<Rightarrow> string option" where
  "column j k \<equiv> map_read (CustomStr j) k"

text \<open>No common name is a name of a cloud provider, and only \<open>source_region\<close> is renamed again.\<close>

lemma common_name_table:
  "list_all (\<lambda>(k, n). \<not> strings_HasPrefix n ''kt_aws'' \<and> \<not> strings_HasPrefix n ''kt_az'' \<and> k \<noteq> UDR_TYPE \<and> n \<noteq> UDR_TYPE \<and>
     (n = ''source_region'' \<or> map_of remapCustomStrings n = None)) remapCustomStrings"
  by code_simp

lemma common_name:
  assumes "map_of remapCustomStrings k = Some n"
  shows "\<not> kicked_out ty n" "k \<noteq> UDR_TYPE" "n \<noteq> UDR_TYPE" "n \<noteq> ''source_region'' \<Longrightarrow> map_of remapCustomStrings n = None"
  using common_name_table map_of_SomeD [OF assms] by (auto simp: list_all_iff kicked_out_def)

lemma remap_visit_column:
  "column (remap_visit k j) c =
     (case column j k of None \<Rightarrow> column j c
      | Some v \<Rightarrow> if kicked_out (get_str j UDR_TYPE) k then (if c = k then None else column j c)
          else (case map_of remapCustomStrings k of None \<Rightarrow> column j c
             | Some n \<Rightarrow> if c = k then None else if c = n then Some v else column j c))"
  by (auto simp: remap_visit_def delete_str_def put_str_def split: option.split)

lemma UDR_TYPE_not_kicked: "\<not> kicked_out ty UDR_TYPE"
  by (simp add: kicked_out_def strings_HasPrefix_def UDR_TYPE_def)

lemma remap_visit_type: "get_str (remap_visit k j) UDR_TYPE = get_str j UDR_TYPE"
proof -
  have "column (remap_visit k j) UDR_TYPE = column j UDR_TYPE"
    using common_name(2,3) [of k] UDR_TYPE_not_kicked [of "get_str j UDR_TYPE"] by (auto simp: remap_visit_column split: option.split)
  then show ?thesis by (simp add: get_str_def map_string_def)
qed

text \<open>
  The state of the loop for one column: it is still there under its old name \<open>k\<close>, or it has arrived
  under the common name \<open>n\<close>, and no other column will be renamed to \<open>n\<close>.
\<close>

definition on_its_way :: "string \<Rightarrow> string \<Rightarrow> string \<Rightarrow> string \<Rightarrow> bool \<Rightarrow> JCHF \<Rightarrow> bool" where
  "on_its_way ty k n v arrived j \<longleftrightarrow>
     get_str j UDR_TYPE = ty \<and>
     (\<forall>k'. k' \<noteq> k \<longrightarrow> map_of remapCustomStrings k' = Some n \<longrightarrow> column j k' = None) \<and>
     (if arrived then column j k = None \<and> column j n = Some v else column j k = Some v)"

lemma on_its_way_visit:
  assumes "on_its_way ty k n v arrived j" "map_of remapCustomStrings k = Some n" "n \<noteq> ''source_region''"
    and "\<not> kicked_out ty k"
  shows "on_its_way ty k n v (arrived \<or> x = k) (remap_visit x j)"
proof -
  have target: "map_of remapCustomStrings y \<noteq> Some y'" if "map_of remapCustomStrings y' = Some n" for y y'
  proof -
    have "map_of remapCustomStrings ''source_region'' = Some ''source_region''"
      by (simp add: remapCustomStrings_def)
    then have "y' \<noteq> ''source_region''" using that assms(3) by auto
    then show ?thesis using common_name(4) [of y y'] that by auto
  qed
  have "column (remap_visit x j) y = None" if "y \<noteq> k" "map_of remapCustomStrings y = Some n" for y
    using assms(1) that target [OF that(2)] by (auto simp: on_its_way_def remap_visit_column split: option.split)
  moreover have "column (remap_visit x j) k = None \<and> column (remap_visit x j) n = Some v" if "arrived"
    using assms that target [OF assms(2)] common_name(1,4) [OF assms(2)]
    by (auto simp: on_its_way_def remap_visit_column split: option.split)
  moreover have "column (remap_visit k j) k = None \<and> column (remap_visit k j) n = Some v" if "\<not> arrived"
    using assms that target [OF assms(2)] by (auto simp: on_its_way_def remap_visit_column)
  moreover have "column (remap_visit x j) k = Some v" if "\<not> arrived" "x \<noteq> k"
    using assms(1) that target [OF assms(2)] by (auto simp: on_its_way_def remap_visit_column split: option.split)
  moreover have "get_str (remap_visit x j) UDR_TYPE = ty"
    using assms(1) by (simp add: remap_visit_type on_its_way_def)
  ultimately show ?thesis
    by (auto simp: on_its_way_def)
qed

lemma on_its_way_strings:
  assumes "on_its_way ty k n v arrived j" "map_of remapCustomStrings k = Some n" "n \<noteq> ''source_region''"
    and "\<not> kicked_out ty k"
  shows "on_its_way ty k n v (arrived \<or> k \<in> set order) (remap_strings order j)"
  using assms(1)
proof (induction order arbitrary: j arrived)
  case (Cons x order)
  then show ?case
    using Cons.IH [OF on_its_way_visit [OF Cons.prems assms(2-4)], of x] by (auto simp: remap_strings_def eq_commute disj_assoc)
qed (simp add: remap_strings_def)

text \<open>
  Whatever the order of the loop, a column with a common name other than
  \<open>source_region\<close> that is not another provider's and does not share its common name with a second
  column moves there with its value.
\<close>

theorem remap_moves_column:
  assumes "map_of remapCustomStrings k = Some n" "n \<noteq> ''source_region''"
    and "column j k = Some v" "\<not> kicked_out (get_str j UDR_TYPE) k" "k \<in> set order"
    and "\<And>k'. k' \<noteq> k \<Longrightarrow> map_of remapCustomStrings k' = Some n \<Longrightarrow> column j k' = None"
  shows "column (remap_strings order j) n = Some v \<and> column (remap_strings order j) k = None"
proof -
  have "on_its_way (get_str j UDR_TYPE) k n v False j"
    using assms by (simp add: on_its_way_def)
  from on_its_way_strings [OF this assms(1,2,4), of order] show ?thesis
    using assms(5) by (simp add: on_its_way_def)
qed

theorem remap_moves_column_witness:
  "column (remap_strings [''kt_aws_src_vpc_id'', ''Type''] (NewJCHF\<lparr>CustomStr := Some [''kt_aws_src_vpc_id'' \<mapsto> ''vpc-1'', ''Type'' \<mapsto> ''kflow'']\<rparr>))
     ''source_vpc'' = Some ''vpc-1'' \<and>
   column (remap_strings [''kt_aws_src_vpc_id'', ''Type''] (NewJCHF\<lparr>CustomStr := Some [''kt_aws_src_vpc_id'' \<mapsto> ''vpc-1'', ''Type'' \<mapsto> ''kflow'']\<rparr>))
     ''kt_aws_src_vpc_id'' = None"
proof (rule remap_moves_column)
  show "map_of remapCustomStrings ''kt_aws_src_vpc_id'' = Some ''source_vpc''"
    by (simp add: remapCustomStrings_def)
next
  fix k' assume "k' \<noteq> ''kt_aws_src_vpc_id''" "map_of remapCustomStrings k' = Some ''source_vpc''"
  moreover have "map_of remapCustomStrings ''Type'' = None" by (simp add: remapCustomStrings_def)
  ultimately show "column (NewJCHF\<lparr>CustomStr := Some [''kt_aws_src_vpc_id'' \<mapsto> ''vpc-1'', ''Type'' \<mapsto> ''kflow'']\<rparr>) k' = None"
    by auto
qed (simp_all add: kicked_out_def get_str_def map_string_def UDR_TYPE_def)

text \<open>
  \<open>source_region\<close> is listed as its own common name, and the loop deletes the
  old name after it has written the new one: whatever the order, a flow whose only region column is
  \<open>source_region\<close> comes out without it.
\<close>

theorem remap_drops_source_region:
  assumes "''source_region'' \<in> set order"
    and "\<And>k. k \<noteq> ''source_region'' \<Longrightarrow> map_of remapCustomStrings k = Some ''source_region'' \<Longrightarrow> column j k = None"
  shows "column (remap_strings order j) ''source_region'' = None"
proof -
  define gone where "gone s \<longleftrightarrow> (\<forall>k. k \<noteq> ''source_region'' \<longrightarrow> map_of remapCustomStrings k = Some ''source_region'' \<longrightarrow> column s k = None)" for s
  have self: "map_of remapCustomStrings ''source_region'' = Some ''source_region''"
    by (simp add: remapCustomStrings_def)
  have sources: "n = ''source_region''" if "map_of remapCustomStrings k = Some n" "map_of remapCustomStrings n = Some m" for k n m
    using common_name(4) [OF that(1)] that(2) by auto
  have step: "gone (remap_visit x s)" if "gone s" for x s
    using that sources unfolding gone_def by (auto simp: remap_visit_column split: option.split)
  have keep: "column (remap_visit x s) ''source_region'' = None" if "gone s" "column s ''source_region'' = None \<or> x = ''source_region''" for x s
    using that self unfolding gone_def by (auto simp: remap_visit_column split: option.split)
  have "gone s \<Longrightarrow> column s ''source_region'' = None \<or> ''source_region'' \<in> set xs \<Longrightarrow>
      column (fold remap_visit xs s) ''source_region'' = None" for xs s
  proof (induction xs arbitrary: s)
    case (Cons x xs)
    show ?case
    proof (cases "column s ''source_region'' = None \<or> x = ''source_region''")
      case True
      then show ?thesis using Cons.IH [OF step [OF Cons.prems(1)]] keep [OF Cons.prems(1)] by auto
    next
      case False
      then show ?thesis using Cons.IH [OF step [OF Cons.prems(1)]] Cons.prems(2) by auto
    qed
  qed simp
  then show ?thesis
    using assms by (simp add: remap_strings_def gone_def)
qed

theorem remap_drops_source_region_witness:
  "column (remap_strings [''source_region''] (NewJCHF\<lparr>CustomStr := Some [''source_region'' \<mapsto> ''us-east1'']\<rparr>)) ''source_region'' = None"
  by (rule remap_drops_source_region) auto

text \<open>Whether a renamed region survives depends on the order of the loop.\<close>

lemma remap_depends_on_order:
  fixes s defines "s \<equiv> NewJCHF\<lparr>CustomStr := Some [''src_region'' \<mapsto> ''eu'']\<rparr>"
  shows "column (remap_strings [''src_region''] s) ''source_region'' = Some ''eu''"
    and "column (remap_strings [''src_region'', ''source_region''] s) ''source_region'' = None"
  by (simp_all add: s_def remap_strings_def remap_visit_column remapCustomStrings_def kicked_out_def get_str_def
    map_string_def UDR_TYPE_def)

end
