(* ===== verification/Flow_Pool.thy ===== *)
theory Flow_Pool
  imports Flow_Record
begin

text \<open>
  What \<open>Flatten\<close> of \<open>pkg/kt/types.go\<close> does to a record, and what a record that has been flattened
  carries into the next flow when the pool hands it out again.
\<close>

section \<open>Flattening\<close>

fun plain :: "gvalue \<Rightarrow> bool" where
  "plain (VStrMap _) = False"
| "plain (VInt32Map _) = False"
| "plain (VInt64Map _) = False"
| "plain (VFloat32Map _) = False"
| "plain _ = True"

definition all_plain :: "gmap \<Rightarrow> bool" where
  "all_plain m \<longleftrightarrow> (\<forall>k v. m k = Some v \<longrightarrow> plain v)"

text \<open>The keys of a nested map.\<close>

fun nested_keys :: "gvalue \<Rightarrow> string set" where
  "nested_keys (VStrMap f) = dom f"
| "nested_keys (VInt32Map f) = dom f"
| "nested_keys (VInt64Map f) = dom f"
| "nested_keys (VFloat32Map f) = dom f"
| "nested_keys _ = {}"

lemma plain_nested: "plain w \<Longrightarrow> nested_keys w = {}"
  by (cases w) simp_all

lemma flatten_visit_plain: "(\<forall>x v. m x = Some v \<longrightarrow> plain v \<or> x \<in> S) \<Longrightarrow>
    \<forall>x v. flatten_visit k m x = Some v \<longrightarrow> plain v \<or> x \<in> S - {k}"
  by (cases "m k"; cases "the (m k)") (auto simp: flatten_visit_def map_add_def split: if_splits option.splits)

text \<open>When the loop visits every column with a nested map, no nested map is left.\<close>

lemma flatten_all_plain:
  assumes "\<forall>x v. m x = Some v \<longrightarrow> plain v \<or> x \<in> S" "S \<subseteq> set order"
  shows "all_plain (fold flatten_visit order m)"
proof -
  have "\<forall>x v. fold flatten_visit order m x = Some v \<longrightarrow> plain v \<or> x \<in> S - set order"
    using assms(1)
  proof (induction order arbitrary: m S)
    case (Cons k order)
    have "S - set (k # order) = S - {k} - set order" by auto
    then show ?case
      unfolding fold.simps o_apply by (simp only:) (rule Cons.IH [OF flatten_visit_plain [OF Cons.prems, of k]])
  qed simp
  then show ?thesis using assms(2) by (auto simp: all_plain_def)
qed

text \<open>A plain column that no nested map has is left alone.\<close>

lemma flatten_visit_keeps:
  assumes "m c = Some v" "plain v" "v \<noteq> VString ''<nil>''" "\<forall>x w. m x = Some w \<longrightarrow> c \<notin> nested_keys w"
  shows "flatten_visit k m c = Some v \<and> (\<forall>x w. flatten_visit k m x = Some w \<longrightarrow> c \<notin> nested_keys w)"
proof (cases "m k")
  case None
  then show ?thesis using assms by (simp add: flatten_visit_def)
next
  case (Some w)
  then have "c \<notin> nested_keys w" "plain w \<or> k \<noteq> c" using assms by auto
  then show ?thesis
    using Some assms by (cases w) (auto simp: flatten_visit_def map_add_def dom_def split: if_splits option.splits)
qed

lemma fold_flatten_keeps:
  assumes "m c = Some v" "plain v" "v \<noteq> VString ''<nil>''" "\<forall>x w. m x = Some w \<longrightarrow> c \<notin> nested_keys w"
  shows "fold flatten_visit order m c = Some v"
  using assms
proof (induction order arbitrary: m)
  case (Cons k order)
  then show ?case using flatten_visit_keeps [OF Cons.prems, of k] by simp
qed simp

section \<open>The next flow\<close>

definition nested_columns :: "string set" where
  "nested_columns = {''custom_str'', ''custom_int'', ''custom_bigint'', ''custom_float''}"

lemma columns_plain:
  assumes "map_of (JCHF_columns j) x = Some v"
  shows "plain v \<or> x \<in> nested_columns"
proof -
  have "list_all (\<lambda>(x, v). plain v \<or> x \<in> nested_columns) (JCHF_columns j)"
    by (simp add: JCHF_columns_def nested_columns_def)
  then show ?thesis using map_of_SomeD [OF assms] by (auto simp: list_all_iff)
qed

lemma columns_nested_keys:
  assumes "map_of (JCHF_columns j) x = Some v" "c \<in> nested_keys v"
  shows "map_read (CustomStr j) c \<noteq> None \<or> map_read (CustomInt j) c \<noteq> None \<or> map_read (CustomBigInt j) c \<noteq> None \<or>
    map_read (CustomFloat j) c \<noteq> None"
proof -
  have "list_all (\<lambda>(x, v). nested_keys v \<subseteq> dom (map_read (CustomStr j)) \<union> dom (map_read (CustomInt j)) \<union>
      dom (map_read (CustomBigInt j)) \<union> dom (map_read (CustomFloat j))) (JCHF_columns j)"
    by (simp add: JCHF_columns_def le_supI1)
  then show ?thesis using map_of_SomeD [OF assms(1)] assms(2) by (fastforce simp: list_all_iff)
qed

lemma columns_keys: "c \<notin> set (map fst (JCHF_columns zero_JCHF)) \<Longrightarrow> map_of (JCHF_columns j) c = None"
  by (auto simp: map_of_eq_None_iff JCHF_columns_def)

text \<open>
  C22: the custom columns of a flow that was flattened stay in the record when it goes
  back to the pool.  When the record is used for the next flow and that is flattened too, every such
  column that the next flow does not set itself comes out with the value of the flow before.
\<close>

theorem flattened_columns_leak:
  assumes "JCHF_Flatten order before = Inr (m, before')" "all_plain m"
    and "m c = Some v" "v \<noteq> VString ''<nil>''" "c \<notin> set (map fst (JCHF_columns zero_JCHF))"
    and "r = flowToJCHF env ts uo ro src (JCHF_Reset before')"
    and "map_read (CustomStr r) c = None" "map_read (CustomInt r) c = None" "map_read (CustomBigInt r) c = None"
      "map_read (CustomFloat r) c = None"
  shows "\<exists>m' r'. JCHF_Flatten order' r = Inr (m', r') \<and> m' c = Some v"
proof -
  have avro: "avroSet before' = Some m"
    using assms(1) by (auto simp: JCHF_Flatten_def go_simps Let_def)
  have r: "avroSet r = Some m" "hasSetAvro r = False"
    unfolding assms(6) by (subst field_of_message [where g = "\<lambda>x. x"];
      simp add: avro JCHF_Reset_def settled_def undescribed_def flow_addresses_def flow_strings_def resolve_to_writes Let_def flow_numbers_def)+
  let ?m = "m ++ map_of (JCHF_columns r)"
  have "?m c = Some v" using columns_keys [OF assms(5)] assms(3) by (simp add: map_add_def)
  moreover have "plain v" using assms(2,3) by (auto simp: all_plain_def)
  moreover have "\<forall>x w. ?m x = Some w \<longrightarrow> c \<notin> nested_keys w"
  proof (intro allI impI)
    fix x w assume that: "?m x = Some w"
    show "c \<notin> nested_keys w"
  proof (cases "map_of (JCHF_columns r) x")
    case None
    then have "plain w" using that assms(2) by (auto simp: all_plain_def)
    then show ?thesis by (cases w) auto
  next
    case (Some w')
    then show ?thesis using that columns_nested_keys [of r x w c] assms(7-10) by auto
  qed
  qed
  ultimately have "fold flatten_visit order' ?m c = Some v"
    using assms(4) by (intro fold_flatten_keeps)
  then show ?thesis
    using r by (simp add: JCHF_Flatten_def JCHF_ToMap_fresh Let_def)
qed

section \<open>An example\<close>

text \<open>A flow without custom columns, from a device that is not known.\<close>

definition example_CHF :: CHF where
  "example_CHF = \<lparr>chf_DstAs = 0, chf_DstGeo = 0, chf_DstGeoRegion = 0, chf_DstGeoCity = 0, chf_HeaderLen = 0,
     chf_InputPort = 0, chf_IpSize = 0, chf_L4DstPort = 443, chf_L4SrcPort = 50000, chf_OutputPort = 0, chf_Protocol = 6,
     chf_SampledPacketSize = 0, chf_SrcAs = 0, chf_SrcGeo = 0, chf_SrcGeoRegion = 0, chf_SrcGeoCity = 0, chf_TcpFlags = 0,
     chf_Tos = 0, chf_VlanIn = 0, chf_VlanOut = 0, chf_MplsType = 0, chf_TcpRetransmit = 0, chf_SampleRate = 100,
     chf_DeviceId = 1, chf_SrcNextHopAs = 0, chf_DstNextHopAs = 0, chf_SrcSecondAsn = 0, chf_DstSecondAsn = 0,
     chf_SrcThirdAsn = 0, chf_DstThirdAsn = 0, chf_Ipv4DstAddr = 0x0A000001, chf_Ipv4SrcAddr = 0x0A000002,
     chf_SrcRoutePrefix = 0, chf_DstRoutePrefix = 0, chf_Ipv4SrcNextHop = 0, chf_Ipv4DstNextHop = 0, chf_InBytes = 1500,
     chf_InPkts = 1, chf_OutBytes = 0, chf_OutPkts = 0, chf_SrcEthMac = 0x001122334455, chf_DstEthMac = 0,
     chf_Ipv6DstAddr = [], chf_Ipv6SrcAddr = [], chf_Ipv6SrcNextHop = [], chf_Ipv6DstNextHop = [],
     chf_SrcFlowTags = Some [], chf_DstFlowTags = Some [], chf_SrcBgpAsPath = Some [], chf_DstBgpAsPath = Some [],
     chf_SrcBgpCommunity = Some [], chf_DstBgpCommunity = Some [], chf_Custom = [], chf_Big = False, chf_SampleAdj = True\<rparr>"

definition example_flow :: Flow where
  "example_flow = \<lparr>flow_CompanyId = 1, flow_CHF = example_CHF, flow_DeviceName = ''edge''\<rparr>"

definition example_env :: cat_env where
  "example_env = \<lparr>env_Region = (\<lambda>_. []), env_City = (\<lambda>_. []), env_Device = (\<lambda>_ _. None), env_Resolve = None,
     env_Customs = Map.empty, env_TagValue = (\<lambda>_ _ _. None), env_TagValueBig = (\<lambda>_ _ _. None), env_udrMapr = None,
     env_Test = (\<lambda>_. None), env_Agent = (\<lambda>_. None), env_AgentByIP = (\<lambda>_. None), env_defaultProvider = ''kentik-flow-device''\<rparr>"

text \<open>Its record has no custom columns but the type and the endpoints.\<close>

lemma bare_columns:
  "CustomStr (flow_columns example_env ts example_flow dst) = Some Map.empty"
  "CustomInt (flow_columns example_env ts example_flow dst) = Some Map.empty"
  "CustomBigInt (flow_columns example_env ts example_flow dst) = Some Map.empty"
  "CustomFloat (flow_columns example_env ts example_flow dst) = Some Map.empty"
  by (simp_all add: flow_columns_def flow_addresses_def flow_strings_def flow_device_def resolve_to_writes example_env_def
    flow_numbers_def Let_def)

lemma with_endpoints_maps:
  "CustomInt (with_endpoints j) = CustomInt j" "CustomBigInt (with_endpoints j) = CustomBigInt j" "CustomFloat (with_endpoints j) = CustomFloat j"
  "c \<notin> {''Type'', ''src_endpoint'', ''dst_endpoint''} \<Longrightarrow> map_read (CustomStr (with_endpoints j)) c = map_read (CustomStr j) c"
  by (simp_all add: with_endpoints_def Let_def put_str_def)

lemma bare_flow:
  fixes ts dst
  defines "r \<equiv> flowToJCHF example_env ts [] [] example_flow dst"
  shows "map_read (CustomInt r) c = None" "map_read (CustomBigInt r) c = None" "map_read (CustomFloat r) c = None"
    "c \<notin> {''Type'', ''src_endpoint'', ''dst_endpoint''} \<Longrightarrow> map_read (CustomStr r) c = None"
proof -
  have "chf_Custom (flow_CHF example_flow) = []" "env_udrMapr example_env = None"
    by (simp_all add: example_flow_def example_CHF_def example_env_def)
  then have r: "r = finish_flow example_env (flow_columns example_env ts example_flow dst)"
    by (simp add: r_def flowToJCHF_alt custom_columns_def apply_udrs_def remap_strings_def)
  show "map_read (CustomInt r) c = None" "map_read (CustomBigInt r) c = None" "map_read (CustomFloat r) c = None"
    "c \<notin> {''Type'', ''src_endpoint'', ''dst_endpoint''} \<Longrightarrow> map_read (CustomStr r) c = None"
    unfolding r finish_flow_alt by (simp_all add: with_endpoints_maps bare_columns)
qed

text \<open>A flow of another company with the column \<open>tenant\<close>, flattened by a formatter.\<close>

definition tenant_record :: JCHF where
  "tenant_record = NewJCHF\<lparr>CustomStr := Some [''tenant'' \<mapsto> ''acme''], CustomInt := Some Map.empty, CustomBigInt := Some Map.empty,
     CustomFloat := Some Map.empty\<rparr>"

theorem flattened_columns_leak_witness:
  "\<exists>m before' m' r'.
     JCHF_Flatten [''custom_str'', ''custom_int'', ''custom_bigint'', ''custom_float''] tenant_record = Inr (m, before') \<and>
     JCHF_Flatten [''custom_str''] (flowToJCHF example_env 0 [] [] example_flow (JCHF_Reset before')) = Inr (m', r') \<and>
     m' ''tenant'' = Some (VString ''acme'')"
proof -
  let ?order = "[''custom_str'', ''custom_int'', ''custom_bigint'', ''custom_float'']"
  let ?m0 = "map_of (JCHF_columns tenant_record)"
  define m where "m = fold flatten_visit ?order ?m0"
  have flat: "\<exists>before'. JCHF_Flatten ?order tenant_record = Inr (m, before')"
  proof -
    have "\<not> hasSetAvro tenant_record" "avroSet tenant_record = Some Map.empty"
      by (simp_all add: tenant_record_def NewJCHF_def zero_JCHF_def)
    then show ?thesis by (simp add: JCHF_Flatten_def JCHF_ToMap_fresh m_def Let_def del: fold.simps)
  qed
  then obtain before' where before': "JCHF_Flatten ?order tenant_record = Inr (m, before')" by blast
  have "all_plain m"
    unfolding m_def by (rule flatten_all_plain [where S = nested_columns])
      (use columns_plain in \<open>auto simp: nested_columns_def\<close>)
  moreover have "m ''tenant'' = Some (VString ''acme'')"
  proof -
    have "?m0 ''custom_str'' = Some (VStrMap [''tenant'' \<mapsto> ''acme''])" "?m0 ''tenant'' = None"
      by (simp_all add: tenant_record_def JCHF_columns_def)
    then have first: "flatten_visit ''custom_str'' ?m0 ''tenant'' = Some (VString ''acme'')"
      by (simp add: flatten_visit_def)
    have "\<forall>x w. flatten_visit ''custom_str'' ?m0 x = Some w \<longrightarrow> ''tenant'' \<notin> nested_keys w"
    proof (intro allI impI)
      fix x w assume w: "flatten_visit ''custom_str'' ?m0 x = Some w"
      then have "?m0 x = Some w \<and> x \<noteq> ''custom_str'' \<or> plain w"
        using \<open>?m0 ''custom_str'' = _\<close> by (auto simp: flatten_visit_def map_add_def split: if_splits option.splits)
      moreover have "list_all (\<lambda>(x, w). x = ''custom_str'' \<or> ''tenant'' \<notin> nested_keys w) (JCHF_columns tenant_record)"
        by (simp add: JCHF_columns_def tenant_record_def)
      ultimately show "''tenant'' \<notin> nested_keys w"
        using map_of_SomeD [of "JCHF_columns tenant_record" x w] plain_nested [of w] by (fastforce simp: list_all_iff)
    qed
    with first have "fold flatten_visit (tl ?order) (flatten_visit ''custom_str'' ?m0) ''tenant'' = Some (VString ''acme'')"
      by (intro fold_flatten_keeps) simp_all
    then show ?thesis by (simp add: m_def)
  qed
  moreover have "''tenant'' \<notin> set (map fst (JCHF_columns zero_JCHF))"
    by (simp add: JCHF_columns_def)
  ultimately show ?thesis
    using flattened_columns_leak [OF before' _ _ _ _ refl, of "''tenant''" "VString ''acme''" example_env 0 "[]" "[]" example_flow "[''custom_str'']"]
      bare_flow [where c = "''tenant''"] before' by simp
qed

end
