(* ===== verification/Cat_Batches.thy ===== *)
theory Cat_Batches
  imports Go_Base
begin

text \<open>
  Batches of the export path, \<open>effectiveMaxFlowsPerMessage\<close>, \<open>jchfExportSliceBounds\<close> and
  \<open>exportJchfBatches\<close> of \<open>pkg/cat/kkc.go\<close>, and the shrinking of the batch size by \<open>sendToSinks\<close>
  when a sink reports that a message was too big.  Go's \<open>int\<close> is a 64-bit word that wraps around.
\<close>

section \<open>The code\<close>

definition effectiveMaxFlowsPerMessage :: "i64 \<Rightarrow> i64" where
  "effectiveMaxFlowsPerMessage n = (if n \<le>s 0 then 1 else n)"

text \<open>The loop of \<open>jchfExportSliceBounds\<close>; \<open>None\<close> would be a loop that does not end.\<close>

partial_function (option) slice_loop :: "i64 \<Rightarrow> i64 \<Rightarrow> i64 \<Rightarrow> i64 \<Rightarrow> (i64 \<times> i64) list \<Rightarrow> (i64 \<times> i64) list option" where
  "slice_loop batchSize keep prev nxt bounds =
     (if nxt <s keep + batchSize then
        (let batch = (if keep <s nxt then keep else nxt); bounds' = bounds @ [(prev, batch)] in
         if batch = keep then Some bounds'
         else slice_loop batchSize keep nxt (nxt + batchSize) bounds')
      else Some bounds)"

definition jchfExportSliceBounds :: "i64 \<Rightarrow> i64 \<Rightarrow> (i64 \<times> i64) list option" where
  "jchfExportSliceBounds batchSize keep =
     (let b = effectiveMaxFlowsPerMessage batchSize in slice_loop b keep 0 b [])"

text \<open>\<open>msgs[a:b]\<close>; \<open>None\<close> is the run-time panic.\<close>

definition go_slice :: "'a list \<Rightarrow> i64 \<Rightarrow> i64 \<Rightarrow> 'a list option" where
  "go_slice msgs a b =
     (if 0 \<le>s a \<and> a \<le>s b \<and> sint b \<le> int (length msgs) then Some (drop (unat a) (take (unat b) msgs)) else None)"

text \<open>
  \<open>exportJchfBatches\<close>: the encoder is an argument that gives an error or a possibly nil output; an
  error is logged, and the other batches are still sent.  The result is what goes to \<open>msgsc\<close>.
\<close>

definition emit :: "('m list \<Rightarrow> 'e + 'o option) \<Rightarrow> 'm list \<Rightarrow> 'o list" where
  "emit seri batch = (case seri batch of Inl e \<Rightarrow> [] | Inr None \<Rightarrow> [] | Inr (Some ser) \<Rightarrow> [ser])"

definition export_span :: "('m list \<Rightarrow> 'e + 'o option) \<Rightarrow> 'm list \<Rightarrow> i64 \<times> i64 \<Rightarrow> 'o list option" where
  "export_span seri msgs span = map_option (emit seri) (go_slice msgs (fst span) (snd span))"

fun export_spans :: "('m list \<Rightarrow> 'e + 'o option) \<Rightarrow> 'm list \<Rightarrow> (i64 \<times> i64) list \<Rightarrow> 'o list option" where
  "export_spans seri msgs [] = Some []"
| "export_spans seri msgs (span # spans) =
     (case export_span seri msgs span of None \<Rightarrow> None
      | Some out \<Rightarrow> map_option (\<lambda>outs. out @ outs) (export_spans seri msgs spans))"

definition exportJchfBatches :: "i64 \<Rightarrow> ('m list \<Rightarrow> 'e + 'o option) \<Rightarrow> 'm list \<Rightarrow> i64 \<Rightarrow> 'o list option" where
  "exportJchfBatches maxFlows seri msgs keep =
     Option.bind (jchfExportSliceBounds maxFlows keep) (export_spans seri msgs)"

text \<open>\<open>int(math.Max(float64(n) * .75, 1))\<close>: for less than \<open>2 ^ 52\<close> flows the product is exact.\<close>

definition shrinkMaxFlows :: "int \<Rightarrow> int" where
  "shrinkMaxFlows n = max (3 * n div 4) 1"

text \<open>\<open>LoadConfig\<close> limits the batches when the format is NetFlow (\<open>MaxNetflowsPerMessage\<close>).\<close>

definition MaxNetflowsPerMessage :: i64 where
  "MaxNetflowsPerMessage = 510"

definition clamp_max_flows :: "string \<Rightarrow> i64 \<Rightarrow> i64" where
  "clamp_max_flows fmt n =
     (if fmt = ''netflow'' \<and> (n \<le>s 0 \<or> MaxNetflowsPerMessage <s n) then MaxNetflowsPerMessage else n)"

section \<open>What the batches are\<close>

text \<open>The specification: lists of at most \<open>n\<close> elements, all but the last of exactly \<open>n\<close>.\<close>

fun chunks :: "nat \<Rightarrow> 'a list \<Rightarrow> 'a list list" where
  "chunks n xs = (if xs = [] \<or> n = 0 then [] else take n xs # chunks n (drop n xs))"

declare chunks.simps [simp del]

lemma chunks_concat: "0 < n \<Longrightarrow> concat (chunks n xs) = xs"
  by (induction n xs rule: chunks.induct) (subst chunks.simps, simp)

lemma chunks_bounded: "c \<in> set (chunks n xs) \<Longrightarrow> c \<noteq> [] \<and> length c \<le> n"
proof (induction n xs rule: chunks.induct)
  case (1 n xs)
  then show ?case by (cases "xs = [] \<or> n = 0") (auto simp: chunks.simps [of n xs])
qed

text \<open>The spans of the loop when nothing overflows, over the integers.\<close>

function spans :: "int \<Rightarrow> int \<Rightarrow> int \<Rightarrow> (int \<times> int) list" where
  "spans b k a = (if k \<le> a \<or> b \<le> 0 then [] else (a, min (a + b) k) # spans b k (a + b))"
  by auto
termination by (relation "measure (\<lambda>(b, k, a). nat (k - a))") auto

declare spans.simps [simp del]

definition span_words :: "(int \<times> int) list \<Rightarrow> (i64 \<times> i64) list" where
  "span_words = map (\<lambda>(a, b). (word_of_int a, word_of_int b))"

lemma sint_small: "- (2 ^ 63) \<le> n \<Longrightarrow> n < 2 ^ 63 \<Longrightarrow> sint (word_of_int n :: i64) = n"
  by (simp add: sint_sbintrunc' signed_take_bit_int_eq_self)

lemma word_eq_small:
  "0 \<le> m \<Longrightarrow> m < 2 ^ 63 \<Longrightarrow> 0 \<le> n \<Longrightarrow> n < 2 ^ 63 \<Longrightarrow> (word_of_int m :: i64) = word_of_int n \<longleftrightarrow> m = n"
  using sint_small [of m] sint_small [of n] by (metis (no_types) le_less_trans neg_le_0_iff_le order_trans zero_le_numeral zero_le_power)

lemma slice_loop_spans:
  assumes "0 < b" "0 \<le> a" "a < k" "k + b < 2 ^ 63"
  shows "slice_loop (word_of_int b) (word_of_int k) (word_of_int a) (word_of_int (a + b)) acc =
    Some (acc @ span_words (spans b k a))"
  using assms
proof (induction b k a arbitrary: acc rule: spans.induct)
  case (1 b k a)
  note ok = "1.prems"
  have "sint (word_of_int (k + b) :: i64) = k + b"
    by (rule sint_small; use ok in linarith)
  then have sum: "sint (word_of_int k + word_of_int b :: i64) = k + b"
    by (simp only: wi_hom_add)
  have s: "sint (word_of_int (a + b) :: i64) = a + b" "sint (word_of_int k :: i64) = k"
    by (rule sint_small; use ok in linarith)+
  have loop: "(word_of_int (a + b) :: i64) <s word_of_int k + word_of_int b"
    using ok unfolding word_sless_alt sum s by simp
  show ?case
  proof (cases "k \<le> a + b")
    case True
    then have "(if (word_of_int k :: i64) <s word_of_int (a + b) then word_of_int k else word_of_int (a + b)) = (word_of_int k :: i64)"
      unfolding word_sless_alt s by auto
    moreover have "spans b k a = [(a, k)]"
      using True ok by (simp add: spans.simps [of b k a] spans.simps [of b k "a + b"])
    ultimately show ?thesis
      using loop by (subst slice_loop.simps) (simp add: Let_def span_words_def)
  next
    case False
    then have "\<not> (word_of_int k :: i64) <s word_of_int (a + b)"
      unfolding word_sless_alt s by simp
    moreover have "(word_of_int (a + b) :: i64) \<noteq> word_of_int k"
      using False ok word_eq_small [of "a + b" k] by simp
    moreover have "slice_loop (word_of_int b) (word_of_int k) (word_of_int (a + b)) (word_of_int (a + b + b))
        (acc @ [(word_of_int a, word_of_int (a + b))]) =
        Some ((acc @ [(word_of_int a, word_of_int (a + b))]) @ span_words (spans b k (a + b)))"
      using False ok by (intro "1.IH") auto
    moreover have "span_words (spans b k a) = (word_of_int a, word_of_int (a + b)) # span_words (spans b k (a + b))"
      using False ok by (simp add: spans.simps [of b k a] span_words_def)
    ultimately show ?thesis
      using loop by (subst slice_loop.simps) (simp add: Let_def)
  qed
qed

lemma jchfExportSliceBounds_spans:
  assumes "0 \<le> k" "k + max (sint n) 1 < 2 ^ 63"
  shows "jchfExportSliceBounds n (word_of_int k) = Some (span_words (spans (max (sint n) 1) k 0))"
proof -
  let ?b = "max (sint n) 1"
  have b: "effectiveMaxFlowsPerMessage n = word_of_int ?b"
  proof (cases "sint n \<le> 0")
    case False
    then have "max (sint n) 1 = sint n" by simp
    with False show ?thesis by (simp add: effectiveMaxFlowsPerMessage_def word_sle_eq)
  qed (simp add: effectiveMaxFlowsPerMessage_def word_sle_eq)
  show ?thesis
  proof (cases "k = 0")
    case True
    then show ?thesis
      unfolding jchfExportSliceBounds_def b Let_def
      by (subst slice_loop.simps) (simp add: word_sless_alt spans.simps [of _ _ 0] span_words_def)
  next
    case False
    then show ?thesis
      using slice_loop_spans [of ?b 0 k "[]"] assms by (simp add: jchfExportSliceBounds_def b)
  qed
qed


lemma take_drop_chunk:
  "0 \<le> a \<Longrightarrow> 0 < b \<Longrightarrow> drop (nat a) (take (nat (min (a + b) k)) xs) = take (nat b) (drop (nat a) (take (nat k) xs))"
  by (cases "a + b \<le> k") (auto simp: take_drop nat_add_distrib min_def add.commute)

lemma spans_chunks:
  assumes "0 < b" "0 \<le> a" "k \<le> int (length xs)"
  shows "map (\<lambda>(a, b). drop (nat a) (take (nat b) xs)) (spans b k a) = chunks (nat b) (drop (nat a) (take (nat k) xs))"
  using assms
proof (induction b k a rule: spans.induct)
  case (1 b k a)
  note ok = "1.prems"
  show ?case
  proof (cases "k \<le> a")
    case True
    then show ?thesis using ok by (simp add: spans.simps [of b k a] chunks.simps [of "nat b"])
  next
    case False
    have "drop (nat a) (take (nat k) xs) \<noteq> []"
      using False ok by (simp add: not_le nat_less_iff)
    moreover have "drop (nat (a + b)) (take (nat k) xs) = drop (nat b) (drop (nat a) (take (nat k) xs))"
      using ok by (simp add: nat_add_distrib add.commute)
    moreover have "map (\<lambda>(a, b). drop (nat a) (take (nat b) xs)) (spans b k (a + b)) =
        chunks (nat b) (drop (nat (a + b)) (take (nat k) xs))"
      using False ok by (intro "1.IH") auto
    ultimately show ?thesis
      using False ok take_drop_chunk [of a b k xs]
      by (simp add: spans.simps [of b k a] chunks.simps [of "nat b" "drop (nat a) (take (nat k) xs)"])
  qed
qed

lemma spans_within: "(x, y) \<in> set (spans b k a) \<Longrightarrow> 0 \<le> a \<Longrightarrow> 0 \<le> x \<and> x \<le> y \<and> y \<le> k"
proof (induction b k a rule: spans.induct)
  case (1 b k a)
  show ?case
  proof (cases "k \<le> a \<or> b \<le> 0")
    case True
    with "1.prems" show ?thesis by (auto simp: spans.simps [of b k a])
  next
    case False
    with "1.prems" "1.IH" show ?thesis by (auto simp: spans.simps [of b k a])
  qed
qed

lemma go_slice_words:
  assumes "0 \<le> x" "x \<le> y" "y \<le> int (length msgs)" "int (length msgs) < 2 ^ 63"
  shows "go_slice msgs (word_of_int x) (word_of_int y) = Some (drop (nat x) (take (nat y) msgs))"
proof -
  have s: "sint (word_of_int x :: i64) = x" "sint (word_of_int y :: i64) = y"
    by (rule sint_small; use assms in linarith)+
  have u: "unat (word_of_int n :: i64) = nat n" if "0 \<le> n" "n < 2 ^ 63" for n
    using that by (simp add: unat_eq_nat_uint uint_word_of_int_eq take_bit_int_eq_self)
  show ?thesis
    using assms s u by (simp add: go_slice_def word_sle_eq)
qed

lemma export_spans_words:
  assumes "\<forall>(x, y) \<in> set ss. 0 \<le> x \<and> x \<le> y \<and> y \<le> int (length msgs)" "int (length msgs) < 2 ^ 63"
  shows "export_spans seri msgs (span_words ss) =
    Some (concat (map (emit seri) (map (\<lambda>(x, y). drop (nat x) (take (nat y) msgs)) ss)))"
  using assms(1)
  by (induction ss) (auto simp: span_words_def export_span_def go_slice_words [OF _ _ _ assms(2)])

lemma room: "(k :: int) \<le> l \<Longrightarrow> l + m < c \<Longrightarrow> 1 \<le> m \<Longrightarrow> l < c \<and> k + m < c"
  by linarith

lemma exportJchfBatches_chunks:
  assumes "keep \<le> length msgs" "int (length msgs) + max (sint n) 1 < 2 ^ 63"
  shows "exportJchfBatches n seri msgs (word_of_int (int keep)) =
    Some (concat (map (emit seri) (chunks (nat (max (sint n) 1)) (take keep msgs))))"
proof -
  have le: "int keep \<le> int (length msgs)"
    using assms(1) by simp
  from room [OF le assms(2) max.cobounded2]
  have "int (length msgs) < 2 ^ 63" "int keep + max (sint n) 1 < 2 ^ 63"
    by (rule conjunct1, rule conjunct2)
  moreover have "\<forall>(x, y) \<in> set (spans (max (sint n) 1) (int keep) 0). 0 \<le> x \<and> x \<le> y \<and> y \<le> int (length msgs)"
  proof (intro ballI, clarify)
    fix x y assume "(x, y) \<in> set (spans (max (sint n) 1) (int keep) 0)"
    from spans_within [OF this] le show "0 \<le> x \<and> x \<le> y \<and> y \<le> int (length msgs)" by simp
  qed
  moreover have "map (\<lambda>(x, y). drop (nat x) (take (nat y) msgs)) (spans (max (sint n) 1) (int keep) 0) =
      chunks (nat (max (sint n) 1)) (take keep msgs)"
    using spans_chunks [of "max (sint n) 1" 0 "int keep" msgs] assms(1) by simp
  ultimately show ?thesis
    unfolding exportJchfBatches_def
    by (simp only: jchfExportSliceBounds_spans [of "int keep" n] export_spans_words of_nat_0_le_iff bind.bind_lunit)
qed

section \<open>Properties\<close>

text \<open>
  C16: whatever the configured batch size, zero and negative included, and whatever the
  encoder answers for a batch, exporting \<open>keep\<close> of the flows returns, without a slice out of range,
  and hands every one of the first \<open>keep\<close> flows to the encoder exactly once, in order, in batches
  that are never empty and never larger than the batch size.
\<close>

theorem export_batches_partition:
  assumes "keep \<le> length msgs" "int (length msgs) + max (sint n) 1 < 2 ^ 63"
  shows "\<exists>batches. exportJchfBatches n seri msgs (word_of_int (int keep)) = Some (concat (map (emit seri) batches)) \<and>
    concat batches = take keep msgs \<and> (\<forall>b \<in> set batches. b \<noteq> [] \<and> int (length b) \<le> max (sint n) 1)"
proof (intro exI conjI ballI)
  show "exportJchfBatches n seri msgs (word_of_int (int keep)) =
      Some (concat (map (emit seri) (chunks (nat (max (sint n) 1)) (take keep msgs))))"
    by (rule exportJchfBatches_chunks [OF assms])
  show "concat (chunks (nat (max (sint n) 1)) (take keep msgs)) = take keep msgs"
    by (rule chunks_concat) simp
next
  fix b assume "b \<in> set (chunks (nat (max (sint n) 1)) (take keep msgs))"
  from chunks_bounded [OF this] show "b \<noteq> []" "int (length b) \<le> max (sint n) 1" by auto
qed

theorem export_batches_partition_witness:
  "\<exists>batches. exportJchfBatches 2 (\<lambda>b. Inr (Some b) :: unit + int list option) [10, 20, 30, 40 :: int] (word_of_int (int 3)) =
     Some (concat (map (emit (\<lambda>b. Inr (Some b) :: unit + int list option)) batches)) \<and>
   concat batches = [10, 20, 30] \<and> (\<forall>b \<in> set batches. b \<noteq> [] \<and> int (length b) \<le> 2)"
  using export_batches_partition [of 3 "[10, 20, 30, 40 :: int]" 2 "\<lambda>b. Inr (Some b) :: unit + int list option"]
  by simp

text \<open>
  With the largest batch size that the configuration can hold the sum in the
  condition of the loop overflows, and nothing at all is exported.
\<close>

theorem huge_batch_size_exports_nothing:
  assumes "0 <s keep"
  shows "exportJchfBatches (2 ^ 63 - 1) seri msgs keep = Some []"
proof -
  obtain k where k: "sint keep = k" "0 < k" "k < 2 ^ 63"
    using assms sint_lt [of keep] by (auto simp: word_sless_alt)
  have max: "sint (2 ^ 63 - 1 :: i64) = 2 ^ 63 - 1"
    by code_simp
  have "keep + (2 ^ 63 - 1) = (word_of_int (k + (2 ^ 63 - 1) - 2 ^ 64) :: i64)"
  proof -
    have "keep + (2 ^ 63 - 1) = word_of_int k + word_of_int (2 ^ 63 - 1)"
      unfolding k(1) [symmetric] by simp
    also have "\<dots> = word_of_int (k + (2 ^ 63 - 1))"
      by (simp only: wi_hom_add)
    also have "\<dots> = word_of_int (k + (2 ^ 63 - 1) - 2 ^ 64)"
      unfolding word_of_int_eq_iff take_bit_eq_mod by (simp add: mod_eq_dvd_iff)
    finally show ?thesis .
  qed
  moreover have "sint (word_of_int (k + (2 ^ 63 - 1) - 2 ^ 64) :: i64) = k + (2 ^ 63 - 1) - 2 ^ 64"
    by (rule sint_small; use k in simp)
  ultimately have "sint (keep + (2 ^ 63 - 1)) = k - 2 ^ 63 - 1"
    by (simp only:) simp
  then have "\<not> (2 ^ 63 - 1 :: i64) <s keep + (2 ^ 63 - 1)"
    using k by (simp add: word_sless_alt max)
  moreover have "effectiveMaxFlowsPerMessage (2 ^ 63 - 1) = 2 ^ 63 - 1"
    by code_simp
  ultimately show ?thesis
    unfolding exportJchfBatches_def jchfExportSliceBounds_def Let_def
    by (subst slice_loop.simps) simp
qed

theorem huge_batch_size_exports_nothing_witness:
  "exportJchfBatches (2 ^ 63 - 1) (\<lambda>b. Inr (Some b) :: unit + int list option) [1, 2] 2 = Some []"
  by (rule huge_batch_size_exports_nothing) code_simp

lemma shrink_step: "1 \<le> n \<Longrightarrow> 1 \<le> shrinkMaxFlows n \<and> shrinkMaxFlows n \<le> max (n - 1) 1"
  by (simp add: shrinkMaxFlows_def)

text \<open>
  Reports of messages that are too big shrink the batch size strictly until it is one, never
  below one, after at most as many reports as the size it started from.
\<close>

theorem shrinking_reaches_one:
  assumes "1 \<le> n"
  shows "1 \<le> (shrinkMaxFlows ^^ m) n \<and> (shrinkMaxFlows ^^ m) n \<le> max (n - int m) 1"
  using shrink_step by (induction m) (use assms in \<open>auto simp: shrinkMaxFlows_def\<close>)

theorem shrinking_reaches_one_witness: "(shrinkMaxFlows ^^ 12) 12 = 1"
  using shrinking_reaches_one [of 12 12] by simp

end
