(* ===== verification/Flow_Filter.thy ===== *)
theory Flow_Filter
  imports Go_Net Kt_Types
begin

text \<open>
  The flow filters of \<open>pkg/filter\<close> (\<open>filter.go\<close>, \<open>string.go\<close>, \<open>int.go\<close>, \<open>addr.go\<close>): the parsing of
  filter flags into definitions, the construction of filters, and their evaluation on the untyped
  map of a flow.  A filter on a two-level column indexes its dimension and may panic, so
  evaluation returns \<open>go_panic + bool\<close>.  The function value \<open>cf\<close> that a constructor stores is the
  name of the comparison.
\<close>

section \<open>Definitions of filters\<close>

record FilterDef =
  fd_Dimension :: string
  fd_Operator :: string
  fd_Value :: string
  fd_FType :: string
  fd_Name :: string

datatype filter_error =
    FilterFlagFormat
  | InvalidOperator string
  | InvalidIntValue string
  | InvalidCIDR string
  | InvalidFilterType string

definition OrToken :: string where "OrToken = '' or ''"
definition AndToken :: string where "AndToken = '' and ''"
definition AndUpperCase :: string where "AndUpperCase = '' AND ''"
definition OrUpperCase :: string where "OrUpperCase = '' OR ''"

text \<open>The type guessed for a flag of three parts.\<close>

definition guess_type :: "string \<Rightarrow> string" where
  "guess_type v =
     (if strconv_Atoi v \<noteq> None then ''int'' else if net_ParseCIDR v \<noteq> None then ''addr'' else ''string'')"

definition parse_FilterDef :: "string \<Rightarrow> filter_error + FilterDef" where
  "parse_FilterDef orSet =
     (let pts0 = strings_Split orSet '','' in
      if length pts0 < 3 then Inl FilterFlagFormat
      else
        (let pts = (if length pts0 = 3 then guess_type (pts0 ! 2) # pts0 else pts0);
             name = (if length pts = 5 then pts ! 4 else []);
             ptn = map strings_TrimSpace pts
         in Inr \<lparr>fd_Dimension = ptn ! 1, fd_Operator = ptn ! 2, fd_Value = ptn ! 3,
                 fd_FType = ptn ! 0, fd_Name = name\<rparr>))"

definition FilterDefs_Set :: "string \<Rightarrow> filter_error + FilterDef list" where
  "FilterDefs_Set value =
     go_mapM parse_FilterDef (strings_Split (strings_Replace1 value OrUpperCase OrToken) OrToken)"

section \<open>Filters\<close>

datatype string_cf = StringEquals | StringNotEquals | StringContains | StringHas | StringNotHas

record StringFilter =
  sf_cf :: string_cf
  sf_dimension :: "string list"
  sf_value :: string
  sf_name :: string

datatype int_cf = IntEquals | IntNotEquals | IntLessThan | IntGreaterThan

record IntFilter =
  if_cf :: int_cf
  if_dimension :: "string list"
  if_value :: i64
  if_name :: string

datatype addr_cf = AddrEquals | AddrNotEquals | AddrContains

record AddrFilter =
  af_cf :: addr_cf
  af_dimension :: "string list"
  af_value :: IPNet
  af_name :: string

datatype filter_impl = FString StringFilter | FInt IntFilter | FAddr AddrFilter

type_synonym FilterWrapper = "filter_impl list"

definition newStringFilter :: "FilterDef \<Rightarrow> filter_error + filter_impl" where
  "newStringFilter fd =
     (case map_of [(''=='', StringEquals), (''!='', StringNotEquals), (''%'', StringContains),
                   (''=~'', StringHas), (''!~'', StringNotHas)] (fd_Operator fd) of
        None \<Rightarrow> Inl (InvalidOperator (fd_Operator fd))
      | Some cf \<Rightarrow> Inr (FString \<lparr>sf_cf = cf, sf_dimension = strings_Split (fd_Dimension fd) ''.'',
                                  sf_value = fd_Value fd, sf_name = fd_Name fd\<rparr>))"

definition newIntFilter :: "FilterDef \<Rightarrow> filter_error + filter_impl" where
  "newIntFilter fd =
     (case strconv_Atoi (fd_Value fd) of
        None \<Rightarrow> Inl (InvalidIntValue (fd_Value fd))
      | Some v \<Rightarrow>
          (case map_of [(''=='', IntEquals), (''!='', IntNotEquals), (''<'', IntLessThan), (''>'', IntGreaterThan)]
                  (fd_Operator fd) of
             None \<Rightarrow> Inl (InvalidOperator (fd_Operator fd))
           | Some cf \<Rightarrow> Inr (FInt \<lparr>if_cf = cf, if_dimension = strings_Split (fd_Dimension fd) ''.'',
                                    if_value = v, if_name = fd_Name fd\<rparr>)))"

definition newAddrFilter :: "FilterDef \<Rightarrow> filter_error + filter_impl" where
  "newAddrFilter fd =
     (case net_ParseCIDR (fd_Value fd) of
        None \<Rightarrow> Inl (InvalidCIDR (fd_Value fd))
      | Some v \<Rightarrow>
          (case map_of [(''=='', AddrEquals), (''!='', AddrNotEquals), (''%'', AddrContains)] (fd_Operator fd) of
             None \<Rightarrow> Inl (InvalidOperator (fd_Operator fd))
           | Some cf \<Rightarrow> Inr (FAddr \<lparr>af_cf = cf, af_dimension = strings_Split (fd_Dimension fd) ''.'',
                                    af_value = v, af_name = fd_Name fd\<rparr>)))"

definition new_filter :: "FilterDef \<Rightarrow> filter_error + filter_impl" where
  "new_filter fd =
     (if fd_FType fd = ''string'' then newStringFilter fd
      else if fd_FType fd = ''int'' then newIntFilter fd
      else if fd_FType fd = ''addr'' then newAddrFilter fd
      else Inl (InvalidFilterType (fd_FType fd)))"

text \<open>All flags are parsed before the first filter is built.\<close>

definition GetFilters :: "string list \<Rightarrow> filter_error + FilterWrapper list" where
  "GetFilters filters =
     go_bind (go_mapM FilterDefs_Set
       (concat (map (\<lambda>f. strings_Split (strings_Replace1 f AndUpperCase AndToken) AndToken) filters))) (\<lambda>ff.
     go_mapM (go_mapM new_filter) ff)"

section \<open>Evaluation\<close>

text \<open>The value of a string column: the column itself, the second level of a string map, or, when
  the column is absent, an entry of \<open>custom_str\<close>.\<close>

definition on_string :: "string list \<Rightarrow> (string \<Rightarrow> bool) \<Rightarrow> gmap \<Rightarrow> go_panic + bool" where
  "on_string dimension p chf =
     go_bind (slice_get dimension 0) (\<lambda>d0.
     case chf d0 of
       Some dd \<Rightarrow>
         (case dd of
            VString dim \<Rightarrow> Inr (p dim)
          | VStrMap dim \<Rightarrow> go_bind (slice_get dimension 1) (\<lambda>d1. Inr (p (map_string (Some dim) d1)))
          | _ \<Rightarrow> Inr False)
     | None \<Rightarrow>
         (case chf ''custom_str'' of
            Some (VStrMap dim) \<Rightarrow> Inr (case dim d0 of Some s \<Rightarrow> p s | None \<Rightarrow> False)
          | _ \<Rightarrow> Inr False))"

definition stringEquals :: "StringFilter \<Rightarrow> gmap \<Rightarrow> go_panic + bool" where
  "stringEquals f chf = on_string (sf_dimension f) (\<lambda>s. s = sf_value f) chf"

definition stringContains :: "StringFilter \<Rightarrow> gmap \<Rightarrow> go_panic + bool" where
  "stringContains f chf = on_string (sf_dimension f) (\<lambda>s. strings_Contains s (sf_value f)) chf"

definition stringHas :: "StringFilter \<Rightarrow> gmap \<Rightarrow> go_panic + bool" where
  "stringHas f chf =
     go_bind (slice_get (sf_dimension f) 0) (\<lambda>d0.
     case chf d0 of
       Some dd \<Rightarrow>
         (case dd of
            VString dim \<Rightarrow> Inr True
          | VStrMap dim \<Rightarrow> go_bind (slice_get (sf_dimension f) 1) (\<lambda>d1. Inr (dim d1 \<noteq> None))
          | _ \<Rightarrow> Inr False)
     | None \<Rightarrow>
         (case chf ''custom_str'' of
            Some (VStrMap dim) \<Rightarrow> Inr (dim d0 \<noteq> None)
          | _ \<Rightarrow> Inr False))"

definition go_not :: "go_panic + bool \<Rightarrow> go_panic + bool" where
  "go_not m = go_bind m (\<lambda>b. Inr (\<not> b))"

definition StringFilter_FilterMap :: "StringFilter \<Rightarrow> gmap \<Rightarrow> go_panic + bool" where
  "StringFilter_FilterMap f mapr =
     (case sf_cf f of
        StringEquals \<Rightarrow> stringEquals f mapr
      | StringNotEquals \<Rightarrow> go_not (stringEquals f mapr)
      | StringContains \<Rightarrow> stringContains f mapr
      | StringHas \<Rightarrow> stringHas f mapr
      | StringNotHas \<Rightarrow> go_not (stringHas f mapr))"

text \<open>The integer comparisons, on a 64-bit column, a map of 32-bit or of 64-bit integers, or an entry
  of \<open>custom_bigint\<close>; the value of the filter is truncated for the 32-bit map.\<close>

definition on_int :: "string list \<Rightarrow> (int \<Rightarrow> int \<Rightarrow> bool) \<Rightarrow> i64 \<Rightarrow> gmap \<Rightarrow> go_panic + bool" where
  "on_int dimension cmp value chf =
     go_bind (slice_get dimension 0) (\<lambda>d0.
     case chf d0 of
       Some dd \<Rightarrow>
         (case dd of
            VInt64 dim \<Rightarrow> Inr (cmp (sint dim) (sint value))
          | VInt32Map dim \<Rightarrow> go_bind (slice_get dimension 1) (\<lambda>d1.
              Inr (cmp (sint (case dim d1 of Some v \<Rightarrow> v | None \<Rightarrow> 0)) (sint (ucast value :: i32))))
          | VInt64Map dim \<Rightarrow> go_bind (slice_get dimension 1) (\<lambda>d1.
              Inr (cmp (sint (case dim d1 of Some v \<Rightarrow> v | None \<Rightarrow> 0)) (sint value)))
          | _ \<Rightarrow> Inr False)
     | None \<Rightarrow>
         (case chf ''custom_bigint'' of
            Some (VInt64Map dim) \<Rightarrow> Inr (case dim d0 of Some v \<Rightarrow> cmp (sint v) (sint value) | None \<Rightarrow> False)
          | _ \<Rightarrow> Inr False))"

definition intEquals :: "IntFilter \<Rightarrow> gmap \<Rightarrow> go_panic + bool" where
  "intEquals f chf = on_int (if_dimension f) (=) (if_value f) chf"

definition intLessThan :: "IntFilter \<Rightarrow> gmap \<Rightarrow> go_panic + bool" where
  "intLessThan f chf = on_int (if_dimension f) (<) (if_value f) chf"

definition intGreaterThan :: "IntFilter \<Rightarrow> gmap \<Rightarrow> go_panic + bool" where
  "intGreaterThan f chf = on_int (if_dimension f) (>) (if_value f) chf"

definition IntFilter_FilterMap :: "IntFilter \<Rightarrow> gmap \<Rightarrow> go_panic + bool" where
  "IntFilter_FilterMap f mapr =
     (case if_cf f of
        IntEquals \<Rightarrow> intEquals f mapr
      | IntNotEquals \<Rightarrow> go_not (intEquals f mapr)
      | IntLessThan \<Rightarrow> intLessThan f mapr
      | IntGreaterThan \<Rightarrow> intGreaterThan f mapr)"

definition addrEquals :: "AddrFilter \<Rightarrow> gmap \<Rightarrow> go_panic + bool" where
  "addrEquals f chf = on_string (af_dimension f) (\<lambda>s. IPNet_Contains (af_value f) (net_ParseIP s)) chf"

definition AddrFilter_FilterMap :: "AddrFilter \<Rightarrow> gmap \<Rightarrow> go_panic + bool" where
  "AddrFilter_FilterMap f mapr =
     (case af_cf f of
        AddrEquals \<Rightarrow> addrEquals f mapr
      | AddrNotEquals \<Rightarrow> go_not (addrEquals f mapr)
      | AddrContains \<Rightarrow> addrEquals f mapr)"

fun filter_FilterMap :: "filter_impl \<Rightarrow> gmap \<Rightarrow> go_panic + bool" where
  "filter_FilterMap (FString f) mapr = StringFilter_FilterMap f mapr"
| "filter_FilterMap (FInt f) mapr = IntFilter_FilterMap f mapr"
| "filter_FilterMap (FAddr f) mapr = AddrFilter_FilterMap f mapr"

fun filter_GetName :: "filter_impl \<Rightarrow> string" where
  "filter_GetName (FString f) = sf_name f"
| "filter_GetName (FInt f) = if_name f"
| "filter_GetName (FAddr f) = af_name f"

text \<open>A wrapper accepts when one of its filters does, tried in order.\<close>

fun FilterWrapper_FilterMap :: "FilterWrapper \<Rightarrow> gmap \<Rightarrow> go_panic + bool" where
  "FilterWrapper_FilterMap [] mapr = Inr False"
| "FilterWrapper_FilterMap (f # fs) mapr =
     go_bind (filter_FilterMap f mapr) (\<lambda>b. if b then Inr True else FilterWrapper_FilterMap fs mapr)"

text \<open>On a flow every filter asks for the map again, which the flow caches.\<close>

fun FilterWrapper_Filter :: "FilterWrapper \<Rightarrow> JCHF \<Rightarrow> go_panic + bool \<times> JCHF" where
  "FilterWrapper_Filter [] chf = Inr (False, chf)"
| "FilterWrapper_Filter (f # fs) chf =
     go_bind (JCHF_ToMap chf) (\<lambda>(mapr, chf').
     go_bind (filter_FilterMap f mapr) (\<lambda>b. if b then Inr (True, chf') else FilterWrapper_Filter fs chf'))"

definition FilterWrapper_GetName :: "FilterWrapper \<Rightarrow> string" where
  "FilterWrapper_GetName fs = (case fs of [] \<Rightarrow> [] | f # _ \<Rightarrow> filter_GetName f)"

section \<open>The specification\<close>

text \<open>The value a dimension has in a flow, level by level.\<close>

definition string_value :: "string list \<Rightarrow> gmap \<Rightarrow> string option" where
  "string_value dims m =
     (case m (dims ! 0) of
        Some (VString s) \<Rightarrow> Some s
      | Some (VStrMap inner) \<Rightarrow> Some (map_string (Some inner) (dims ! 1))
      | Some _ \<Rightarrow> None
      | None \<Rightarrow> (case m ''custom_str'' of Some (VStrMap inner) \<Rightarrow> inner (dims ! 0) | _ \<Rightarrow> None))"

definition string_present :: "string list \<Rightarrow> gmap \<Rightarrow> bool" where
  "string_present dims m =
     (case m (dims ! 0) of
        Some (VStrMap inner) \<Rightarrow> inner (dims ! 1) \<noteq> None
      | _ \<Rightarrow> string_value dims m \<noteq> None)"

text \<open>An integer column, with the value of the filter as wide as the column.\<close>

definition int_compare :: "string list \<Rightarrow> i64 \<Rightarrow> gmap \<Rightarrow> (int \<times> int) option" where
  "int_compare dims v m =
     (case m (dims ! 0) of
        Some (VInt64 w) \<Rightarrow> Some (sint w, sint v)
      | Some (VInt32Map inner) \<Rightarrow>
          Some (sint (case inner (dims ! 1) of Some w \<Rightarrow> w | None \<Rightarrow> 0), sint (ucast v :: i32))
      | Some (VInt64Map inner) \<Rightarrow> Some (sint (case inner (dims ! 1) of Some w \<Rightarrow> w | None \<Rightarrow> 0), sint v)
      | Some _ \<Rightarrow> None
      | None \<Rightarrow> (case m ''custom_bigint'' of
            Some (VInt64Map inner) \<Rightarrow> map_option (\<lambda>w. (sint w, sint v)) (inner (dims ! 0)) | _ \<Rightarrow> None))"

fun accepts :: "filter_impl \<Rightarrow> gmap \<Rightarrow> bool" where
  "accepts (FString f) m =
     (case sf_cf f of
        StringEquals \<Rightarrow> string_value (sf_dimension f) m = Some (sf_value f)
      | StringNotEquals \<Rightarrow> string_value (sf_dimension f) m \<noteq> Some (sf_value f)
      | StringContains \<Rightarrow> (\<exists>s. string_value (sf_dimension f) m = Some s \<and> sublist (sf_value f) s)
      | StringHas \<Rightarrow> string_present (sf_dimension f) m
      | StringNotHas \<Rightarrow> \<not> string_present (sf_dimension f) m)"
| "accepts (FInt f) m =
     (case if_cf f of
        IntEquals \<Rightarrow> (\<exists>x y. int_compare (if_dimension f) (if_value f) m = Some (x, y) \<and> x = y)
      | IntNotEquals \<Rightarrow> (\<forall>x y. int_compare (if_dimension f) (if_value f) m = Some (x, y) \<longrightarrow> x \<noteq> y)
      | IntLessThan \<Rightarrow> (\<exists>x y. int_compare (if_dimension f) (if_value f) m = Some (x, y) \<and> x < y)
      | IntGreaterThan \<Rightarrow> (\<exists>x y. int_compare (if_dimension f) (if_value f) m = Some (x, y) \<and> x > y))"
| "accepts (FAddr f) m =
     ((\<exists>s. string_value (af_dimension f) m = Some s \<and> IPNet_Contains (af_value f) (net_ParseIP s))
        \<longleftrightarrow> af_cf f \<noteq> AddrNotEquals)"

fun filter_dimension :: "filter_impl \<Rightarrow> string list" where
  "filter_dimension (FString f) = sf_dimension f"
| "filter_dimension (FInt f) = if_dimension f"
| "filter_dimension (FAddr f) = af_dimension f"

text \<open>The columns whose second level a filter of each kind reads.\<close>

fun two_level :: "filter_impl \<Rightarrow> gvalue \<Rightarrow> bool" where
  "two_level (FInt f) v = (case v of VInt32Map _ \<Rightarrow> True | VInt64Map _ \<Rightarrow> True | _ \<Rightarrow> False)"
| "two_level _ v = (case v of VStrMap _ \<Rightarrow> True | _ \<Rightarrow> False)"

text \<open>A dimension that stops short of a value: one level, naming a column of two.\<close>

definition underspecified :: "filter_impl \<Rightarrow> gmap \<Rightarrow> bool" where
  "underspecified f m \<longleftrightarrow>
     length (filter_dimension f) = 1 \<and> (\<exists>v. m (hd (filter_dimension f)) = Some v \<and> two_level f v)"

lemma on_string_eq:
  assumes "dims \<noteq> []"
  shows "on_string dims p m =
    (if length dims = 1 \<and> (\<exists>inner. m (hd dims) = Some (VStrMap inner)) then Inl IndexOutOfRange
     else Inr (\<exists>s. string_value dims m = Some s \<and> p s))"
  using assms
  by (cases dims) (auto simp: on_string_def string_value_def slice_get_def split: option.splits gvalue.splits)

lemma on_int_eq:
  assumes "dims \<noteq> []"
  shows "on_int dims cmp v m =
    (if length dims = 1 \<and> ((\<exists>inner. m (hd dims) = Some (VInt32Map inner)) \<or> (\<exists>inner. m (hd dims) = Some (VInt64Map inner)))
     then Inl IndexOutOfRange
     else Inr (\<exists>x y. int_compare dims v m = Some (x, y) \<and> cmp x y))"
  using assms
  by (cases dims) (auto simp: on_int_def int_compare_def slice_get_def split: option.splits gvalue.splits)

lemma stringHas_eq:
  assumes "sf_dimension f \<noteq> []"
  shows "stringHas f m =
    (if length (sf_dimension f) = 1 \<and> (\<exists>inner. m (hd (sf_dimension f)) = Some (VStrMap inner)) then Inl IndexOutOfRange
     else Inr (string_present (sf_dimension f) m))"
  using assms
  by (cases "sf_dimension f")
    (auto simp: stringHas_def string_present_def string_value_def slice_get_def split: option.splits gvalue.splits)

lemma go_not_simps [simp]: "go_not (Inr b) = Inr (\<not> b)" "go_not (Inl e) = Inl e"
  by (simp_all add: go_not_def)

lemma filter_FilterMap_eq:
  assumes "filter_dimension f \<noteq> []"
  shows "filter_FilterMap f m = (if underspecified f m then Inl IndexOutOfRange else Inr (accepts f m))"
proof (cases f)
  case (FString sf)
  have "two_level f v \<longleftrightarrow> (\<exists>inner. v = VStrMap inner)" for v using FString by (cases v) auto
  then have u: "underspecified f m \<longleftrightarrow>
      length (sf_dimension sf) = 1 \<and> (\<exists>inner. m (hd (sf_dimension sf)) = Some (VStrMap inner))"
    using FString by (auto simp: underspecified_def)
  show ?thesis using assms u FString
    by (auto simp: StringFilter_FilterMap_def stringEquals_def stringContains_def on_string_eq stringHas_eq
        strings_Contains_sublist split: string_cf.splits)
next
  case (FInt f')
  have "two_level f v \<longleftrightarrow> (\<exists>inner. v = VInt32Map inner) \<or> (\<exists>inner. v = VInt64Map inner)" for v
    using FInt by (cases v) auto
  then have u: "underspecified f m \<longleftrightarrow> length (if_dimension f') = 1 \<and>
      ((\<exists>inner. m (hd (if_dimension f')) = Some (VInt32Map inner)) \<or>
       (\<exists>inner. m (hd (if_dimension f')) = Some (VInt64Map inner)))"
    using FInt by (auto simp: underspecified_def)
  show ?thesis using assms u FInt
    by (auto simp: IntFilter_FilterMap_def intEquals_def intLessThan_def intGreaterThan_def on_int_eq split: int_cf.splits)
next
  case (FAddr af)
  have "two_level f v \<longleftrightarrow> (\<exists>inner. v = VStrMap inner)" for v using FAddr by (cases v) auto
  then have u: "underspecified f m \<longleftrightarrow>
      length (af_dimension af) = 1 \<and> (\<exists>inner. m (hd (af_dimension af)) = Some (VStrMap inner))"
    using FAddr by (auto simp: underspecified_def)
  show ?thesis using assms u FAddr
    by (auto simp: AddrFilter_FilterMap_def addrEquals_def on_string_eq split: addr_cf.splits)
qed

lemma new_filter_dimension: "new_filter fd = Inr f \<Longrightarrow> filter_dimension f = strings_Split (fd_Dimension fd) ''.''"
  by (auto simp: new_filter_def newStringFilter_def newIntFilter_def newAddrFilter_def split: if_splits option.splits)

lemma new_filter_nonempty: "new_filter fd = Inr f \<Longrightarrow> filter_dimension f \<noteq> []"
  using new_filter_dimension strings_Split_nonempty by metis

section \<open>Properties\<close>

text \<open>
  A set of alternatives built from filter definitions accepts a flow exactly when one
  of its filters accepts it by the specification, provided that no dimension stops at a two-level
  column; then it never panics.
\<close>

theorem FilterWrapper_is_disjunction:
  assumes "go_mapM new_filter fds = Inr fs" "\<forall>f \<in> set fs. \<not> underspecified f m"
  shows "FilterWrapper_FilterMap fs m = Inr (\<exists>f \<in> set fs. accepts f m)"
  using assms
proof (induction fds arbitrary: fs)
  case (Cons fd fds)
  then obtain f fs' where "new_filter fd = Inr f" "go_mapM new_filter fds = Inr fs'" "fs = f # fs'"
    by (auto simp: go_simps)
  then show ?case using Cons new_filter_nonempty [of fd f] by (simp add: filter_FilterMap_eq)
qed simp

theorem FilterWrapper_is_disjunction_witness:
  "\<exists>fs. go_mapM new_filter
      [\<lparr>fd_Dimension = ''src_addr'', fd_Operator = ''%'', fd_Value = ''10.0.0.0/8'', fd_FType = ''addr'', fd_Name = ''''\<rparr>,
       \<lparr>fd_Dimension = ''custom_str.site'', fd_Operator = ''=='', fd_Value = ''ams'', fd_FType = ''string'', fd_Name = ''''\<rparr>] = Inr fs \<and>
     FilterWrapper_FilterMap fs [''src_addr'' \<mapsto> VString ''192.168.0.1'', ''custom_str'' \<mapsto> VStrMap [''site'' \<mapsto> ''ams'']] = Inr True"
proof -
  let ?fds = "[\<lparr>fd_Dimension = ''src_addr'', fd_Operator = ''%'', fd_Value = ''10.0.0.0/8'', fd_FType = ''addr'', fd_Name = ''''\<rparr>,
       \<lparr>fd_Dimension = ''custom_str.site'', fd_Operator = ''=='', fd_Value = ''ams'', fd_FType = ''string'', fd_Name = ''''\<rparr>]"
  let ?m = "[''src_addr'' \<mapsto> VString ''192.168.0.1'', ''custom_str'' \<mapsto> VStrMap [''site'' \<mapsto> ''ams'']]"
  have cidr: "net_ParseCIDR ''10.0.0.0/8'' = Some \<lparr>ipnet_IP = [10, 0, 0, 0], ipnet_Mask = [255, 0, 0, 0]\<rparr>"
    by code_simp
  have split: "strings_Split ''src_addr'' ''.'' = [''src_addr'']"
    "strings_Split ''custom_str.site'' ''.'' = [''custom_str'', ''site'']" by code_simp+
  define f1 where "f1 = FAddr \<lparr>af_cf = AddrContains, af_dimension = [''src_addr''],
      af_value = \<lparr>ipnet_IP = [10, 0, 0, 0], ipnet_Mask = [255, 0, 0, 0]\<rparr>, af_name = ''''\<rparr>"
  define f2 where "f2 = FString \<lparr>sf_cf = StringEquals, sf_dimension = [''custom_str'', ''site''],
      sf_value = ''ams'', sf_name = ''''\<rparr>"
  have fs: "go_mapM new_filter ?fds = Inr [f1, f2]"
    by (simp add: new_filter_def newAddrFilter_def newStringFilter_def cidr split f1_def f2_def)
  have "\<forall>f \<in> set [f1, f2]. \<not> underspecified f ?m"
    by (simp add: underspecified_def f1_def f2_def)
  from FilterWrapper_is_disjunction [OF fs this]
  have "FilterWrapper_FilterMap [f1, f2] ?m = Inr True"
    by (simp add: f1_def f2_def string_value_def map_string_def)
  with fs show ?thesis by blast
qed

text \<open>
  C37: evaluating a filter that was built from a definition panics exactly when its
  dimension has one level and names a two-level column of the flow that holds values of its kind:
  strings for a string or an address filter (\<open>custom_str\<close>), 32-bit or 64-bit integers for an integer
  filter (\<open>custom_int\<close>, \<open>custom_bigint\<close>).  Nothing checks the dimension when the filter is built.
\<close>

theorem filter_panics_iff_underspecified:
  assumes "new_filter fd = Inr f"
  shows "isl (filter_FilterMap f m) \<longleftrightarrow>
    CHR ''.'' \<notin> set (fd_Dimension fd) \<and> (\<exists>v. m (fd_Dimension fd) = Some v \<and> two_level f v)"
proof -
  let ?d = "fd_Dimension fd"
  have dim: "filter_dimension f = strings_Split ?d ''.''" using new_filter_dimension [OF assms] .
  have one: "CHR ''.'' \<notin> set ?d \<Longrightarrow> strings_Split ?d ''.'' = [?d]"
    by (subst strings_Split.simps) (simp add: strings_Index_char_None)
  have many: "CHR ''.'' \<in> set ?d \<Longrightarrow> length (strings_Split ?d ''.'') \<noteq> 1"
  proof -
    assume "CHR ''.'' \<in> set ?d"
    then obtain x r where "?d = x @ CHR ''.'' # r" "CHR ''.'' \<notin> set x" by (meson split_list_first)
    then show ?thesis
      using strings_Split_nonempty [of r "''.''"] by (subst strings_Split.simps) (simp add: strings_Index_char)
  qed
  have "isl (filter_FilterMap f m) \<longleftrightarrow> underspecified f m"
    using filter_FilterMap_eq [OF new_filter_nonempty [OF assms], of m] by simp
  then show ?thesis using dim one many by (cases "CHR ''.'' \<in> set ?d") (auto simp: underspecified_def)
qed

theorem filter_panics_iff_underspecified_witness:
  "\<exists>f. new_filter \<lparr>fd_Dimension = ''custom_str'', fd_Operator = ''=='', fd_Value = ''x'', fd_FType = ''string'', fd_Name = ''''\<rparr> = Inr f \<and>
     isl (filter_FilterMap f [''custom_str'' \<mapsto> VStrMap Map.empty])"
proof -
  let ?fd = "\<lparr>fd_Dimension = ''custom_str'', fd_Operator = ''=='', fd_Value = ''x'', fd_FType = ''string'', fd_Name = ''''\<rparr>"
  obtain f where f: "new_filter ?fd = Inr f" "two_level f (VStrMap Map.empty)"
    by (simp add: new_filter_def newStringFilter_def)
  then show ?thesis using filter_panics_iff_underspecified [OF f(1), of "[''custom_str'' \<mapsto> VStrMap Map.empty]"] by simp
qed

text \<open>
  A definition written as \<open>type,dimension,operator,value,name\<close> with fields free of commas
  and of surrounding white space is parsed back exactly.
\<close>

theorem parse_FilterDef_roundtrip:
  assumes "\<forall>x \<in> {fd_FType fd, fd_Dimension fd, fd_Operator fd, fd_Value fd, fd_Name fd}.
      CHR '','' \<notin> set x \<and> strings_TrimSpace x = x"
  shows "parse_FilterDef (strings_Join [fd_FType fd, fd_Dimension fd, fd_Operator fd, fd_Value fd, fd_Name fd] '','') = Inr fd"
proof -
  have "strings_Split (strings_Join [fd_FType fd, fd_Dimension fd, fd_Operator fd, fd_Value fd, fd_Name fd] '','') '','' =
      [fd_FType fd, fd_Dimension fd, fd_Operator fd, fd_Value fd, fd_Name fd]"
    using assms by (intro strings_Split_Join) auto
  then show ?thesis using assms by (simp add: parse_FilterDef_def Let_def)
qed

theorem parse_FilterDef_roundtrip_witness:
  "parse_FilterDef ''string,custom_str.site,==,ams,by_site'' = Inr \<lparr>fd_Dimension = ''custom_str.site'', fd_Operator = ''=='',
     fd_Value = ''ams'', fd_FType = ''string'', fd_Name = ''by_site''\<rparr>"
proof -
  let ?fd = "\<lparr>fd_Dimension = ''custom_str.site'', fd_Operator = ''=='', fd_Value = ''ams'', fd_FType = ''string'', fd_Name = ''by_site''\<rparr>"
  have "strings_TrimSpace ''string'' = ''string''" "strings_TrimSpace ''custom_str.site'' = ''custom_str.site''"
    "strings_TrimSpace ''=='' = ''==''" "strings_TrimSpace ''ams'' = ''ams''" "strings_TrimSpace ''by_site'' = ''by_site''"
    by code_simp+
  then show ?thesis using parse_FilterDef_roundtrip [of ?fd] by simp
qed

text \<open>
  Of the upper-case tokens of a flag only the first is recognised, so the third
  alternative of such a flag is lost in the value of the second.
\<close>

theorem only_first_upper_case_OR:
  "map_sum id (map (\<lambda>fd. (fd_Dimension fd, fd_Value fd)))
     (FilterDefs_Set ''string,a,==,x OR string,b,==,y OR string,c,==,z'') =
   Inr [(''a'', ''x''), (''b'', ''y OR string'')]"
proof -
  have alternatives: "strings_Split (strings_Replace1 ''string,a,==,x OR string,b,==,y OR string,c,==,z'' OrUpperCase OrToken) OrToken =
      [''string,a,==,x'', ''string,b,==,y OR string,c,==,z'']"
    by code_simp
  have parts: "strings_Split ''string,a,==,x'' '','' = [''string'', ''a'', ''=='', ''x'']"
    "strings_Split ''string,b,==,y OR string,c,==,z'' '','' =
      [''string'', ''b'', ''=='', ''y OR string'', ''c'', ''=='', ''z'']"
    by code_simp+
  have trim: "strings_TrimSpace ''a'' = ''a''" "strings_TrimSpace ''x'' = ''x''"
    "strings_TrimSpace ''b'' = ''b''" "strings_TrimSpace ''y OR string'' = ''y OR string''"
    by code_simp+
  show ?thesis
    by (simp add: FilterDefs_Set_def alternatives parse_FilterDef_def parts trim Let_def)
qed

lemma take_bit_add_high: "take_bit 32 (v + push_bit 32 k :: int) = take_bit 32 v"
  by (subst take_bit_add [symmetric]) (simp add: take_bit_push_bit)

lemma ucast_add_high: "(ucast (v + push_bit 32 k :: i64) :: i32) = ucast v"
  by transfer (simp add: take_bit_add_high take_bit_push_bit)

text \<open>
  On a map of 32-bit integers a filter value is truncated to 32 bits, so values that
  differ by a multiple of \<open>2 ^ 32\<close> select the same flows.
\<close>

theorem int32_filter_truncates:
  assumes "m (hd (if_dimension f)) = Some (VInt32Map inner)" "if_dimension f \<noteq> []"
  shows "IntFilter_FilterMap (f\<lparr>if_value := if_value f + push_bit 32 k\<rparr>) m = IntFilter_FilterMap f m"
proof -
  have "(ucast (if_value f + push_bit 32 k) :: i32) = ucast (if_value f)" by (rule ucast_add_high)
  then show ?thesis using assms
    by (auto simp: IntFilter_FilterMap_def intEquals_def intLessThan_def intGreaterThan_def on_int_def slice_get_def hd_conv_nth
        split: int_cf.splits)
qed

theorem int32_filter_truncates_witness:
  "IntFilter_FilterMap (\<lparr>if_cf = IntEquals, if_dimension = [''custom_int'', ''x''], if_value = 4294967301, if_name = ''''\<rparr>)
     [''custom_int'' \<mapsto> VInt32Map [''x'' \<mapsto> 5]] = Inr True"
proof -
  let ?f = "\<lparr>if_cf = IntEquals, if_dimension = [''custom_int'', ''x''], if_value = 5, if_name = ''''\<rparr>"
  have "?f\<lparr>if_value := if_value ?f + push_bit 32 1\<rparr> =
      \<lparr>if_cf = IntEquals, if_dimension = [''custom_int'', ''x''], if_value = 4294967301, if_name = ''''\<rparr>"
    by (simp add: push_bit_eq_mult)
  moreover have "IntFilter_FilterMap ?f [''custom_int'' \<mapsto> VInt32Map [''x'' \<mapsto> 5]] = Inr True"
    by (simp add: IntFilter_FilterMap_def intEquals_def on_int_def slice_get_def)
  ultimately show ?thesis
    using int32_filter_truncates [of "[''custom_int'' \<mapsto> VInt32Map [''x'' \<mapsto> 5]]" ?f "[''x'' \<mapsto> 5]" 1] by simp
qed

end
