(* ===== verification/Rollup_Base.thy ===== *)
theory Rollup_Base
  imports Flow_Filter Complex_Main "HOL-Library.Multiset" "HOL-Library.AList"
begin

text \<open>
  What the rollups of \<open>pkg/rollup\<close> share (\<open>rollup.go\<close>): the definition of a rollup parsed from a
  flag, the common state that \<open>init\<close> computes from it, the key of a flow, and the filters of a
  rollup.  The package variable \<open>keepUndefined\<close> is an argument of the key functions.  The start
  time of the interval and the mutex are not modelled.
\<close>

section \<open>Rollup flags\<close>

record RollupDef =
  rd_Sample :: bool
  rd_Method :: string
  rd_Metrics :: "string list"
  rd_Dimensions :: "string list"
  rd_NameSet :: "string list"

datatype rollup_error =
    RollupFlagFormat
  | InvalidGrouping string
  | InvalidDimension string
  | InvalidMetric string
  | UnknownRollup string

definition RollupDefs_Set :: "string \<Rightarrow> rollup_error + RollupDef" where
  "RollupDefs_Set value =
     (let ptn = map strings_TrimSpace (strings_Split value '','') in
      if length ptn < 3 then Inl RollupFlagFormat
      else if 2 < length (ptn ! 0) \<and> take 2 (ptn ! 0) = ''s_'' then
        Inr \<lparr>rd_Sample = True, rd_Method = drop 2 (ptn ! 0), rd_Metrics = strings_Split (ptn ! 2) ''+'',
             rd_Dimensions = drop 3 ptn, rd_NameSet = strings_Split (ptn ! 1) '';''\<rparr>
      else
        Inr \<lparr>rd_Sample = False, rd_Method = ptn ! 0, rd_Metrics = strings_Split (ptn ! 2) ''+'',
             rd_Dimensions = drop 3 ptn, rd_NameSet = strings_Split (ptn ! 1) '';''\<rparr>)"

section \<open>The common state\<close>

record splitDim =
  sd_lhs :: "string list"
  sd_join :: string
  sd_rhs :: "string list"

record rollupBase =
  rb_metrics :: "string list"
  rb_multiMetrics :: "string list list"
  rb_multiDims :: "string list list"
  rb_splitDims :: "nat \<Rightarrow> splitDim option"
  rb_keyJoin :: string
  rb_topK :: i64
  rb_eventType :: string
  rb_sample :: bool
  rb_nameSet :: "string list"
  rb_filters :: "FilterWrapper list"
  rb_hasFilters :: bool
  rb_splitMetrics :: bool

definition zero_rollupBase :: rollupBase where
  "zero_rollupBase = \<lparr>rb_metrics = [], rb_multiMetrics = [], rb_multiDims = [], rb_splitDims = Map.empty,
     rb_keyJoin = [], rb_topK = 0, rb_eventType = [], rb_sample = False, rb_nameSet = [], rb_filters = [],
     rb_hasFilters = False, rb_splitMetrics = False\<rparr>"

definition DimJoinToken :: string where
  "DimJoinToken = ''$$''"

text \<open>One turn of each of the two loops of \<open>init\<close>.\<close>

definition init_dimension :: "nat \<times> string \<Rightarrow> rollupBase \<Rightarrow> rollup_error + rollupBase" where
  "init_dimension = (\<lambda>(i, d) r.
     if strings_Contains d DimJoinToken then
       (case strings_SplitN d DimJoinToken 3 of
          [l, j, rr] \<Rightarrow> Inr (r\<lparr>rb_splitDims := (rb_splitDims r)(i \<mapsto>
               \<lparr>sd_lhs = strings_Split l ''.'', sd_join = j, sd_rhs = strings_Split rr ''.''\<rparr>),
             rb_multiDims := rb_multiDims r @ [[d]]\<rparr>)
        | _ \<Rightarrow> Inl (InvalidGrouping d))
     else
       (let pts = strings_Split d ''.'' in
        if length pts = 1 \<or> length pts = 2 then Inr (r\<lparr>rb_multiDims := rb_multiDims r @ [pts]\<rparr>)
        else Inl (InvalidDimension d)))"

definition init_metric :: "string \<Rightarrow> rollupBase \<Rightarrow> rollup_error + rollupBase" where
  "init_metric m r =
     (let pts = strings_Split m ''.'' in
      if length pts = 1 then
        (let splitSet = strings_Split m '';'' in
         if 1 < length splitSet then Inr (r\<lparr>rb_splitMetrics := True, rb_metrics := rb_metrics r @ splitSet\<rparr>)
         else Inr (r\<lparr>rb_metrics := rb_metrics r @ [m]\<rparr>))
      else if length pts = 2 then Inr (r\<lparr>rb_multiMetrics := rb_multiMetrics r @ [pts]\<rparr>)
      else Inl (InvalidMetric m))"

definition rollupBase_init :: "RollupDef \<Rightarrow> rollupBase \<Rightarrow> rollup_error + rollupBase" where
  "rollupBase_init rd r0 =
     (let r = r0\<lparr>rb_metrics := [], rb_multiMetrics := [], rb_multiDims := [], rb_splitDims := Map.empty,
        rb_nameSet := rd_NameSet rd,
        rb_eventType := strings_ReplaceByte (''KFlow:'' @ strings_Join (rd_Metrics rd) ''_'' @ '':'' @
          strings_Join (rd_Dimensions rd) '':'') CHR ''.'' CHR ''_'',
        rb_sample := rd_Sample rd\<rparr> in
      go_bind (go_foldM init_dimension (zip [0..<length (rd_Dimensions rd)] (rd_Dimensions rd)) r)
        (go_foldM init_metric (rd_Metrics rd)))"

lemma init_dimension_filters: "init_dimension d r = Inr r' \<Longrightarrow> rb_hasFilters r' = rb_hasFilters r"
  by (cases d) (auto simp: init_dimension_def Let_def split: if_splits list.splits)

lemma init_metric_filters: "init_metric m r = Inr r' \<Longrightarrow> rb_hasFilters r' = rb_hasFilters r"
  by (auto simp: init_metric_def Let_def split: if_splits)

lemma init_dimensions_filters: "go_foldM init_dimension ds r = Inr r' \<Longrightarrow> rb_hasFilters r' = rb_hasFilters r"
  by (induction ds arbitrary: r) (auto simp: go_simps dest: init_dimension_filters)

lemma init_metrics_filters: "go_foldM init_metric ms r = Inr r' \<Longrightarrow> rb_hasFilters r' = rb_hasFilters r"
  by (induction ms arbitrary: r) (auto simp: go_simps dest: init_metric_filters)

lemma rollupBase_init_filters: "rollupBase_init rd r0 = Inr r \<Longrightarrow> rb_hasFilters r = rb_hasFilters r0"
  by (auto simp: rollupBase_init_def Let_def go_simps dest!: init_dimensions_filters init_metrics_filters)

section \<open>Keys\<close>

definition UndefinedKey :: string where
  "UndefinedKey = ''undefined''"

text \<open>The part of the key that one dimension contributes.\<close>

definition setKey :: "bool \<Rightarrow> gmap \<Rightarrow> string list \<Rightarrow> string" where
  "setKey keepUndefined mapr d =
     (let key =
        (if length d = 1 then
           (case mapr (d ! 0) of
              Some (VString v) \<Rightarrow> v
            | Some (VInt64 v) \<Rightarrow> strconv_Itoa v
            | _ \<Rightarrow> [])
         else
           (case mapr (d ! 0) of
              Some (VStrMap dd) \<Rightarrow>
                (let key = map_string (Some dd) (d ! 1) in
                 if key = [] then
                   (if strings_HasPrefix (d ! 1) ''source_'' then map_string (Some dd) (''dest_'' @ drop 7 (d ! 1))
                    else if strings_HasPrefix (d ! 1) ''dest_'' then map_string (Some dd) (''source_'' @ drop 5 (d ! 1))
                    else key)
                 else key)
            | Some (VInt32Map dd) \<Rightarrow> strconv_Itoa (scast (case dd (d ! 1) of Some v \<Rightarrow> v | None \<Rightarrow> 0))
            | Some (VInt64Map dd) \<Rightarrow> strconv_Itoa (case dd (d ! 1) of Some v \<Rightarrow> v | None \<Rightarrow> 0)
            | _ \<Rightarrow> []))
      in if keepUndefined \<and> key = [] then UndefinedKey else key)"

definition key_part :: "bool \<Rightarrow> rollupBase \<Rightarrow> gmap \<Rightarrow> nat \<times> string list \<Rightarrow> string" where
  "key_part keepUndefined r mapr = (\<lambda>(i, d).
     case rb_splitDims r i of
       None \<Rightarrow> setKey keepUndefined mapr d
     | Some md \<Rightarrow> setKey keepUndefined mapr (sd_lhs md) @ sd_join md @ setKey keepUndefined mapr (sd_rhs md))"

definition getKey :: "bool \<Rightarrow> rollupBase \<Rightarrow> gmap \<Rightarrow> string" where
  "getKey keepUndefined r mapr =
     strings_Join (map (key_part keepUndefined r mapr) (zip [0..<length (rb_multiDims r)] (rb_multiDims r))) (rb_keyJoin r)"

definition combo :: "string list list \<Rightarrow> string list" where
  "combo multiDims = map (\<lambda>d. if length d = 1 then d ! 0 else d ! 1) multiDims"

section \<open>Filters of a rollup\<close>

fun passes_all :: "FilterWrapper list \<Rightarrow> gmap \<Rightarrow> go_panic + bool" where
  "passes_all [] flow = Inr True"
| "passes_all (f # fs) flow = go_bind (FilterWrapper_FilterMap f flow) (\<lambda>b. if b then passes_all fs flow else Inr False)"

fun rollup_filter :: "FilterWrapper list \<Rightarrow> gmap list \<Rightarrow> go_panic + gmap list" where
  "rollup_filter fs [] = Inr []"
| "rollup_filter fs (flow # flows) =
     go_bind (passes_all fs flow) (\<lambda>keep. go_bind (rollup_filter fs flows) (\<lambda>res.
     Inr (if keep then flow # res else res)))"

definition SetFilter :: "FilterWrapper \<Rightarrow> rollupBase \<Rightarrow> rollupBase" where
  "SetFilter fw r = r\<lparr>rb_filters := rb_filters r @ [fw], rb_hasFilters := (rb_filters r = [] \<or> rb_hasFilters r)\<rparr>"

definition rollup_GetName :: "rollupBase \<Rightarrow> string" where
  "rollup_GetName r = strings_Join (rb_nameSet r) '';''"

text \<open>What \<open>Add\<close> does first: filter, if the rollup has filters.\<close>

definition filtered :: "rollupBase \<Rightarrow> gmap list \<Rightarrow> go_panic + gmap list" where
  "filtered r flows = (if rb_hasFilters r then rollup_filter (rb_filters r) flows else Inr flows)"

section \<open>Values\<close>

text \<open>
  The conversion to \<open>float64\<close> of an integer, and the rounding of a product of two such values: the
  nearest integer with a mantissa of 53 bits, ties to even.  (All magnitudes here are below
  \<open>2 ^ 127\<close>, so nothing overflows to an infinity.)
\<close>

function f64_exp :: "int \<Rightarrow> nat" where
  "f64_exp a = (if a < 2 ^ 53 then 0 else Suc (f64_exp (a div 2)))"
  by auto
termination by (relation "measure nat") auto

declare f64_exp.simps [simp del]

definition f64_round_pos :: "int \<Rightarrow> int" where
  "f64_round_pos a =
     (let u = 2 ^ f64_exp a; q = a div u; r = a mod u in
      if 2 * r < u \<or> 2 * r = u \<and> even q then q * u else (q + 1) * u)"

definition f64_round :: "int \<Rightarrow> int" where
  "f64_round x = (if x < 0 then - f64_round_pos (- x) else f64_round_pos x)"

lemma f64_round_exact: "\<bar>x\<bar> < 2 ^ 53 \<Longrightarrow> f64_round x = x"
  by (auto simp: f64_round_def f64_round_pos_def f64_exp.simps)

definition f64_of_u64 :: "u64 \<Rightarrow> int" where
  "f64_of_u64 v = f64_round (uint v)"

definition f64_of_i64 :: "i64 \<Rightarrow> int" where
  "f64_of_i64 v = f64_round (sint v)"

text \<open>The two type assertions that every rollup makes on a flow.\<close>

definition assert_int64 :: "gmap \<Rightarrow> string \<Rightarrow> go_panic + i64" where
  "assert_int64 mapr k = (case mapr k of Some (VInt64 v) \<Rightarrow> Inr v | _ \<Rightarrow> Inl TypeAssertion)"

definition assert_provider :: "gmap \<Rightarrow> string \<Rightarrow> go_panic + string" where
  "assert_provider mapr k = (case mapr k of Some (VProvider p) \<Rightarrow> Inr p | _ \<Rightarrow> Inl TypeAssertion)"

text \<open>The metrics of a flow, one and two levels deep, added in 64 bits and scaled by the sample rate.\<close>

definition add_metric :: "gmap \<Rightarrow> string \<Rightarrow> u64 \<Rightarrow> u64" where
  "add_metric mapr metric value = (case mapr metric of Some (VInt64 m) \<Rightarrow> value + m | _ \<Rightarrow> value)"

definition add_multi_metric :: "gmap \<Rightarrow> string list \<Rightarrow> u64 \<Rightarrow> u64" where
  "add_multi_metric mapr m value =
     (case mapr (m ! 0) of
        Some (VInt32Map mm) \<Rightarrow> value + (case mm (m ! 1) of Some v \<Rightarrow> scast v | None \<Rightarrow> 0)
      | Some (VInt64Map mm) \<Rightarrow> value + (case mm (m ! 1) of Some v \<Rightarrow> v | None \<Rightarrow> 0)
      | _ \<Rightarrow> value)"

definition metric_value :: "rollupBase \<Rightarrow> gmap \<Rightarrow> u64" where
  "metric_value r mapr = fold (add_multi_metric mapr) (rb_multiMetrics r) (fold (add_metric mapr) (rb_metrics r) 0)"

definition scaled :: "rollupBase \<Rightarrow> u64 \<Rightarrow> u64 \<Rightarrow> u64" where
  "scaled r sr value = (if rb_sample r \<and> 0 < sr then value * sr else value)"

text \<open>\<open>xs[i] += v\<close>, and the loop that adds one slice into another.\<close>

definition slice_add :: "nat \<times> u64 \<Rightarrow> u64 list \<Rightarrow> go_panic + u64 list" where
  "slice_add = (\<lambda>(i, v) xs. go_bind (slice_get xs i) (\<lambda>x. slice_set xs i (x + v)))"

definition indexed :: "'a list \<Rightarrow> (nat \<times> 'a) list" where
  "indexed xs = zip [0..<length xs] xs"

lemma slice_add_all_aux:
  "go_foldM slice_add (zip [i..<i + length vs] vs) xs =
     (if vs = [] \<or> i + length vs \<le> length xs
      then Inr (map (\<lambda>j. if i \<le> j \<and> j < i + length vs then xs ! j + vs ! (j - i) else xs ! j) [0..<length xs])
      else Inl IndexOutOfRange)"
proof (induction vs arbitrary: i xs)
  case Nil
  show ?case by (auto intro!: nth_equalityI)
next
  case (Cons v vs)
  have up: "[i..<i + length (v # vs)] = i # [Suc i..<Suc i + length vs]"
    using upt_conv_Cons [of i "i + length (v # vs)"] by (simp del: upt_Suc)
  show ?case
  proof (cases "i < length xs")
    case True
    have "go_foldM slice_add (zip [i..<i + length (v # vs)] (v # vs)) xs =
          go_foldM slice_add (zip [Suc i..<Suc i + length vs] vs) (xs[i := xs ! i + v])"
      by (simp only: up) (simp add: slice_add_def True)
    also have "\<dots> = (if v # vs = [] \<or> i + length (v # vs) \<le> length xs
      then Inr (map (\<lambda>j. if i \<le> j \<and> j < i + length (v # vs) then xs ! j + (v # vs) ! (j - i) else xs ! j) [0..<length xs])
      else Inl IndexOutOfRange)"
      unfolding Cons.IH using True
      by (auto simp: nth_list_update nth_Cons' intro!: map_cong)
    finally show ?thesis .
  next
    case False
    then show ?thesis
      by (simp only: up) (simp add: slice_add_def slice_get_def)
  qed
qed

lemma slice_add_all:
  "go_foldM slice_add (indexed vs) xs =
     (if length vs \<le> length xs
      then Inr (map (\<lambda>j. if j < length vs then xs ! j + vs ! j else xs ! j) [0..<length xs])
      else Inl IndexOutOfRange)"
  using slice_add_all_aux [of 0 vs xs] by (auto simp: indexed_def)

section \<open>Exported values\<close>

record rollup_row =
  rr_Dimension :: string
  rr_Metric :: real
  rr_EventType :: string
  rr_KeyJoin :: string
  rr_dims :: "string list"
  rr_Name :: string
  rr_Count :: u64
  rr_Min :: u64
  rr_Max :: u64
  rr_Provider :: string

text \<open>
  \<open>sort.Sort(byValue(keys))\<close> and the cut at \<open>TopK\<close>.  Go's sort is not stable, so it is an argument:
  any function that permutes its argument into descending order of the metric.
\<close>

definition sorts_by_value :: "(rollup_row list \<Rightarrow> rollup_row list) \<Rightarrow> bool" where
  "sorts_by_value srt \<longleftrightarrow> (\<forall>rows. mset (srt rows) = mset rows \<and> sorted_wrt (\<lambda>a b. rr_Metric b \<le> rr_Metric a) (srt rows))"

definition top_rows :: "(rollup_row list \<Rightarrow> rollup_row list) \<Rightarrow> i64 \<Rightarrow> rollup_row list \<Rightarrow> rollup_row list" where
  "top_rows srt topK rows =
     (let keys = srt rows in
      if 0 < sint topK \<and> sint topK < int (length keys) then take (nat (sint topK)) keys else keys)"

end
