(* ===== verification/Rollup_Stats.thy ===== *)
theory Rollup_Stats
  imports Rollup_Base
begin

text \<open>
  The statistics rollups of \<open>pkg/rollup/stats.go\<close>.  A \<open>sum\<close> rollup has a fast path: \<open>Add\<close> folds a
  batch of flows into a \<open>sumset\<close> and sends it on the channel \<open>kvs\<close>; the goroutine \<open>sumKvs\<close> adds
  the items it receives into its own \<open>sumset\<close> and answers an export with it.  The other methods
  keep the samples of every key.  A Go map is an association list with distinct keys whose order
  stands for the order of iteration.  The goroutines are a step relation over the pending items of
  the channel and the state of \<open>sumKvs\<close>.
\<close>

section \<open>The fast path: one batch\<close>

record sumset =
  ss_sum :: "(string \<times> u64 list) list"
  ss_count :: u64
  ss_min :: u64
  ss_max :: u64
  ss_prov :: string

definition new_sumset :: sumset where
  "new_sumset = \<lparr>ss_sum = [], ss_count = 0, ss_min = - 1, ss_max = 0, ss_prov = []\<rparr>"

text \<open>What a split metric adds.\<close>

definition split_value :: "rollupBase \<Rightarrow> gmap \<Rightarrow> u64 \<Rightarrow> string \<Rightarrow> u64" where
  "split_value r mapr sr metric = scaled r sr (add_metric mapr metric 0)"

text \<open>The slice of amounts that one flow adds to the sums of its key.\<close>

definition flow_values :: "rollupBase \<Rightarrow> gmap \<Rightarrow> u64 \<Rightarrow> u64 list" where
  "flow_values r mapr sr =
     (if rb_splitMetrics r then map (split_value r mapr sr) (rb_metrics r)
      else [scaled r sr (metric_value r mapr)])"

definition sums_of :: "sumset \<Rightarrow> string \<Rightarrow> nat \<Rightarrow> u64 list" where
  "sums_of s key n = (case map_of (ss_sum s) key of Some xs \<Rightarrow> xs | None \<Rightarrow> replicate n 0)"

definition addSum_flow :: "bool \<Rightarrow> rollupBase \<Rightarrow> gmap \<Rightarrow> sumset \<Rightarrow> go_panic + sumset" where
  "addSum_flow ku r mapr s =
     (let key = getKey ku r mapr in
      go_bind (assert_int64 mapr ''sample_rate'') (\<lambda>sr.
      let vs = flow_values r mapr sr; value = sum_list vs in
      go_bind (go_foldM slice_add (indexed vs) (sums_of s key (length (rb_nameSet r)))) (\<lambda>xs.
      go_bind (assert_provider mapr ''provider'') (\<lambda>prov.
      Inr \<lparr>ss_sum = AList.update key xs (ss_sum s), ss_count = ss_count s + 1,
           ss_min = (if value < ss_min s then value else ss_min s),
           ss_max = (if ss_max s < value then value else ss_max s), ss_prov = prov\<rparr>))))"

definition addSum :: "bool \<Rightarrow> rollupBase \<Rightarrow> gmap list \<Rightarrow> go_panic + sumset" where
  "addSum ku r flows = go_foldM (addSum_flow ku r) flows new_sumset"

section \<open>The fast path: the goroutine\<close>

definition sum_item :: "string \<times> u64 list \<Rightarrow> sumset \<Rightarrow> go_panic + sumset" where
  "sum_item = (\<lambda>(k, v) s.
     go_bind (go_foldM slice_add (indexed v) (sums_of s k (length v))) (\<lambda>xs.
     Inr (s\<lparr>ss_sum := AList.update k xs (ss_sum s)\<rparr>)))"

definition sumKvs_item :: "sumset \<Rightarrow> sumset \<Rightarrow> go_panic + sumset" where
  "sumKvs_item itm s =
     go_bind (go_foldM sum_item (ss_sum itm) s) (\<lambda>s'.
     Inr (s'\<lparr>ss_count := ss_count s + ss_count itm,
            ss_min := (if ss_min itm < ss_min s then ss_min itm else ss_min s),
            ss_max := (if ss_max s < ss_max itm then ss_max itm else ss_max s),
            ss_prov := ss_prov itm\<rparr>))"

text \<open>What the goroutine keeps after an export.  The minimum becomes zero, not the largest value.\<close>

definition sumKvs_reset :: sumset where
  "sumKvs_reset = \<lparr>ss_sum = [], ss_count = 0, ss_min = 0, ss_max = 0, ss_prov = []\<rparr>"

definition sum_row :: "rollupBase \<Rightarrow> sumset \<Rightarrow> nat \<times> string \<Rightarrow> string \<times> u64 list \<Rightarrow> go_panic + rollup_row" where
  "sum_row r s = (\<lambda>(i, name) (k, v).
     go_bind (slice_get v i) (\<lambda>x.
     Inr \<lparr>rr_Dimension = k, rr_Metric = of_int (f64_of_u64 x), rr_EventType = rb_eventType r,
          rr_KeyJoin = rb_keyJoin r, rr_dims = combo (rb_multiDims r), rr_Name = name,
          rr_Count = ss_count s, rr_Min = ss_min s, rr_Max = ss_max s, rr_Provider = ss_prov s\<rparr>))"

definition exportSum :: "(rollup_row list \<Rightarrow> rollup_row list) \<Rightarrow> i64 \<Rightarrow> rollupBase \<Rightarrow> sumset \<Rightarrow> go_panic + rollup_row list" where
  "exportSum srt topK r s =
     (if ss_sum s = [] then Inr []
      else go_bind (go_mapM (\<lambda>iname. go_bind (go_mapM (sum_row r s iname) (ss_sum s)) (\<lambda>keys. Inr (top_rows srt topK keys)))
             (indexed (rb_nameSet r))) (\<lambda>rowss. Inr (concat rowss)))"

definition CHAN_SLACK :: nat where
  "CHAN_SLACK = 10000"

section \<open>The slow path\<close>

text \<open>
  The sample of a flow.  A later metric that the flow has replaces an earlier one.  All numbers are
  integers that a \<open>float64\<close> represents.
\<close>

definition stat_metric :: "gmap \<Rightarrow> string \<Rightarrow> int \<Rightarrow> int" where
  "stat_metric mapr metric x = (case mapr metric of Some (VInt64 m) \<Rightarrow> f64_of_i64 m | _ \<Rightarrow> x)"

definition stat_multi_metric :: "gmap \<Rightarrow> string list \<Rightarrow> int \<Rightarrow> int" where
  "stat_multi_metric mapr m x =
     (case mapr (m ! 0) of
        Some (VInt32Map mm) \<Rightarrow> (case mm (m ! 1) of Some v \<Rightarrow> sint v | None \<Rightarrow> 0)
      | Some (VInt64Map mm) \<Rightarrow> (case mm (m ! 1) of Some v \<Rightarrow> f64_of_i64 v | None \<Rightarrow> 0)
      | _ \<Rightarrow> x)"

definition stat_sample :: "rollupBase \<Rightarrow> gmap \<Rightarrow> i64 \<Rightarrow> int" where
  "stat_sample r mapr sr =
     (let x = fold (stat_multi_metric mapr) (rb_multiMetrics r) (fold (stat_metric mapr) (rb_metrics r) 0) in
      if rb_sample r \<and> 0 < sint sr then f64_round (x * f64_of_i64 sr) else x)"

text \<open>Every key of a batch gets a slice as long as the batch.\<close>

definition stat_flow :: "bool \<Rightarrow> rollupBase \<Rightarrow> nat \<Rightarrow> nat \<times> gmap \<Rightarrow> (string \<times> int list) list \<Rightarrow> go_panic + (string \<times> int list) list" where
  "stat_flow ku r n = (\<lambda>(i, mapr) toAdd.
     let key = getKey ku r mapr in
     go_bind (assert_int64 mapr ''sample_rate'') (\<lambda>sr.
     go_bind (slice_set (case map_of toAdd key of Some xs \<Rightarrow> xs | None \<Rightarrow> replicate n 0) i (stat_sample r mapr sr)) (\<lambda>xs.
     Inr (AList.update key xs toAdd))))"

definition append_samples :: "string \<times> int list \<Rightarrow> (string \<times> int list) list \<Rightarrow> (string \<times> int list) list" where
  "append_samples = (\<lambda>(k, v) state.
     AList.update k ((case map_of state k of Some xs \<Rightarrow> xs | None \<Rightarrow> []) @ v) state)"

definition stats_Add :: "bool \<Rightarrow> rollupBase \<Rightarrow> gmap list \<Rightarrow> (string \<times> int list) list \<Rightarrow> go_panic + (string \<times> int list) list" where
  "stats_Add ku r flows state =
     go_bind (go_foldM (stat_flow ku r (length flows)) (indexed flows) []) (\<lambda>toAdd.
     Inr (fold append_samples toAdd state))"

text \<open>
  The statistics themselves are functions of the package \<open>montanaflynn/stats\<close>: an argument that maps
  the method and the samples to an error or a number.
\<close>

datatype stat_method = StatSum | StatMin | StatMax | StatMean | StatMedian | StatEntropy
  | StatPercentileNearestRank i64 | StatPercentile i64

definition stat_method_of :: "string \<Rightarrow> rollup_error + stat_method" where
  "stat_method_of m =
     (if m = ''sum'' then Inr StatSum
      else if m = ''min'' then Inr StatMin
      else if m = ''max'' then Inr StatMax
      else if m = ''mean'' then Inr StatMean
      else if m = ''median'' then Inr StatMedian
      else if m = ''entropy'' then Inr StatEntropy
      else if strings_HasPrefix m ''percentilerank'' then
        (case strconv_Atoi (drop 14 m) of
           Some v \<Rightarrow> Inr (StatPercentileNearestRank v)
         | None \<Rightarrow> Inl (UnknownRollup m))
      else if strings_HasPrefix m ''percentile'' then
        (case strconv_Atoi (drop 10 m) of
           Some v \<Rightarrow> Inr (StatPercentile v)
         | None \<Rightarrow> Inl (UnknownRollup m))
      else Inl (UnknownRollup m))"

definition stat_row :: "rollupBase \<Rightarrow> string \<Rightarrow> real \<Rightarrow> rollup_row" where
  "stat_row r k x = \<lparr>rr_Dimension = k, rr_Metric = x, rr_EventType = rb_eventType r, rr_KeyJoin = rb_keyJoin r,
     rr_dims = combo (rb_multiDims r), rr_Name = strings_Join (rb_nameSet r) '';'', rr_Count = 0, rr_Min = 0,
     rr_Max = 0, rr_Provider = []\<rparr>"

definition zero_row :: rollup_row where
  "zero_row = \<lparr>rr_Dimension = [], rr_Metric = 0, rr_EventType = [], rr_KeyJoin = [], rr_dims = [], rr_Name = [],
     rr_Count = 0, rr_Min = 0, rr_Max = 0, rr_Provider = []\<rparr>"

text \<open>A key whose statistic fails leaves a zero row at the end of the slice.\<close>

definition stat_rows :: "(int list \<Rightarrow> 'e + real) \<Rightarrow> rollupBase \<Rightarrow> (string \<times> int list) list \<Rightarrow> rollup_row list" where
  "stat_rows statr r os =
     (let rows = concat (map (\<lambda>(k, v). case statr v of Inr x \<Rightarrow> [stat_row r k x] | Inl _ \<Rightarrow> []) os) in
      rows @ replicate (length os - length rows) zero_row)"

definition stats_Export :: "(rollup_row list \<Rightarrow> rollup_row list) \<Rightarrow> (int list \<Rightarrow> 'e + real) \<Rightarrow> i64 \<Rightarrow> rollupBase \<Rightarrow>
    (string \<times> int list) list \<Rightarrow> rollup_row list \<times> (string \<times> int list) list" where
  "stats_Export srt statr topK r state = (top_rows srt topK (stat_rows statr r state), [])"

section \<open>What a batch adds up to\<close>

text \<open>The amount that one flow contributes to position \<open>i\<close> of the key \<open>k\<close>, and to minimum and maximum.\<close>

definition rate_of :: "gmap \<Rightarrow> u64" where
  "rate_of mapr = (case mapr ''sample_rate'' of Some (VInt64 sr) \<Rightarrow> sr | _ \<Rightarrow> 0)"

definition elem_at :: "u64 list \<Rightarrow> nat \<Rightarrow> u64" where
  "elem_at xs i = (if i < length xs then xs ! i else 0)"

definition amount :: "bool \<Rightarrow> rollupBase \<Rightarrow> string \<Rightarrow> nat \<Rightarrow> gmap \<Rightarrow> u64" where
  "amount ku r k i mapr = (if getKey ku r mapr = k then elem_at (flow_values r mapr (rate_of mapr)) i else 0)"

definition flow_total :: "rollupBase \<Rightarrow> gmap \<Rightarrow> u64" where
  "flow_total r mapr = sum_list (flow_values r mapr (rate_of mapr))"

definition sum_at :: "sumset \<Rightarrow> string \<Rightarrow> nat \<Rightarrow> u64" where
  "sum_at s k i = (case map_of (ss_sum s) k of None \<Rightarrow> 0 | Some xs \<Rightarrow> elem_at xs i)"

definition wf_sums :: "nat \<Rightarrow> (string \<times> u64 list) list \<Rightarrow> bool" where
  "wf_sums n kvs \<longleftrightarrow> distinct (map fst kvs) \<and> list_all (\<lambda>kv. length (snd kv) = n) kvs"

definition adds_up :: "bool \<Rightarrow> rollupBase \<Rightarrow> gmap list \<Rightarrow> sumset \<Rightarrow> bool" where
  "adds_up ku r flows s \<longleftrightarrow>
     wf_sums (length (rb_nameSet r)) (ss_sum s) \<and>
     (\<forall>k i. sum_at s k i = (\<Sum>f\<leftarrow>flows. amount ku r k i f)) \<and>
     fst ` set (ss_sum s) = getKey ku r ` set flows \<and>
     ss_count s = of_nat (length flows) \<and>
     ss_max s = Max (insert 0 (flow_total r ` set flows))"

definition sums_up :: "bool \<Rightarrow> rollupBase \<Rightarrow> gmap list \<Rightarrow> sumset \<Rightarrow> bool" where
  "sums_up ku r flows s \<longleftrightarrow> adds_up ku r flows s \<and> ss_min s = Min (insert (- 1) (flow_total r ` set flows))"

text \<open>Which batches do not panic.\<close>

definition enough_names :: "rollupBase \<Rightarrow> bool" where
  "enough_names r \<longleftrightarrow> (if rb_splitMetrics r then length (rb_metrics r) else 1) \<le> length (rb_nameSet r)"

definition typed_flow :: "gmap \<Rightarrow> bool" where
  "typed_flow mapr \<longleftrightarrow>
     (case mapr ''sample_rate'' of Some (VInt64 _) \<Rightarrow> True | _ \<Rightarrow> False) \<and>
     (case mapr ''provider'' of Some (VProvider _) \<Rightarrow> True | _ \<Rightarrow> False)"

lemma assert_int64_rate: "assert_int64 m ''sample_rate'' = Inr sr \<Longrightarrow> rate_of m = sr"
  by (auto simp: assert_int64_def rate_of_def split: option.splits gvalue.splits)

lemma typed_flow_iff:
  "typed_flow m \<longleftrightarrow> assert_int64 m ''sample_rate'' = Inr (rate_of m) \<and> (\<exists>p. assert_provider m ''provider'' = Inr p)"
  by (auto simp: typed_flow_def assert_int64_def rate_of_def assert_provider_def
      split: option.splits gvalue.splits)

lemma length_flow_values: "length (flow_values r m sr) \<le> length (rb_nameSet r) \<longleftrightarrow> enough_names r"
  by (simp add: flow_values_def enough_names_def)

lemma wf_sums_Nil [simp]: "wf_sums n []"
  by (simp add: wf_sums_def)

lemma wf_sums_lookup: "wf_sums n kvs \<Longrightarrow> map_of kvs k = Some xs \<Longrightarrow> length xs = n"
  by (auto simp: wf_sums_def list_all_iff dest!: map_of_SomeD)

lemma list_all_update:
  "list_all (\<lambda>kv. P (snd kv)) kvs \<Longrightarrow> P x \<Longrightarrow> list_all (\<lambda>kv. P (snd kv)) (AList.update k x kvs)"
  by (induction kvs) auto

lemma wf_sums_update: "wf_sums n kvs \<Longrightarrow> length xs = n \<Longrightarrow> wf_sums n (AList.update k xs kvs)"
  by (simp add: wf_sums_def distinct_update list_all_update [where P = "\<lambda>x. length x = n"])

lemma keys_update [simp]: "fst ` set (AList.update k x kvs) = insert k (fst ` set kvs)"
  by (simp add: dom_map_of_conv_image_fst [symmetric] update_conv')

lemma length_sums_of: "wf_sums n (ss_sum s) \<Longrightarrow> length (sums_of s k n) = n"
  by (auto simp: sums_of_def wf_sums_lookup split: option.split)

lemma elem_at_sums_of: "elem_at (sums_of s k n) i = sum_at s k i"
  by (auto simp: sums_of_def sum_at_def elem_at_def split: option.split)

text \<open>Both stages add a slice to the sums of a key.\<close>

lemma bump:
  assumes "wf_sums n (ss_sum s)" "length vs \<le> n"
  shows "\<exists>xs. go_foldM slice_add (indexed vs) (sums_of s k n) = Inr xs \<and> length xs = n \<and>
           (\<forall>i. elem_at xs i = sum_at s k i + elem_at vs i)"
proof -
  let ?xs = "map (\<lambda>j. if j < length vs then sums_of s k n ! j + vs ! j else sums_of s k n ! j) [0..<n]"
  have "go_foldM slice_add (indexed vs) (sums_of s k n) = Inr ?xs"
    using assms by (simp add: slice_add_all length_sums_of)
  moreover have "elem_at ?xs i = sum_at s k i + elem_at vs i" for i
    using assms elem_at_sums_of [of s k n i, symmetric] by (auto simp: elem_at_def length_sums_of)
  ultimately show ?thesis by auto
qed

lemma sum_at_update:
  "sum_at (s\<lparr>ss_sum := AList.update k xs (ss_sum s)\<rparr>) k' i = (if k' = k then elem_at xs i else sum_at s k' i)"
  by (simp add: sum_at_def update_conv)

lemma sum_at_cong: "ss_sum s = ss_sum s' \<Longrightarrow> sum_at s = sum_at s'"
  by (simp add: sum_at_def fun_eq_iff)

lemma addSum_flow_cases:
  assumes "wf_sums (length (rb_nameSet r)) (ss_sum s)"
  shows "(\<exists>s'. addSum_flow ku r m s = Inr s') \<longleftrightarrow> enough_names r \<and> typed_flow m"
proof -
  have "addSum_flow ku r m s = Inr s' \<Longrightarrow> enough_names r \<and> typed_flow m" for s'
    using assms length_flow_values [of r m "rate_of m"]
    by (auto simp: addSum_flow_def Let_def go_simps slice_add_all length_sums_of typed_flow_iff
        assert_int64_rate split: if_splits)
  moreover have "\<exists>s'. addSum_flow ku r m s = Inr s'" if "enough_names r \<and> typed_flow m"
    using that assms length_flow_values [of r m "rate_of m"]
    by (auto simp: addSum_flow_def Let_def slice_add_all length_sums_of typed_flow_iff)
  ultimately show ?thesis by blast
qed

lemma addSum_flow_step:
  assumes "wf_sums (length (rb_nameSet r)) (ss_sum s)" "addSum_flow ku r m s = Inr s'"
  shows "wf_sums (length (rb_nameSet r)) (ss_sum s')"
    and "sum_at s' k i = sum_at s k i + amount ku r k i m"
    and "fst ` set (ss_sum s') = insert (getKey ku r m) (fst ` set (ss_sum s))"
    and "ss_count s' = ss_count s + 1"
    and "ss_min s' = min (flow_total r m) (ss_min s)"
    and "ss_max s' = max (flow_total r m) (ss_max s)"
proof -
  let ?n = "length (rb_nameSet r)" and ?k = "getKey ku r m" and ?vs = "flow_values r m (rate_of m)"
  from assms have ok: "enough_names r" "typed_flow m"
    using addSum_flow_cases by blast+
  from ok(1) have len: "length ?vs \<le> ?n"
    by (simp add: length_flow_values)
  from bump [OF assms(1) len, of ?k] obtain xs where
    xs: "go_foldM slice_add (indexed ?vs) (sums_of s ?k ?n) = Inr xs" "length xs = ?n"
      "\<And>i. elem_at xs i = sum_at s ?k i + elem_at ?vs i" by blast
  from ok(2) obtain p where p: "assert_int64 m ''sample_rate'' = Inr (rate_of m)"
      "assert_provider m ''provider'' = Inr p"
    by (auto simp: typed_flow_iff)
  have "addSum_flow ku r m s = Inr \<lparr>ss_sum = AList.update ?k xs (ss_sum s), ss_count = ss_count s + 1,
      ss_min = (if flow_total r m < ss_min s then flow_total r m else ss_min s),
      ss_max = (if ss_max s < flow_total r m then flow_total r m else ss_max s), ss_prov = p\<rparr>"
    by (simp add: addSum_flow_def Let_def p xs(1) flow_total_def)
  with assms(2) have s': "s' = \<lparr>ss_sum = AList.update ?k xs (ss_sum s), ss_count = ss_count s + 1,
      ss_min = (if flow_total r m < ss_min s then flow_total r m else ss_min s),
      ss_max = (if ss_max s < flow_total r m then flow_total r m else ss_max s), ss_prov = p\<rparr>"
    by simp
  show "wf_sums ?n (ss_sum s')"
    using assms(1) xs(2) by (simp add: s' wf_sums_update)
  show "sum_at s' k i = sum_at s k i + amount ku r k i m"
    using xs(3) [of i] by (simp add: s' sum_at_def amount_def update_conv)
  show "fst ` set (ss_sum s') = insert ?k (fst ` set (ss_sum s))" "ss_count s' = ss_count s + 1"
    by (simp_all add: s')
  show "ss_min s' = min (flow_total r m) (ss_min s)" "ss_max s' = max (flow_total r m) (ss_max s)"
    by (auto simp: s' min_def max_def)
qed

lemma sums_up_Nil: "sums_up ku r [] new_sumset"
  by (simp add: sums_up_def adds_up_def new_sumset_def sum_at_def)

lemma sums_up_step:
  assumes "sums_up ku r flows s" "addSum_flow ku r m s = Inr s'"
  shows "sums_up ku r (flows @ [m]) s'"
  using assms(1) addSum_flow_step [OF _ assms(2)]
  by (auto simp: sums_up_def adds_up_def Min_insert2 min.left_commute max.left_commute insert_commute [of "- 1"] insert_commute [of 0])

lemma addSum_sums_up: "addSum ku r flows = Inr s \<Longrightarrow> sums_up ku r flows s"
proof (induction flows arbitrary: s rule: rev_induct)
  case Nil
  then show ?case by (simp add: addSum_def sums_up_Nil)
next
  case (snoc m flows)
  then show ?case
    by (auto simp: addSum_def go_foldM_append go_simps intro: sums_up_step)
qed

lemma addSum_ok_iff:
  "(\<exists>s. addSum ku r flows = Inr s) \<longleftrightarrow> flows = [] \<or> enough_names r \<and> list_all typed_flow flows"
proof (induction flows rule: rev_induct)
  case Nil
  show ?case by (simp add: addSum_def)
next
  case (snoc m flows)
  have step: "(\<exists>s'. addSum_flow ku r m s = Inr s') \<longleftrightarrow> enough_names r \<and> typed_flow m" if "addSum ku r flows = Inr s" for s
    using addSum_flow_cases addSum_sums_up [OF that] by (auto simp: sums_up_def adds_up_def)
  have "(\<exists>s'. addSum ku r (flows @ [m]) = Inr s') \<longleftrightarrow> (\<exists>s. addSum ku r flows = Inr s \<and> (\<exists>s'. addSum_flow ku r m s = Inr s'))"
    by (auto simp: addSum_def go_foldM_append go_simps)
  also have "\<dots> \<longleftrightarrow> (\<exists>s. addSum ku r flows = Inr s) \<and> enough_names r \<and> typed_flow m"
    using step by blast
  finally show ?case
    using snoc.IH by auto
qed

text \<open>Two stages agree when their sums do.\<close>

lemma sums_up_unique:
  assumes "sums_up ku r flows s" "sums_up ku r flows' s'" "mset flows = mset flows'"
  shows "map_of (ss_sum s) = map_of (ss_sum s')"
    and "ss_count s = ss_count s'" and "ss_min s = ss_min s'" and "ss_max s = ss_max s'"
proof -
  have set: "set flows = set flows'" and len: "length flows = length flows'"
    using assms(3) mset_eq_setD mset_eq_length by blast+
  have at: "sum_at s k i = sum_at s' k i" for k i
    using assms by (simp add: sums_up_def adds_up_def sum_mset_sum_list [symmetric])
  have dom: "dom (map_of (ss_sum s)) = dom (map_of (ss_sum s'))"
    using assms set by (simp add: sums_up_def adds_up_def dom_map_of_conv_image_fst)
  show "map_of (ss_sum s) = map_of (ss_sum s')"
  proof
    fix k
    show "map_of (ss_sum s) k = map_of (ss_sum s') k"
    proof (cases "map_of (ss_sum s) k")
      case None
      with dom show ?thesis by (metis domIff)
    next
      case (Some xs)
      with dom obtain ys where ys: "map_of (ss_sum s') k = Some ys" by (metis domD domI)
      have "length xs = length ys"
        using Some ys assms(1,2) wf_sums_lookup by (metis sums_up_def adds_up_def)
      moreover have "elem_at xs i = elem_at ys i" for i
        using at [of k i] Some ys by (simp add: sum_at_def)
      ultimately have "xs = ys"
        by (metis elem_at_def nth_equalityI)
      with Some ys show ?thesis by simp
    qed
  qed
  show "ss_count s = ss_count s'" "ss_min s = ss_min s'" "ss_max s = ss_max s'"
    using assms set len by (simp_all add: sums_up_def adds_up_def)
qed

section \<open>What the goroutine adds up to\<close>

lemma sum_items:
  assumes "wf_sums n kvs" "wf_sums n (ss_sum s)"
  shows "\<exists>m. go_foldM sum_item kvs s = Inr (s\<lparr>ss_sum := m\<rparr>) \<and> wf_sums n m \<and>
           (\<forall>k i. sum_at (s\<lparr>ss_sum := m\<rparr>) k i = sum_at s k i + sum_at (s\<lparr>ss_sum := kvs\<rparr>) k i) \<and>
           fst ` set m = fst ` set (ss_sum s) \<union> fst ` set kvs"
  using assms
proof (induction kvs arbitrary: s)
  case Nil
  then show ?case by (auto simp: sum_at_def intro!: exI [of _ "ss_sum s"])
next
  case (Cons kv kvs)
  obtain k v where kv: "kv = (k, v)" by force
  have len: "length v = n" and wf: "wf_sums n kvs" and new: "map_of kvs k = None"
    using Cons.prems(1) by (auto simp: kv wf_sums_def map_of_eq_None_iff)
  from bump [OF Cons.prems(2), of v k] len obtain xs where
    xs: "go_foldM slice_add (indexed v) (sums_of s k n) = Inr xs" "length xs = n"
      "\<And>i. elem_at xs i = sum_at s k i + elem_at v i" by auto
  let ?s = "s\<lparr>ss_sum := AList.update k xs (ss_sum s)\<rparr>"
  from Cons.IH [OF wf, of ?s] Cons.prems(2) xs(2) obtain m where
    m: "go_foldM sum_item kvs ?s = Inr (?s\<lparr>ss_sum := m\<rparr>)" "wf_sums n m"
      "\<And>k i. sum_at (?s\<lparr>ss_sum := m\<rparr>) k i = sum_at ?s k i + sum_at (?s\<lparr>ss_sum := kvs\<rparr>) k i"
      "fst ` set m = fst ` set (ss_sum ?s) \<union> fst ` set kvs"
    by (auto simp: wf_sums_update)
  have "sum_at (s\<lparr>ss_sum := m\<rparr>) k' i = sum_at s k' i + sum_at (s\<lparr>ss_sum := kv # kvs\<rparr>) k' i" for k' i
    using m(3) [of k' i] xs(3) [of i] new by (auto simp: sum_at_def kv update_conv split: option.splits)
  moreover have "go_foldM sum_item (kv # kvs) s = Inr (s\<lparr>ss_sum := m\<rparr>)"
    using m(1) xs(1) by (simp add: sum_item_def kv len)
  ultimately show ?case
    using m(2,4) by (auto simp: kv)
qed

lemma sumKvs_item_adds_up:
  assumes "adds_up ku r flows s" "adds_up ku r flows' itm"
  shows "\<exists>s'. sumKvs_item itm s = Inr s' \<and> adds_up ku r (flows @ flows') s' \<and>
           ss_min s' = min (ss_min s) (ss_min itm) \<and> ss_prov s' = ss_prov itm \<and>
           (\<forall>k i. sum_at s' k i = sum_at s k i + sum_at itm k i)"
proof -
  let ?n = "length (rb_nameSet r)"
  have wf: "wf_sums ?n (ss_sum itm)" "wf_sums ?n (ss_sum s)"
    using assms by (simp_all add: adds_up_def)
  from sum_items [OF wf] obtain m where
    m: "go_foldM sum_item (ss_sum itm) s = Inr (s\<lparr>ss_sum := m\<rparr>)" "wf_sums ?n m"
      "\<And>k i. sum_at (s\<lparr>ss_sum := m\<rparr>) k i = sum_at s k i + sum_at (s\<lparr>ss_sum := ss_sum itm\<rparr>) k i"
      "fst ` set m = fst ` set (ss_sum s) \<union> fst ` set (ss_sum itm)" by blast
  obtain s' where s': "sumKvs_item itm s = Inr s'" "ss_sum s' = m" "ss_count s' = ss_count s + ss_count itm"
      "ss_min s' = min (ss_min s) (ss_min itm)" "ss_max s' = max (ss_max s) (ss_max itm)" "ss_prov s' = ss_prov itm"
  proof (rule that)
    show "sumKvs_item itm s = Inr (s\<lparr>ss_sum := m, ss_count := ss_count s + ss_count itm,
        ss_min := min (ss_min s) (ss_min itm), ss_max := max (ss_max s) (ss_max itm), ss_prov := ss_prov itm\<rparr>)"
      by (auto simp: sumKvs_item_def m(1) min_def max_def)
  qed simp_all
  have at: "sum_at s' k i = sum_at s k i + sum_at itm k i" for k i
    using m(3) [of k i] s'(2) by (simp add: sum_at_def)
  have maxs: "ss_max s' = Max (insert 0 (flow_total r ` (set flows \<union> set flows')))"
    using assms s'(5) by (simp add: adds_up_def image_Un Max_Un [symmetric] insert_commute)
  have "adds_up ku r (flows @ flows') s'"
    using assms at maxs m(2,4) s'(2,3) by (simp add: adds_up_def image_Un)
  with s'(1,4,6) at show ?thesis by blast
qed

lemma sumKvs_item_sums_up:
  assumes "sums_up ku r flows s" "sums_up ku r flows' itm"
  shows "\<exists>s'. sumKvs_item itm s = Inr s' \<and> sums_up ku r (flows @ flows') s'"
proof -
  from sumKvs_item_adds_up [of ku r flows s flows' itm] assms obtain s' where
    s': "sumKvs_item itm s = Inr s'" "adds_up ku r (flows @ flows') s'" "ss_min s' = min (ss_min s) (ss_min itm)"
    by (auto simp: sums_up_def)
  have "ss_min s' = Min (insert (- 1) (flow_total r ` (set flows \<union> set flows')))"
    using assms s'(3) by (simp add: sums_up_def image_Un Min_Un [symmetric] insert_commute)
  with s' show ?thesis by (simp add: sums_up_def)
qed

lemma sumKvs_items_sums_up:
  assumes "sums_up ku r flows s" "list_all2 (sums_up ku r) flowss items"
  shows "\<exists>s'. go_foldM sumKvs_item items s = Inr s' \<and> sums_up ku r (flows @ concat flowss) s'"
  using assms(2,1)
proof (induction arbitrary: flows s rule: list_all2_induct)
  case Nil
  then show ?case by simp
next
  case (Cons fl flowss itm items)
  from sumKvs_item_sums_up [OF Cons.prems Cons.hyps(1)] Cons.IH show ?case by fastforce
qed

lemma addSums_sums_up: "go_mapM (addSum ku r) batches = Inr items \<Longrightarrow> list_all2 (sums_up ku r) batches items"
  by (induction batches arbitrary: items) (auto simp: go_simps addSum_sums_up)

lemma addSums_ok:
  "go_mapM (addSum ku r) batches = Inr items \<Longrightarrow>
     list_all typed_flow (concat batches) \<and> (concat batches = [] \<or> enough_names r)"
proof (induction batches arbitrary: items)
  case Nil
  then show ?case by simp
next
  case (Cons b batches)
  from Cons.prems obtain s items' where "addSum ku r b = Inr s" "go_mapM (addSum ku r) batches = Inr items'"
    by (auto simp: go_simps)
  with Cons.IH addSum_ok_iff [of ku r b] show ?case
    by (cases "b = []") auto
qed

text \<open>
  C6: the sums, the count, the minimum and the maximum
  that \<open>sumKvs\<close> has after receiving the batches of any stream of flows are those of adding all the
  flows in one batch, in any order: the two stages are equivalent to one, however the flows are
  batched and whatever order the batches arrive in.
\<close>

theorem sum_rollup_batching_irrelevant:
  assumes "go_mapM (addSum ku r) batches = Inr items" and "mset flows = mset (concat batches)"
  shows "\<exists>acc one. go_foldM sumKvs_item items new_sumset = Inr acc \<and> addSum ku r flows = Inr one \<and>
           map_of (ss_sum acc) = map_of (ss_sum one) \<and> ss_count acc = ss_count one \<and>
           ss_min acc = ss_min one \<and> ss_max acc = ss_max one"
proof -
  from sumKvs_items_sums_up [OF sums_up_Nil addSums_sums_up [OF assms(1)]] obtain acc where
    acc: "go_foldM sumKvs_item items new_sumset = Inr acc" "sums_up ku r (concat batches) acc" by auto
  have "set flows = set (concat batches)"
    using assms(2) by (rule mset_eq_setD)
  with addSums_ok [OF assms(1)] have "flows = [] \<or> enough_names r \<and> list_all typed_flow flows"
    using assms(2) by (metis list_all_iff mset_zero_iff)
  then obtain one where one: "addSum ku r flows = Inr one"
    using addSum_ok_iff by blast
  from sums_up_unique [OF acc(2) addSum_sums_up [OF one] assms(2) [symmetric]] acc(1) one show ?thesis by blast
qed

section \<open>Interleavings\<close>

text \<open>
  The runs of a \<open>sum\<close> rollup: callers of \<open>Add\<close> and \<open>Export\<close> and the goroutine \<open>sumKvs\<close>, in any
  order.  \<open>sum_run ku r ins outs kvs acc\<close>: the batches \<open>ins\<close> were accepted, the sums \<open>outs\<close>
  handed to \<open>exportSum\<close> (which then keeps its top rows of them), the channel holds \<open>kvs\<close> and \<open>sumKvs\<close> holds \<open>acc\<close>.  A batch that finds the channel
  full is dropped.
\<close>

inductive sum_run :: "bool \<Rightarrow> rollupBase \<Rightarrow> gmap list list \<Rightarrow> sumset list \<Rightarrow> sumset list \<Rightarrow> sumset \<Rightarrow> bool"
  for ku :: bool and r :: rollupBase where
  sum_start: "sum_run ku r [] [] [] new_sumset"
| sum_add: "sum_run ku r ins outs kvs acc \<Longrightarrow> filtered r batch = Inr flows \<Longrightarrow> addSum ku r flows = Inr itm \<Longrightarrow>
    length kvs < CHAN_SLACK \<Longrightarrow> sum_run ku r (ins @ [flows]) outs (kvs @ [itm]) acc"
| sum_add_full: "sum_run ku r ins outs kvs acc \<Longrightarrow> filtered r batch = Inr flows \<Longrightarrow> addSum ku r flows = Inr itm \<Longrightarrow>
    \<not> length kvs < CHAN_SLACK \<Longrightarrow> sum_run ku r ins outs kvs acc"
| sum_take: "sum_run ku r ins outs (itm # kvs) acc \<Longrightarrow> sumKvs_item itm acc = Inr acc' \<Longrightarrow> sum_run ku r ins outs kvs acc'"
| sum_export: "sum_run ku r ins outs kvs acc \<Longrightarrow> sum_run ku r ins (outs @ [acc]) kvs sumKvs_reset"

lemma adds_up_reset: "adds_up ku r [] sumKvs_reset"
  by (simp add: adds_up_def sumKvs_reset_def sum_at_def)

lemma addSum_adds_up: "addSum ku r flows = Inr s \<Longrightarrow> adds_up ku r flows s"
  using addSum_sums_up by (simp add: sums_up_def)

text \<open>The exported sums, the sums held and the items queued split the accepted flows.\<close>

lemma sum_run_invariant:
  assumes "sum_run ku r ins outs kvs acc"
  shows "\<exists>past cur queued. concat ins = concat past @ cur @ concat queued \<and>
           list_all2 (adds_up ku r) past outs \<and> adds_up ku r cur acc \<and> list_all2 (adds_up ku r) queued kvs"
  using assms
proof (induction rule: sum_run.induct)
  case sum_start
  then show ?case
    using sums_up_Nil [of ku r] by (intro exI [of _ "[]"]) (simp add: sums_up_def)
next
  case (sum_add ins outs kvs acc batch flows itm)
  then obtain past cur queued where "concat ins = concat past @ cur @ concat queued"
      "list_all2 (adds_up ku r) past outs" "adds_up ku r cur acc" "list_all2 (adds_up ku r) queued kvs" by blast
  with addSum_adds_up [OF sum_add.hyps(3)] show ?case
    by (intro exI [of _ past] exI [of _ cur] exI [of _ "queued @ [flows]"]) (simp add: list_all2_appendI)
next
  case (sum_add_full ins outs kvs acc batch flows itm)
  then show ?case by blast
next
  case (sum_take ins outs itm kvs acc acc')
  then obtain past cur queued where q: "concat ins = concat past @ cur @ concat queued"
      "list_all2 (adds_up ku r) past outs" "adds_up ku r cur acc" "list_all2 (adds_up ku r) queued (itm # kvs)" by blast
  then obtain flows queued' where q': "queued = flows # queued'" "adds_up ku r flows itm" "list_all2 (adds_up ku r) queued' kvs"
    by (auto simp: list_all2_Cons2)
  from sumKvs_item_adds_up [OF q(3) q'(2)] sum_take.hyps(2) have "adds_up ku r (cur @ flows) acc'" by auto
  with q q' show ?case
    by (intro exI [of _ past] exI [of _ "cur @ flows"] exI [of _ queued']) simp
next
  case (sum_export ins outs kvs acc)
  then obtain past cur queued where "concat ins = concat past @ cur @ concat queued"
      "list_all2 (adds_up ku r) past outs" "adds_up ku r cur acc" "list_all2 (adds_up ku r) queued kvs" by blast
  with adds_up_reset [of ku r] show ?case
    by (intro exI [of _ "past @ [cur]"] exI [of _ "[]"] exI [of _ queued]) (simp add: list_all2_appendI)
qed

lemma adds_up_sum: "adds_up ku r flows s \<Longrightarrow> sum_at s k i = (\<Sum>f\<leftarrow>flows. amount ku r k i f)"
  by (simp add: adds_up_def)

lemma adds_up_sums:
  "list_all2 (adds_up ku r) flowss ss \<Longrightarrow> (\<Sum>s\<leftarrow>ss. sum_at s k i) = (\<Sum>f\<leftarrow>concat flowss. amount ku r k i f)"
  by (induction rule: list_all2_induct) (simp_all add: adds_up_sum)

lemma sum_run_total:
  assumes "sum_run ku r ins outs kvs acc"
  shows "(\<Sum>s\<leftarrow>outs. sum_at s k i) + sum_at acc k i + (\<Sum>s\<leftarrow>kvs. sum_at s k i) =
           (\<Sum>f\<leftarrow>concat ins. amount ku r k i f)"
proof -
  from sum_run_invariant [OF assms] obtain past cur queued where
    q: "concat ins = concat past @ cur @ concat queued" "list_all2 (adds_up ku r) past outs"
      "adds_up ku r cur acc" "list_all2 (adds_up ku r) queued kvs" by blast
  from adds_up_sums [OF q(2)] adds_up_sums [OF q(4)] adds_up_sum [OF q(3)] show ?thesis
    by (simp add: q(1) add.assoc)
qed

lemma sum_run_receives:
  assumes "sum_run ku r ins outs (itm # kvs) acc"
  shows "\<exists>acc'. sumKvs_item itm acc = Inr acc'"
proof -
  from sum_run_invariant [OF assms] obtain cur queued where
    q: "adds_up ku r cur acc" "list_all2 (adds_up ku r) queued (itm # kvs)" by blast
  then obtain flows where "adds_up ku r flows itm"
    by (auto simp: list_all2_Cons2)
  from sumKvs_item_adds_up [OF q(1) this] show ?thesis by blast
qed

text \<open>
  C7: in every interleaving of adds, receives and exports, what
  was handed to exports for a key, what \<open>sumKvs\<close> holds for it and what is queued add up (modulo \<open>2 ^ 64\<close>) to
  what the accepted flows contribute: no flow is lost or counted twice, and the goroutine never
  panics on the item at the head of the channel.
\<close>

theorem sum_rollup_conserves:
  assumes "sum_run ku r ins outs kvs acc"
  shows "(\<Sum>s\<leftarrow>outs. sum_at s k i) + sum_at acc k i + (\<Sum>s\<leftarrow>kvs. sum_at s k i) =
           (\<Sum>f\<leftarrow>concat ins. amount ku r k i f) \<and>
         (kvs = [] \<or> (\<exists>acc'. sumKvs_item (hd kvs) acc = Inr acc'))"
  using sum_run_total [OF assms] sum_run_receives [of ku r ins outs "hd kvs" "tl kvs" acc] assms
  by (cases kvs) auto

lemma sum_run_drains: "sum_run ku r ins outs kvs acc \<Longrightarrow> \<exists>acc'. sum_run ku r ins outs [] acc'"
proof (induction kvs arbitrary: acc)
  case Nil
  then show ?case by blast
next
  case (Cons itm kvs)
  from sum_run_receives [OF Cons.prems] obtain acc' where "sumKvs_item itm acc = Inr acc'" by blast
  from Cons.IH [OF sum_take [OF Cons.prems this]] show ?case .
qed

text \<open>
  From every state of a \<open>sum\<close> rollup the goroutine can receive
  everything that is queued and hand its sums to an export, after which nothing is pending and the
  sums handed to the exports, before each cuts them to its top rows, together are the contribution of
  every accepted flow: no state is stuck, and no accepted flow is out of reach.
\<close>

theorem sum_rollup_drains:
  assumes "sum_run ku r ins outs kvs acc"
  shows "\<exists>exported. sum_run ku r ins (outs @ [exported]) [] sumKvs_reset \<and>
    (\<forall>k i. (\<Sum>s\<leftarrow>outs @ [exported]. sum_at s k i) = (\<Sum>f\<leftarrow>concat ins. amount ku r k i f))"
proof -
  from sum_run_drains [OF assms] obtain acc' where acc': "sum_run ku r ins outs [] acc'" by blast
  have "(\<Sum>s\<leftarrow>outs @ [acc']. sum_at s k i) = (\<Sum>f\<leftarrow>concat ins. amount ku r k i f)" for k i
    using sum_run_total [OF acc', of k i] by simp
  with sum_export [OF acc'] show ?thesis by blast
qed

text \<open>
  Once a rollup has been exported, the minimum
  it holds is zero and stays zero whatever flows arrive, so every export but the first reports the
  minimum zero.
\<close>

theorem sum_rollup_min_lost_after_export:
  assumes "sum_run ku r ins outs kvs acc" and "outs \<noteq> []"
  shows "ss_min acc = 0 \<and> (\<forall>s \<in> set (tl outs). ss_min s = 0)"
  using assms
proof (induction rule: sum_run.induct)
  case (sum_take ins outs itm kvs acc acc')
  then have "ss_min acc' = (if ss_min itm < ss_min acc then ss_min itm else ss_min acc)"
    by (auto simp: sumKvs_item_def go_simps)
  with sum_take show ?case by simp
next
  case (sum_export ins outs kvs acc)
  then show ?case by (cases outs) (auto simp: sumKvs_reset_def)
qed simp_all

section \<open>Exports\<close>

definition row_of :: "rollupBase \<Rightarrow> sumset \<Rightarrow> nat \<times> string \<Rightarrow> string \<times> u64 list \<Rightarrow> rollup_row" where
  "row_of r s = (\<lambda>(i, name) (k, v).
     \<lparr>rr_Dimension = k, rr_Metric = of_int (f64_of_u64 (v ! i)), rr_EventType = rb_eventType r,
      rr_KeyJoin = rb_keyJoin r, rr_dims = combo (rb_multiDims r), rr_Name = name,
      rr_Count = ss_count s, rr_Min = ss_min s, rr_Max = ss_max s, rr_Provider = ss_prov s\<rparr>)"

lemma sum_rows:
  assumes "wf_sums n (ss_sum s)" "i < n"
  shows "go_mapM (sum_row r s (i, name)) (ss_sum s) = Inr (map (row_of r s (i, name)) (ss_sum s))"
  using assms by (intro go_mapM_Inr) (auto simp: sum_row_def row_of_def wf_sums_def list_all_iff)

lemma exportSum_eq:
  assumes "wf_sums (length (rb_nameSet r)) (ss_sum s)" "ss_sum s \<noteq> []"
  shows "exportSum srt topK r s =
           Inr (concat (map (\<lambda>iname. top_rows srt topK (map (row_of r s iname) (ss_sum s))) (indexed (rb_nameSet r))))"
proof -
  have "go_mapM (\<lambda>iname. go_bind (go_mapM (sum_row r s iname) (ss_sum s)) (\<lambda>keys. Inr (top_rows srt topK keys)))
          (indexed (rb_nameSet r)) =
        Inr (map (\<lambda>iname. top_rows srt topK (map (row_of r s iname) (ss_sum s))) (indexed (rb_nameSet r)))"
    using sum_rows [OF assms(1)] by (intro go_mapM_Inr) (auto simp: indexed_def set_zip)
  with assms(2) show ?thesis by (simp add: exportSum_def)
qed

text \<open>The rows that \<open>TopK\<close> keeps: a largest part of the asked size, in descending order.\<close>

definition is_top :: "i64 \<Rightarrow> rollup_row list \<Rightarrow> rollup_row list \<Rightarrow> bool" where
  "is_top topK rows kept \<longleftrightarrow>
     (\<exists>cut. mset rows = mset kept + mset cut \<and> (\<forall>a \<in> set kept. \<forall>b \<in> set cut. rr_Metric b \<le> rr_Metric a)) \<and>
     sorted_wrt (\<lambda>a b. rr_Metric b \<le> rr_Metric a) kept \<and>
     length kept = (if 0 < sint topK then min (nat (sint topK)) (length rows) else length rows)"

lemma top_rows_is_top:
  assumes "sorts_by_value srt"
  shows "is_top topK rows (top_rows srt topK rows)"
proof -
  let ?keys = "srt rows" and ?k = "nat (sint topK)"
  have keys: "mset ?keys = mset rows" "sorted_wrt (\<lambda>a b. rr_Metric b \<le> rr_Metric a) ?keys"
    using assms by (simp_all add: sorts_by_value_def)
  then have len: "length ?keys = length rows"
    using mset_eq_length by blast
  show ?thesis
  proof (cases "0 < sint topK \<and> sint topK < int (length ?keys)")
    case True
    have split: "mset rows = mset (take ?k ?keys) + mset (drop ?k ?keys)"
      by (simp flip: keys(1) mset_append)
    have "sorted_wrt (\<lambda>a b. rr_Metric b \<le> rr_Metric a) (take ?k ?keys @ drop ?k ?keys)"
      using keys(2) by simp
    then have "\<forall>a \<in> set (take ?k ?keys). \<forall>b \<in> set (drop ?k ?keys). rr_Metric b \<le> rr_Metric a"
      and "sorted_wrt (\<lambda>a b. rr_Metric b \<le> rr_Metric a) (take ?k ?keys)"
      unfolding sorted_wrt_append by blast+
    with split True len show ?thesis
      by (auto simp: is_top_def top_rows_def Let_def intro!: exI [of _ "drop ?k ?keys"])
  next
    case False
    with keys len show ?thesis
      by (auto simp: is_top_def top_rows_def Let_def intro!: exI [of _ "[]"])
  qed
qed

text \<open>
  C31: an export of the sums of some flows does not panic and returns,
  for each name of the rollup in turn, the rows of the largest sums at that name's position: \<open>TopK\<close>
  of them if it is positive and there are more, all of them otherwise, in descending order.
\<close>

theorem exportSum_top_k:
  assumes "sorts_by_value srt" and "adds_up ku r flows s" and "flows \<noteq> []"
  shows "\<exists>blocks. exportSum srt topK r s = Inr (concat blocks) \<and>
           list_all2 (\<lambda>iname. is_top topK (map (row_of r s iname) (ss_sum s))) (indexed (rb_nameSet r)) blocks"
proof -
  have "wf_sums (length (rb_nameSet r)) (ss_sum s)" "ss_sum s \<noteq> []"
    using assms(2,3) by (auto simp: adds_up_def)
  from exportSum_eq [OF this] top_rows_is_top [OF assms(1)] show ?thesis
    by (auto simp: list_all2_map2 list.rel_refl
        intro!: exI [of _ "map (\<lambda>iname. top_rows srt topK (map (row_of r s iname) (ss_sum s))) (indexed (rb_nameSet r))"])
qed

section \<open>Which batches panic\<close>

text \<open>
  C32: adding a batch to a \<open>sum\<close> rollup panics exactly when the batch
  is not empty and either the rollup has more split metrics than names or some flow has no 64-bit
  sample rate or no provider.
\<close>

theorem addSum_panics_iff:
  "(\<exists>pn. addSum ku r flows = Inl pn) \<longleftrightarrow> flows \<noteq> [] \<and> \<not> (enough_names r \<and> list_all typed_flow flows)"
  using addSum_ok_iff [of ku r flows] by (cases "addSum ku r flows") auto

text \<open>A batch that the filters leave empty still clears the provider of the interval.\<close>

lemma empty_batch_clears_provider:
  "addSum ku r [] = Inr itm \<Longrightarrow> sumKvs_item itm s = Inr s' \<Longrightarrow> ss_prov s' = []"
  by (auto simp: addSum_def new_sumset_def sumKvs_item_def)

section \<open>The samples of the slow path\<close>

definition sample_for :: "bool \<Rightarrow> rollupBase \<Rightarrow> string \<Rightarrow> gmap \<Rightarrow> int" where
  "sample_for ku r k f = (if getKey ku r f = k then stat_sample r f (rate_of f) else 0)"

lemma indexed_snoc: "indexed (xs @ [x]) = indexed xs @ [(length xs, x)]"
  by (simp add: indexed_def)

lemma stat_flows:
  assumes "go_foldM (stat_flow ku r n) (indexed fs) [] = Inr t" "length fs \<le> n"
  shows "distinct (map fst t) \<and>
    map_of t k = (if k \<in> getKey ku r ` set fs then Some (map (sample_for ku r k) fs @ replicate (n - length fs) 0) else None)"
  using assms
proof (induction fs arbitrary: t k rule: rev_induct)
  case Nil
  then show ?case by (simp add: indexed_def)
next
  case (snoc f fs)
  let ?pad = "\<lambda>k fs. map (sample_for ku r k) fs @ replicate (n - length fs) 0"
  from snoc.prems(1) obtain t0 where t0: "go_foldM (stat_flow ku r n) (indexed fs) [] = Inr t0"
      "stat_flow ku r n (length fs, f) t0 = Inr t"
    by (auto simp: indexed_snoc go_foldM_append go_simps)
  let ?k = "getKey ku r f"
  have IH: "distinct (map fst t0)" "map_of t0 k = (if k \<in> getKey ku r ` set fs then Some (?pad k fs) else None)" for k
    using snoc.IH [OF t0(1)] snoc.prems(2) by auto
  have none: "map (sample_for ku r k) fs = replicate (length fs) 0" if "k \<notin> getKey ku r ` set fs" for k
    using that by (induction fs) (auto simp: sample_for_def)
  have "(case map_of t0 ?k of Some xs \<Rightarrow> xs | None \<Rightarrow> replicate n 0) = ?pad ?k fs"
    using IH(2) [of ?k] none [of ?k] snoc.prems(2) by (auto simp flip: replicate_add)
  then have t: "t = AList.update ?k ((?pad ?k fs)[length fs := stat_sample r f (rate_of f)]) t0"
    using t0(2) snoc.prems(2)
    by (auto simp: stat_flow_def go_simps Let_def slice_set_def dest!: assert_int64_rate)
  have upd: "(?pad ?k fs)[length fs := stat_sample r f (rate_of f)] = ?pad ?k (fs @ [f])"
    using snoc.prems(2) by (cases "n - length fs") (auto simp: list_update_append sample_for_def)
  have other: "?pad k (fs @ [f]) = ?pad k fs" if "k \<noteq> ?k" for k
    using snoc.prems(2) that by (cases "n - length fs") (auto simp: sample_for_def)
  show ?case
    using IH(1) IH(2) [of k] other [of k] by (auto simp: t upd update_conv distinct_update)
qed

lemma fold_append_samples:
  "distinct (map fst t) \<Longrightarrow>
   map_of (fold append_samples t st) k =
     (case map_of t k of None \<Rightarrow> map_of st k
      | Some v \<Rightarrow> Some ((case map_of st k of Some xs \<Rightarrow> xs | None \<Rightarrow> []) @ v))"
proof (induction t arbitrary: st)
  case Nil
  then show ?case by simp
next
  case (Cons kv t)
  obtain k' v where kv: "kv = (k', v)" by force
  with Cons.prems have "map_of t k' = None" by (simp add: map_of_eq_None_iff)
  with Cons show ?case
    by (auto simp: kv append_samples_def update_conv split: option.split)
qed

text \<open>
  On the slow path (minimum, maximum, mean, median, entropy,
  percentiles) a batch appends to the samples of each of its keys one number per flow of the whole
  batch: the sample of the flows with that key and a zero for every other flow.  So the statistics of
  a key depend on how many flows of other keys arrived in the same batches.
\<close>

theorem stats_samples_padded:
  assumes "stats_Add ku r flows st = Inr st'" and "k \<in> getKey ku r ` set flows"
  shows "map_of st' k =
           Some ((case map_of st k of Some xs \<Rightarrow> xs | None \<Rightarrow> []) @ map (sample_for ku r k) flows)"
proof -
  from assms(1) obtain t where t: "go_foldM (stat_flow ku r (length flows)) (indexed flows) [] = Inr t"
      "st' = fold append_samples t st"
    by (auto simp: stats_Add_def go_simps)
  from stat_flows [OF t(1)] assms(2) fold_append_samples [of t st k] show ?thesis
    by (auto simp: t(2))
qed

section \<open>Examples\<close>

definition example_rollup :: rollupBase where
  "example_rollup = zero_rollupBase\<lparr>rb_metrics := [''in_bytes''], rb_multiDims := [[''foo'']], rb_keyJoin := ''^'',
     rb_nameSet := [''s'']\<rparr>"

definition example_flow :: "string \<Rightarrow> i64 \<Rightarrow> gmap" where
  "example_flow foo bytes = map_of [(''foo'', VString foo), (''in_bytes'', VInt64 bytes),
     (''sample_rate'', VInt64 1), (''provider'', VProvider ''pp'')]"

lemma example_value: "flow_values example_rollup (example_flow k v) sr = [v]"
  by (simp add: flow_values_def example_rollup_def zero_rollupBase_def scaled_def metric_value_def add_metric_def
      example_flow_def)

lemma example_key: "getKey False example_rollup (example_flow k v) = k"
  by (simp add: getKey_def key_part_def setKey_def example_rollup_def zero_rollupBase_def example_flow_def)

lemma example_typed [simp]: "typed_flow (example_flow k v)"
  by (simp add: typed_flow_def example_flow_def)

lemma example_names [simp]: "enough_names example_rollup"
  by (simp add: enough_names_def example_rollup_def zero_rollupBase_def)

lemma example_amount: "amount False example_rollup k 0 (example_flow k' v) = (if k' = k then v else 0)"
  by (simp add: amount_def example_key example_value elem_at_def)

lemma example_addSum: "list_all typed_flow flows \<Longrightarrow> \<exists>s. addSum False example_rollup flows = Inr s"
  by (simp add: addSum_ok_iff)

lemma example_run:
  "\<exists>acc. sum_run False example_rollup [[example_flow ''a'' 10]] [acc] [] sumKvs_reset \<and>
     adds_up False example_rollup [example_flow ''a'' 10] acc"
proof -
  let ?b = "[example_flow ''a'' 10]"
  obtain itm where itm: "addSum False example_rollup ?b = Inr itm"
    using example_addSum by fastforce
  have fil: "filtered example_rollup ?b = Inr ?b"
    by (simp add: filtered_def example_rollup_def zero_rollupBase_def)
  have add: "sum_run False example_rollup [?b] [] [itm] new_sumset"
    using sum_add [OF sum_start fil itm] by (simp add: CHAN_SLACK_def)
  have "adds_up False example_rollup [] new_sumset"
    using sums_up_Nil by (simp add: sums_up_def)
  from sumKvs_item_adds_up [OF this addSum_adds_up [OF itm]] obtain acc where
    acc: "sumKvs_item itm new_sumset = Inr acc" "adds_up False example_rollup ?b acc" by auto
  from sum_export [OF sum_take [OF add acc(1)]] acc(2) show ?thesis by auto
qed

lemma example_run_again:
  "\<exists>acc acc'. sum_run False example_rollup [[example_flow ''a'' 10], [example_flow ''a'' 20]] [acc] [] acc' \<and>
     sum_at acc' ''a'' 0 = 20"
proof -
  let ?b = "[example_flow ''a'' 20]"
  obtain acc where run: "sum_run False example_rollup [[example_flow ''a'' 10]] [acc] [] sumKvs_reset"
    using example_run by blast
  obtain itm where itm: "addSum False example_rollup ?b = Inr itm"
    using example_addSum by fastforce
  have fil: "filtered example_rollup ?b = Inr ?b"
    by (simp add: filtered_def example_rollup_def zero_rollupBase_def)
  have add: "sum_run False example_rollup [[example_flow ''a'' 10], ?b] [acc] [itm] sumKvs_reset"
    using sum_add [OF run fil itm] by (simp add: CHAN_SLACK_def)
  from sumKvs_item_adds_up [OF adds_up_reset addSum_adds_up [OF itm]] obtain acc' where
    acc': "sumKvs_item itm sumKvs_reset = Inr acc'" "adds_up False example_rollup ?b acc'" by auto
  from sum_take [OF add acc'(1)] adds_up_sum [OF acc'(2), of "''a''" 0] show ?thesis
    by (auto simp: example_amount)
qed

definition sort_by_value :: "rollup_row list \<Rightarrow> rollup_row list" where
  "sort_by_value rows = sort_key (\<lambda>row. - rr_Metric row) rows"

lemma sorts_sort_by_value: "sorts_by_value sort_by_value"
proof -
  have "sorted (map (\<lambda>row. - rr_Metric row) (sort_by_value rows))" for rows
    by (simp add: sort_by_value_def)
  then show ?thesis
    by (simp add: sorts_by_value_def sort_by_value_def sorted_map)
qed

theorem sum_rollup_batching_irrelevant_witness:
  "\<exists>items acc one.
     go_mapM (addSum False example_rollup) [[example_flow ''a'' 10], [example_flow ''b'' 5, example_flow ''a'' 20]] = Inr items \<and>
     go_foldM sumKvs_item items new_sumset = Inr acc \<and>
     addSum False example_rollup [example_flow ''a'' 20, example_flow ''b'' 5, example_flow ''a'' 10] = Inr one \<and>
     map_of (ss_sum acc) = map_of (ss_sum one) \<and> ss_min acc = ss_min one"
proof -
  obtain i1 where i1: "addSum False example_rollup [example_flow ''a'' 10] = Inr i1"
    using example_addSum by fastforce
  obtain i2 where i2: "addSum False example_rollup [example_flow ''b'' 5, example_flow ''a'' 20] = Inr i2"
    using example_addSum by fastforce
  have items: "go_mapM (addSum False example_rollup)
      [[example_flow ''a'' 10], [example_flow ''b'' 5, example_flow ''a'' 20]] = Inr [i1, i2]"
    using i1 i2 by simp
  from sum_rollup_batching_irrelevant [OF items, of "[example_flow ''a'' 20, example_flow ''b'' 5, example_flow ''a'' 10]"]
  show ?thesis
    unfolding items by (auto simp: add_mset_commute)
qed

theorem sum_rollup_conserves_witness:
  "\<exists>acc acc'. sum_run False example_rollup [[example_flow ''a'' 10], [example_flow ''a'' 20]] [acc] [] acc' \<and>
     sum_at acc ''a'' 0 + sum_at acc' ''a'' 0 = 30"
proof -
  obtain acc acc' where run: "sum_run False example_rollup [[example_flow ''a'' 10], [example_flow ''a'' 20]] [acc] [] acc'"
    using example_run_again by blast
  with sum_rollup_conserves [OF run, of "''a''" 0] show ?thesis
    by (auto simp: example_amount)
qed

theorem sum_rollup_min_lost_after_export_witness:
  "\<exists>acc acc'. sum_run False example_rollup [[example_flow ''a'' 10], [example_flow ''a'' 20]] [acc] [] acc' \<and>
     sum_at acc' ''a'' 0 = 20 \<and> ss_min acc' = 0"
proof -
  obtain acc acc' where run: "sum_run False example_rollup [[example_flow ''a'' 10], [example_flow ''a'' 20]] [acc] [] acc'"
      "sum_at acc' ''a'' 0 = 20"
    using example_run_again by blast
  with sum_rollup_min_lost_after_export [OF run(1)] show ?thesis by auto
qed

theorem exportSum_top_k_witness:
  "\<exists>s rows. addSum False example_rollup [example_flow ''a'' 10, example_flow ''b'' 20] = Inr s \<and>
     exportSum sort_by_value 1 example_rollup s = Inr rows \<and> length rows = 1"
proof -
  obtain s where s: "addSum False example_rollup [example_flow ''a'' 10, example_flow ''b'' 20] = Inr s"
    using example_addSum by fastforce
  from s have "fst ` set (ss_sum s) \<noteq> {}"
    using addSum_adds_up [OF s] by (simp add: adds_up_def)
  then have ne: "ss_sum s \<noteq> []" by auto
  have names: "indexed (rb_nameSet example_rollup) = [(0, ''s'')]"
    by (simp add: indexed_def example_rollup_def zero_rollupBase_def)
  from exportSum_top_k [OF sorts_sort_by_value addSum_adds_up [OF s], of 1] s ne show ?thesis
    by (cases "ss_sum s") (auto simp: names list_all2_Cons1 is_top_def)
qed

theorem stats_samples_padded_witness:
  "\<exists>st. stats_Add False example_rollup [example_flow ''a'' 10, example_flow ''b'' 20] [] = Inr st \<and>
     map_of st ''a'' = Some [10, 0] \<and> map_of st ''b'' = Some [0, 20]"
proof -
  let ?flows = "[example_flow ''a'' 10, example_flow ''b'' 20]"
  have rate: "assert_int64 (example_flow k v) ''sample_rate'' = Inr 1" for k v
    by (simp add: assert_int64_def example_flow_def)
  have sample: "stat_sample example_rollup (example_flow k v) sr = f64_of_i64 v" for k v sr
    by (simp add: stat_sample_def stat_metric_def example_rollup_def zero_rollupBase_def example_flow_def)
  obtain st where st: "stats_Add False example_rollup ?flows [] = Inr st"
    by (simp add: stats_Add_def stat_flow_def indexed_def rate example_key slice_set_def Let_def)
  from stats_samples_padded [OF st, of "''a''"] stats_samples_padded [OF st, of "''b''"] st show ?thesis
    by (simp add: example_key sample_for_def sample f64_of_i64_def f64_round_exact)
qed

theorem sum_rollup_drains_witness:
  "\<exists>acc exported. sum_run False example_rollup [[example_flow ''a'' 10], [example_flow ''a'' 20]] [acc, exported] [] sumKvs_reset \<and>
     sum_at acc ''a'' 0 + sum_at exported ''a'' 0 = 30"
proof -
  obtain acc acc' where run: "sum_run False example_rollup [[example_flow ''a'' 10], [example_flow ''a'' 20]] [acc] [] acc'"
    using example_run_again by blast
  from sum_rollup_drains [OF run] obtain exported where
    e: "sum_run False example_rollup [[example_flow ''a'' 10], [example_flow ''a'' 20]] ([acc] @ [exported]) [] sumKvs_reset"
      "\<And>k i. (\<Sum>s\<leftarrow>[acc] @ [exported]. sum_at s k i) =
         (\<Sum>f\<leftarrow>concat [[example_flow ''a'' 10], [example_flow ''a'' 20]]. amount False example_rollup k i f)"
    by blast
  from e(1) e(2) [of "''a''" 0] show ?thesis
    by (auto simp: example_amount)
qed

end
