(* ===== verification/Rollup_Cache.thy ===== *)
theory Rollup_Cache
  imports Rollup_Stats
begin

text \<open>
  The cache rollups of \<open>pkg/rollup/cache.go\<close>: one entry per key, an estimate of the memory they
  use, and the emergency cleanup that removes the entries not updated for longest.  The map is an
  association list with distinct keys whose order stands for the order of iteration.  The readings of
  the clock are arguments: \<open>now\<close> for a batch, \<open>later i\<close> for the cleanup that flow \<open>i\<close> of the batch
  sets off (durations do not saturate).  \<open>Add\<close> holds the mutex, so it is one step.
\<close>

section \<open>The state\<close>

record CacheEntry =
  ce_Key :: string
  ce_Sum :: u64
  ce_Count :: u64
  ce_Min :: u64
  ce_Max :: u64
  ce_Provider :: string
  ce_UniqueVals :: "string list"
  ce_LastUpdated :: int

record cache_config =
  cfg_EmergencyCleanup :: bool
  cfg_MaxMemoryMB :: i64
  cfg_MaxKeys :: i64
  cfg_TopK :: i64

record CacheRollup =
  cr_base :: rollupBase
  cr_cache :: "(string \<times> CacheEntry) list"
  cr_config :: cache_config
  cr_isUnique :: bool
  cr_memoryUsage :: i64

definition CACHE_ENTRY_OVERHEAD :: nat where
  "CACHE_ENTRY_OVERHEAD = 150"

definition newCacheRollup :: "RollupDef \<Rightarrow> string \<Rightarrow> cache_config \<Rightarrow> bool \<Rightarrow> rollup_error + CacheRollup" where
  "newCacheRollup rd joinKey cfg isUnique =
     go_bind (rollupBase_init rd (zero_rollupBase\<lparr>rb_keyJoin := joinKey, rb_topK := cfg_TopK cfg\<rparr>)) (\<lambda>base.
     Inr \<lparr>cr_base = base, cr_cache = [], cr_config = cfg, cr_isUnique = isUnique, cr_memoryUsage = 0\<rparr>)"

section \<open>One entry\<close>

definition addStatValues :: "rollupBase \<Rightarrow> gmap \<Rightarrow> CacheEntry \<Rightarrow> go_panic + CacheEntry" where
  "addStatValues r mapr entry =
     go_bind (assert_int64 mapr ''sample_rate'') (\<lambda>sr.
     let value = scaled r sr (metric_value r mapr) in
     Inr (entry\<lparr>ce_Sum := ce_Sum entry + value,
                ce_Min := (if value < ce_Min entry then value else ce_Min entry),
                ce_Max := (if ce_Max entry < value then value else ce_Max entry)\<rparr>))"

definition unique_metric :: "gmap \<Rightarrow> string \<Rightarrow> string list \<Rightarrow> string list" where
  "unique_metric mapr metric vals =
     (case mapr metric of
        Some (VString m) \<Rightarrow> List.insert m vals
      | Some (VInt64 m) \<Rightarrow> List.insert (strconv_Itoa m) vals
      | _ \<Rightarrow> vals)"

definition unique_multi_metric :: "gmap \<Rightarrow> string list \<Rightarrow> string list \<Rightarrow> string list" where
  "unique_multi_metric mapr m vals =
     (case mapr (m ! 0) of
        Some (VStrMap mm) \<Rightarrow> List.insert (case mm (m ! 1) of Some v \<Rightarrow> v | None \<Rightarrow> []) vals
      | Some (VInt32Map mm) \<Rightarrow> List.insert (strconv_Itoa (case mm (m ! 1) of Some v \<Rightarrow> scast v | None \<Rightarrow> 0)) vals
      | Some (VInt64Map mm) \<Rightarrow> List.insert (strconv_Itoa (case mm (m ! 1) of Some v \<Rightarrow> v | None \<Rightarrow> 0)) vals
      | _ \<Rightarrow> vals)"

definition addUniqueValues :: "rollupBase \<Rightarrow> gmap \<Rightarrow> CacheEntry \<Rightarrow> CacheEntry" where
  "addUniqueValues r mapr entry =
     entry\<lparr>ce_UniqueVals := fold (unique_multi_metric mapr) (rb_multiMetrics r)
       (fold (unique_metric mapr) (rb_metrics r) (ce_UniqueVals entry))\<rparr>"

definition estimateEntrySize :: "bool \<Rightarrow> CacheEntry \<Rightarrow> i64" where
  "estimateEntrySize isUnique entry =
     of_nat (CACHE_ENTRY_OVERHEAD + length (ce_Key entry) +
       (if isUnique then length (ce_UniqueVals entry) * 20 + sum_list (map length (ce_UniqueVals entry)) else 0))"

definition new_entry :: "string \<Rightarrow> string \<Rightarrow> int \<Rightarrow> CacheEntry" where
  "new_entry key prov now = \<lparr>ce_Key = key, ce_Sum = 0, ce_Count = 0, ce_Min = - 1, ce_Max = 0,
     ce_Provider = prov, ce_UniqueVals = [], ce_LastUpdated = now\<rparr>"

section \<open>The emergency cleanup\<close>

definition shouldDoEmergencyCleanup :: "CacheRollup \<Rightarrow> bool" where
  "shouldDoEmergencyCleanup cr =
     (let cfg = cr_config cr in
      cfg_EmergencyCleanup cfg \<and>
      (0 < sint (cfg_MaxMemoryMB cfg) \<and> sint (cfg_MaxMemoryMB cfg * 1024 * 1024) < sint (cr_memoryUsage cr) \<or>
       0 < sint (cfg_MaxKeys cfg) \<and> sint (cfg_MaxKeys cfg) < int (length (cr_cache cr))))"

definition entry_age :: "int \<Rightarrow> string \<times> CacheEntry \<Rightarrow> int" where
  "entry_age now = (\<lambda>(key, entry). now - ce_LastUpdated entry)"

definition doEmergencyCleanup :: "int \<Rightarrow> CacheRollup \<Rightarrow> go_panic + CacheRollup" where
  "doEmergencyCleanup now cr =
     (if cr_cache cr = [] then Inr cr
      else
        let ages = rev (sort (map (entry_age now) (cr_cache cr)));
            thresholdIndex = max 1 (length ages div 2) in
        go_bind (slice_get ages thresholdIndex) (\<lambda>ageThreshold.
        let old = filter (\<lambda>ke. ageThreshold \<le> entry_age now ke) (cr_cache cr) in
        Inr (cr\<lparr>cr_cache := filter (\<lambda>ke. \<not> ageThreshold \<le> entry_age now ke) (cr_cache cr),
                cr_memoryUsage := cr_memoryUsage cr -
                  (\<Sum>ke\<leftarrow>old. estimateEntrySize (cr_isUnique cr) (snd ke))\<rparr>)))"

section \<open>Adding a batch\<close>

text \<open>The entry of a key, made if it is missing, which may set off a cleanup.\<close>

definition cache_entry :: "int \<Rightarrow> int \<Rightarrow> gmap \<Rightarrow> string \<Rightarrow> CacheRollup \<Rightarrow> go_panic + CacheEntry \<times> CacheRollup" where
  "cache_entry now later mapr key cr =
     (case map_of (cr_cache cr) key of
        Some entry \<Rightarrow> Inr (entry, cr)
      | None \<Rightarrow>
          go_bind (assert_provider mapr ''provider'') (\<lambda>prov.
          let entry = new_entry key prov now;
              cr1 = cr\<lparr>cr_cache := AList.update key entry (cr_cache cr),
                       cr_memoryUsage := cr_memoryUsage cr + estimateEntrySize (cr_isUnique cr) entry\<rparr> in
          go_bind (if shouldDoEmergencyCleanup cr1 then doEmergencyCleanup later cr1 else Inr cr1) (\<lambda>cr2.
          Inr (entry, cr2))))"

text \<open>
  The entry is a pointer: updating it changes the cache only if the cleanup has left it there.
\<close>

definition update_entry :: "string \<Rightarrow> CacheEntry \<Rightarrow> CacheRollup \<Rightarrow> CacheRollup" where
  "update_entry key entry cr =
     (if map_of (cr_cache cr) key = None then cr
      else cr\<lparr>cr_cache := AList.update key entry (cr_cache cr)\<rparr>)"

definition cache_Add_flow :: "bool \<Rightarrow> int \<Rightarrow> (nat \<Rightarrow> int) \<Rightarrow> nat \<times> gmap \<Rightarrow> CacheRollup \<Rightarrow> go_panic + CacheRollup" where
  "cache_Add_flow ku now later = (\<lambda>(i, mapr) cr.
     let key = getKey ku (cr_base cr) mapr in
     if key = [] then Inr cr
     else
       go_bind (cache_entry now (later i) mapr key cr) (\<lambda>(entry, cr').
       let entry' = entry\<lparr>ce_LastUpdated := now, ce_Count := ce_Count entry + 1\<rparr> in
       go_bind (if cr_isUnique cr then Inr (addUniqueValues (cr_base cr) mapr entry')
                else addStatValues (cr_base cr) mapr entry') (\<lambda>entry''.
       Inr (update_entry key entry'' cr'))))"

definition cache_Add :: "bool \<Rightarrow> int \<Rightarrow> (nat \<Rightarrow> int) \<Rightarrow> gmap list \<Rightarrow> CacheRollup \<Rightarrow> go_panic + CacheRollup" where
  "cache_Add ku now later flows cr =
     go_bind (filtered (cr_base cr) flows) (\<lambda>kept. go_foldM (cache_Add_flow ku now later) (indexed kept) cr)"

section \<open>Exporting\<close>

definition cache_row :: "CacheRollup \<Rightarrow> CacheEntry \<Rightarrow> rollup_row" where
  "cache_row cr entry =
     \<lparr>rr_Dimension = ce_Key entry,
      rr_Metric = of_int (if cr_isUnique cr then f64_round (int (length (ce_UniqueVals entry))) else f64_of_u64 (ce_Sum entry)),
      rr_EventType = rb_eventType (cr_base cr), rr_KeyJoin = rb_keyJoin (cr_base cr),
      rr_dims = combo (rb_multiDims (cr_base cr)), rr_Name = strings_Join (rb_nameSet (cr_base cr)) '';'',
      rr_Count = ce_Count entry, rr_Min = ce_Min entry, rr_Max = ce_Max entry, rr_Provider = ce_Provider entry\<rparr>"

definition cache_Export :: "(rollup_row list \<Rightarrow> rollup_row list) \<Rightarrow> CacheRollup \<Rightarrow> rollup_row list \<times> CacheRollup" where
  "cache_Export srt cr =
     ((if cr_cache cr = [] then []
       else top_rows srt (cfg_TopK (cr_config cr)) (map (\<lambda>ke. cache_row cr (snd ke)) (cr_cache cr))),
      cr\<lparr>cr_cache := [], cr_memoryUsage := 0\<rparr>)"

section \<open>What the cleanup removes\<close>

lemma sum_list_filter_split:
  fixes f :: "'a \<Rightarrow> 'b::comm_monoid_add"
  shows "(\<Sum>x\<leftarrow>filter P xs. f x) + (\<Sum>x\<leftarrow>filter (\<lambda>x. \<not> P x) xs. f x) = (\<Sum>x\<leftarrow>xs. f x)"
  by (induction xs) (auto simp: algebra_simps)

lemma descending_count:
  assumes "sorted (rev ages)" "i < length ages"
  shows "i < length (filter (\<lambda>a. ages ! i \<le> a) ages)"
proof -
  have "\<forall>a \<in> set (take (Suc i) ages). ages ! i \<le> a"
    using assms by (auto simp: in_set_conv_nth sorted_rev_nth_mono)
  then have "filter (\<lambda>a. ages ! i \<le> a) (take (Suc i) ages) = take (Suc i) ages"
    by (simp add: filter_id_conv)
  then have "length (filter (\<lambda>a. ages ! i \<le> a) (take (Suc i) ages @ drop (Suc i) ages)) \<ge> Suc i"
    unfolding filter_append using assms(2) by simp
  then show ?thesis by simp
qed

text \<open>The ages in descending order, and the age at which the cleanup cuts.\<close>

definition ages_of :: "int \<Rightarrow> CacheRollup \<Rightarrow> int list" where
  "ages_of now cr = rev (sort (map (entry_age now) (cr_cache cr)))"

definition cut_age :: "int \<Rightarrow> CacheRollup \<Rightarrow> int" where
  "cut_age now cr = ages_of now cr ! max 1 (length (cr_cache cr) div 2)"

lemma length_ages_of [simp]: "length (ages_of now cr) = length (cr_cache cr)"
  by (simp add: ages_of_def)

lemma cleanup_eq:
  "doEmergencyCleanup now cr =
     (if cr_cache cr = [] then Inr cr
      else if length (cr_cache cr) = 1 then Inl IndexOutOfRange
      else Inr (cr\<lparr>cr_cache := filter (\<lambda>ke. \<not> cut_age now cr \<le> entry_age now ke) (cr_cache cr),
        cr_memoryUsage := cr_memoryUsage cr -
          (\<Sum>ke\<leftarrow>filter (\<lambda>ke. cut_age now cr \<le> entry_age now ke) (cr_cache cr). estimateEntrySize (cr_isUnique cr) (snd ke))\<rparr>))"
proof -
  have "max 1 (length (cr_cache cr) div 2) < length (cr_cache cr) \<longleftrightarrow> length (cr_cache cr) \<noteq> 1" if "cr_cache cr \<noteq> []"
    using that by (cases "length (cr_cache cr)") (auto simp: max_def)
  then show ?thesis
    by (auto simp: doEmergencyCleanup_def slice_get_def Let_def cut_age_def simp flip: ages_of_def)
qed

lemma cleanup_shrinks:
  assumes "doEmergencyCleanup now cr = Inr cr'"
  shows "length (cr_cache cr') \<le> length (cr_cache cr) - (length (cr_cache cr) div 2 + 1)"
proof (cases "cr_cache cr = []")
  case True
  with assms show ?thesis by (simp add: cleanup_eq)
next
  case False
  let ?n = "length (cr_cache cr)" and ?i = "max 1 (length (cr_cache cr) div 2)"
  let ?old = "\<lambda>a. cut_age now cr \<le> a"
  from False assms have n: "1 < ?n" and c: "cr_cache cr' = filter (\<lambda>ke. \<not> ?old (entry_age now ke)) (cr_cache cr)"
    by (auto simp: cleanup_eq split: if_splits) (metis One_nat_def Suc_lessI length_greater_0_conv)
  have "sorted (rev (ages_of now cr))"
    by (simp add: ages_of_def)
  moreover have "?i < length (ages_of now cr)"
    using n div_less_dividend [of 2 ?n] by (auto simp: max_def)
  ultimately have "?i < length (filter ?old (ages_of now cr))"
    unfolding cut_age_def by (rule descending_count)
  also have "length (filter ?old (ages_of now cr)) = length (filter (\<lambda>ke. ?old (entry_age now ke)) (cr_cache cr))"
    by (simp add: ages_of_def filter_map o_def rev_filter [symmetric] filter_sort)
  finally have "?i < length (filter (\<lambda>ke. ?old (entry_age now ke)) (cr_cache cr))" .
  moreover have "length (filter (\<lambda>ke. ?old (entry_age now ke)) (cr_cache cr)) +
      length (filter (\<lambda>ke. \<not> ?old (entry_age now ke)) (cr_cache cr)) = ?n"
    by (rule sum_length_filter_compl)
  ultimately show ?thesis
    unfolding c by (auto simp: max_def split: if_splits)
qed

text \<open>
  An emergency cleanup panics exactly when the cache has
  one entry; otherwise it leaves the cache unchanged if it is empty and else removes more than half
  of the entries, each of them at least as old as every entry it keeps.
\<close>

theorem cleanup_keeps_the_newest:
  "case doEmergencyCleanup now cr of
     Inl pn \<Rightarrow> length (cr_cache cr) = 1
   | Inr cr' \<Rightarrow> length (cr_cache cr) \<noteq> 1 \<and>
       (\<exists>removed. mset (cr_cache cr) = mset (cr_cache cr') + mset removed \<and>
          (cr_cache cr = [] \<or> length (cr_cache cr) < 2 * length removed) \<and>
          \<not> (\<exists>a \<in> set removed. \<exists>b \<in> set (cr_cache cr'). entry_age now a \<le> entry_age now b))"
proof (cases "doEmergencyCleanup now cr")
  case (Inl pn)
  then show ?thesis by (auto simp: cleanup_eq split: if_splits)
next
  case (Inr cr')
  let ?removed = "filter (\<lambda>ke. cut_age now cr \<le> entry_age now ke) (cr_cache cr)"
  show ?thesis
  proof (cases "cr_cache cr = []")
    case True
    with Inr show ?thesis by (auto simp: cleanup_eq)
  next
    case False
    with Inr have one: "length (cr_cache cr) \<noteq> 1"
      and c: "cr_cache cr' = filter (\<lambda>ke. \<not> cut_age now cr \<le> entry_age now ke) (cr_cache cr)"
      by (auto simp: cleanup_eq split: if_splits)
    have parts: "mset (cr_cache cr) = mset (cr_cache cr') + mset ?removed"
      unfolding c by (simp add: union_commute)
    then have "length (cr_cache cr) = length (cr_cache cr') + length ?removed"
      by (metis mset_append mset_eq_length length_append)
    with cleanup_shrinks [OF Inr] False have "length (cr_cache cr) < 2 * length ?removed"
      by (cases "cr_cache cr") auto
    moreover have "\<not> (\<exists>a \<in> set ?removed. \<exists>b \<in> set (cr_cache cr'). entry_age now a \<le> entry_age now b)"
      unfolding c by auto
    ultimately have "\<exists>removed. mset (cr_cache cr) = mset (cr_cache cr') + mset removed \<and>
        (cr_cache cr = [] \<or> length (cr_cache cr) < 2 * length removed) \<and>
        \<not> (\<exists>a \<in> set removed. \<exists>b \<in> set (cr_cache cr'). entry_age now a \<le> entry_age now b)"
      using parts by blast
    with one show ?thesis
      unfolding Inr by (simp only: sum.case) blast
  qed
qed

section \<open>The invariant of the cache\<close>

definition key_size :: "string \<Rightarrow> i64" where
  "key_size k = of_nat (CACHE_ENTRY_OVERHEAD + length k)"

definition cache_inv :: "CacheRollup \<Rightarrow> bool" where
  "cache_inv cr \<longleftrightarrow>
     distinct (map fst (cr_cache cr)) \<and> list_all (\<lambda>(k, e). ce_Key e = k \<and> k \<noteq> []) (cr_cache cr) \<and>
     (cr_isUnique cr \<or> cr_memoryUsage cr = (\<Sum>k\<leftarrow>map fst (cr_cache cr). key_size k)) \<and>
     (cfg_EmergencyCleanup (cr_config cr) \<and> 0 < sint (cfg_MaxKeys (cr_config cr)) \<longrightarrow>
        int (length (cr_cache cr)) \<le> sint (cfg_MaxKeys (cr_config cr)))"

definition same_rollup :: "CacheRollup \<Rightarrow> CacheRollup \<Rightarrow> bool" where
  "same_rollup cr cr' \<longleftrightarrow> cr_base cr' = cr_base cr \<and> cr_config cr' = cr_config cr \<and> cr_isUnique cr' = cr_isUnique cr"

lemma estimate_new_entry: "estimateEntrySize u (new_entry key prov now) = key_size key"
  by (simp add: estimateEntrySize_def new_entry_def key_size_def)

lemma estimate_stat: "estimateEntrySize False e = key_size (ce_Key e)"
  by (simp add: estimateEntrySize_def key_size_def)

lemma length_AList_update:
  "length (AList.update k v kvs) = (if k \<in> fst ` set kvs then length kvs else Suc (length kvs))"
  by (induction kvs) auto

lemma update_new_key: "k \<notin> fst ` set kvs \<Longrightarrow> AList.update k v kvs = kvs @ [(k, v)]"
  by (induction kvs) auto

lemma cleanup_same: "doEmergencyCleanup now cr = Inr cr' \<Longrightarrow> same_rollup cr cr'"
  by (auto simp: cleanup_eq same_rollup_def split: if_splits)

lemma cleanup_memory:
  assumes "doEmergencyCleanup now cr = Inr cr'" "\<not> cr_isUnique cr" "list_all (\<lambda>(k, e). ce_Key e = k) (cr_cache cr)"
    and "cr_memoryUsage cr = (\<Sum>k\<leftarrow>map fst (cr_cache cr). key_size k)"
  shows "cr_memoryUsage cr' = (\<Sum>k\<leftarrow>map fst (cr_cache cr'). key_size k)"
proof (cases "cr_cache cr = []")
  case True
  with assms show ?thesis by (simp add: cleanup_eq)
next
  case False
  let ?old = "\<lambda>ke. cut_age now cr \<le> entry_age now ke"
  have size: "estimateEntrySize False (snd ke) = key_size (fst ke)" if "ke \<in> set (cr_cache cr)" for ke
    using assms(3) that by (auto simp: estimate_stat list_all_iff)
  have "(\<Sum>ke\<leftarrow>filter ?old (cr_cache cr). estimateEntrySize False (snd ke)) = (\<Sum>ke\<leftarrow>filter ?old (cr_cache cr). key_size (fst ke))"
    using size by (intro arg_cong [of _ _ sum_list] map_cong) auto
  with False assms(1,2,4) sum_list_filter_split [where f = "\<lambda>ke. key_size (fst ke)" and P = ?old and xs = "cr_cache cr"]
  show ?thesis
    by (auto simp: cleanup_eq o_def algebra_simps split: if_splits)
qed

lemma cleanup_subset: "doEmergencyCleanup now cr = Inr cr' \<Longrightarrow> \<exists>P. cr_cache cr' = filter P (cr_cache cr)"
  by (auto simp: cleanup_eq split: if_splits intro: filter_True)

text \<open>The entry of a key is made without breaking the invariant.\<close>

lemma cache_entry_inv:
  assumes "cache_inv cr" "cache_entry now later m key cr = Inr (entry, cr')" "key \<noteq> []"
  shows "cache_inv cr' \<and> same_rollup cr cr' \<and> ce_Key entry = key"
proof (cases "map_of (cr_cache cr) key")
  case (Some e)
  with assms have "entry = e" "cr' = cr" "(key, e) \<in> set (cr_cache cr)"
    by (auto simp: cache_entry_def map_of_SomeD)
  with assms(1) show ?thesis
    by (auto simp: cache_inv_def same_rollup_def list_all_iff)
next
  case None
  then obtain prov where p: "assert_provider m ''provider'' = Inr prov"
    using assms(2) by (auto simp: cache_entry_def go_simps)
  define cr1 where "cr1 = cr\<lparr>cr_cache := AList.update key (new_entry key prov now) (cr_cache cr),
    cr_memoryUsage := cr_memoryUsage cr + key_size key\<rparr>"
  have new: "key \<notin> fst ` set (cr_cache cr)"
    using None by (auto simp: map_of_eq_None_iff)
  from None assms(2) p have e: "entry = new_entry key prov now"
    and cr': "(if shouldDoEmergencyCleanup cr1 then doEmergencyCleanup later cr1 else Inr cr1) = Inr cr'"
    by (auto simp: cache_entry_def go_simps estimate_new_entry cr1_def Let_def)
  have same1: "same_rollup cr cr1"
    by (simp add: same_rollup_def cr1_def)
  have len1: "length (cr_cache cr1) = Suc (length (cr_cache cr))"
    using new by (simp add: cr1_def length_AList_update)
  have dist1: "distinct (map fst (cr_cache cr1))"
    using assms(1) by (simp add: cr1_def cache_inv_def distinct_update)
  have keys1: "list_all (\<lambda>(k, e). ce_Key e = k \<and> k \<noteq> []) (cr_cache cr1)"
    using assms(1,3) new by (simp add: cr1_def cache_inv_def update_new_key new_entry_def)
  have mem1: "cr_isUnique cr1 \<or> cr_memoryUsage cr1 = (\<Sum>k\<leftarrow>map fst (cr_cache cr1). key_size k)"
    using assms(1) new by (auto simp: cr1_def cache_inv_def update_keys)
  show ?thesis
  proof (cases "shouldDoEmergencyCleanup cr1")
    case False
    with cr' have "cr' = cr1" by simp
    moreover from False have "cfg_EmergencyCleanup (cr_config cr1) \<and> 0 < sint (cfg_MaxKeys (cr_config cr1)) \<longrightarrow>
        int (length (cr_cache cr1)) \<le> sint (cfg_MaxKeys (cr_config cr1))"
      by (auto simp: shouldDoEmergencyCleanup_def Let_def)
    ultimately show ?thesis
      using dist1 keys1 mem1 same1 by (simp add: cache_inv_def e new_entry_def)
  next
    case True
    with cr' have clean: "doEmergencyCleanup later cr1 = Inr cr'" by simp
    from cleanup_subset [OF clean] obtain P where P: "cr_cache cr' = filter P (cr_cache cr1)" by blast
    have "length (cr_cache cr') \<le> length (cr_cache cr)"
      using cleanup_shrinks [OF clean] len1 by simp
    moreover have "same_rollup cr cr'"
      using same1 cleanup_same [OF clean] by (simp add: same_rollup_def)
    moreover have "distinct (map fst (cr_cache cr'))"
      using dist1 by (simp add: P distinct_map_filter)
    moreover have "list_all (\<lambda>(k, e). ce_Key e = k \<and> k \<noteq> []) (cr_cache cr')"
      using keys1 by (auto simp: P list_all_iff)
    moreover have "cr_isUnique cr' \<or> cr_memoryUsage cr' = (\<Sum>k\<leftarrow>map fst (cr_cache cr'). key_size k)"
      using mem1 cleanup_memory [OF clean] keys1 cleanup_same [OF clean]
      by (auto simp: same_rollup_def list_all_iff)
    ultimately show ?thesis
      using assms(1) e by (auto simp: cache_inv_def same_rollup_def new_entry_def)
  qed
qed

lemma list_all_AList_update: "list_all Q kvs \<Longrightarrow> Q (k, v) \<Longrightarrow> list_all Q (AList.update k v kvs)"
  by (induction kvs) auto

lemma same_rollup_trans: "same_rollup a b \<Longrightarrow> same_rollup b c \<Longrightarrow> same_rollup a c"
  by (simp add: same_rollup_def)

lemma update_entry_inv:
  assumes "cache_inv cr" "ce_Key e = key" "key \<noteq> []"
  shows "cache_inv (update_entry key e cr)"
proof (cases "map_of (cr_cache cr) key = None")
  case True
  with assms(1) show ?thesis by (simp add: update_entry_def)
next
  case False
  let ?cache = "AList.update key e (cr_cache cr)"
  from False have "key \<in> fst ` set (cr_cache cr)"
    by (simp add: map_of_eq_None_iff)
  then have keys: "map fst ?cache = map fst (cr_cache cr)" and len: "length ?cache = length (cr_cache cr)"
    by (auto simp: update_keys length_AList_update)
  have "list_all (\<lambda>(k, e). ce_Key e = k \<and> k \<noteq> []) ?cache"
    using assms by (intro list_all_AList_update) (auto simp: cache_inv_def)
  with False assms(1) show ?thesis
    unfolding cache_inv_def update_entry_def by (simp del: map_map add: keys len)
qed

lemma update_entry_same: "same_rollup cr (update_entry key e cr)"
  by (simp add: update_entry_def same_rollup_def)

lemma addStatValues_key: "addStatValues r m e = Inr e' \<Longrightarrow> ce_Key e' = ce_Key e"
  by (auto simp: addStatValues_def go_simps Let_def)

lemma cache_Add_flow_inv:
  assumes "cache_inv cr" "cache_Add_flow ku now later im cr = Inr cr'"
  shows "cache_inv cr' \<and> same_rollup cr cr'"
proof -
  obtain i m where im: "im = (i, m)" by force
  let ?key = "getKey ku (cr_base cr) m"
  show ?thesis
  proof (cases "?key = []")
    case True
    with assms show ?thesis by (simp add: cache_Add_flow_def im Let_def same_rollup_def)
  next
    case False
    with assms(2) obtain entry cr1 e where
      e: "cache_entry now (later i) m ?key cr = Inr (entry, cr1)" "cr' = update_entry ?key e cr1" "ce_Key e = ce_Key entry"
      by (auto simp: cache_Add_flow_def im Let_def go_simps addUniqueValues_def split: if_splits
          dest!: addStatValues_key)
    from cache_entry_inv [OF assms(1) e(1) False] e(2,3) False show ?thesis
      by (metis same_rollup_trans update_entry_inv update_entry_same)
  qed
qed

lemma cache_Add_inv:
  assumes "cache_inv cr" "cache_Add ku now later flows cr = Inr cr'"
  shows "cache_inv cr' \<and> same_rollup cr cr'"
proof -
  from assms(2) obtain kept where "go_foldM (cache_Add_flow ku now later) (indexed kept) cr = Inr cr'"
    by (auto simp: cache_Add_def go_simps)
  moreover have "cache_inv s' \<and> same_rollup cr s'"
    if "cache_inv s \<and> same_rollup cr s" "cache_Add_flow ku now later im s = Inr s'" for im s s'
    using that cache_Add_flow_inv same_rollup_trans by blast
  moreover have "cache_inv cr \<and> same_rollup cr cr"
    using assms(1) by (simp add: same_rollup_def)
  ultimately show ?thesis
    using go_foldM_invariant [of "indexed kept" "\<lambda>s. cache_inv s \<and> same_rollup cr s" "cache_Add_flow ku now later" cr cr']
    by blast
qed

text \<open>The states a rollup reaches: it is made, filters are set, batches are added and it is exported.\<close>

inductive cache_reach :: "bool \<Rightarrow> CacheRollup \<Rightarrow> CacheRollup \<Rightarrow> bool" for ku :: bool and start :: CacheRollup where
  reach_start: "cache_reach ku start start"
| reach_add: "cache_reach ku start cr \<Longrightarrow> cache_Add ku now later flows cr = Inr cr' \<Longrightarrow> cache_reach ku start cr'"
| reach_export: "cache_reach ku start cr \<Longrightarrow> cache_reach ku start (snd (cache_Export srt cr))"
| reach_filter: "cache_reach ku start cr \<Longrightarrow> cache_reach ku start (cr\<lparr>cr_base := SetFilter fw (cr_base cr)\<rparr>)"

lemma newCacheRollup_inv: "newCacheRollup rd j cfg u = Inr cr \<Longrightarrow> cache_inv cr \<and> cr_config cr = cfg \<and> cr_isUnique cr = u \<and> cr_cache cr = []"
  by (auto simp: newCacheRollup_def go_simps cache_inv_def)

lemma cache_Export_inv: "cache_inv cr \<Longrightarrow> cache_inv (snd (cache_Export srt cr)) \<and> same_rollup cr (snd (cache_Export srt cr))"
  by (simp add: cache_Export_def cache_inv_def same_rollup_def)

lemma cache_SetFilter_inv: "cache_inv cr \<Longrightarrow> cache_inv (cr\<lparr>cr_base := SetFilter fw (cr_base cr)\<rparr>)"
  by (simp add: cache_inv_def)

lemma cache_reach_inv:
  assumes "cache_reach ku start cr" "cache_inv start"
  shows "cache_inv cr \<and> cr_config cr = cr_config start \<and> cr_isUnique cr = cr_isUnique start"
  using assms
proof (induction rule: cache_reach.induct)
  case reach_start
  then show ?case by simp
next
  case (reach_add cr now later flows cr')
  with cache_Add_inv [OF _ reach_add.hyps(2)] show ?case by (auto simp: same_rollup_def)
next
  case (reach_export cr srt)
  with cache_Export_inv [of cr srt] show ?case by (auto simp: same_rollup_def)
next
  case (reach_filter cr fw)
  with cache_SetFilter_inv show ?case by simp
qed

text \<open>
  C33: in every state a cache rollup reaches, each entry is
  stored once, under its own key, which is not empty; with emergency cleanup and a positive key limit
  the cache never holds more keys than the limit; and the memory estimate of a rollup that does not
  count unique values is exactly the sum of the sizes of its entries.
\<close>

theorem cache_bounded_and_accounted:
  assumes "newCacheRollup rd joinKey cfg unique = Inr start" and "cache_reach ku start cr"
  shows "distinct (map fst (cr_cache cr)) \<and> list_all (\<lambda>(k, e). ce_Key e = k \<and> k \<noteq> []) (cr_cache cr) \<and>
    (cfg_EmergencyCleanup cfg \<and> 0 < sint (cfg_MaxKeys cfg) \<longrightarrow> int (length (cr_cache cr)) \<le> sint (cfg_MaxKeys cfg)) \<and>
    (unique \<or> cr_memoryUsage cr = (\<Sum>e\<leftarrow>map snd (cr_cache cr). estimateEntrySize False e))"
proof -
  from newCacheRollup_inv [OF assms(1)] cache_reach_inv [OF assms(2)] have
    inv: "cache_inv cr" "cr_config cr = cfg" "cr_isUnique cr = unique"
    by (auto simp: same_rollup_def)
  have "(\<Sum>k\<leftarrow>map fst (cr_cache cr). key_size k) = (\<Sum>e\<leftarrow>map snd (cr_cache cr). estimateEntrySize False e)"
    unfolding map_map o_def using inv(1)
    by (intro arg_cong [of _ _ sum_list] map_cong) (auto simp: cache_inv_def list_all_iff estimate_stat)
  with inv show ?thesis
    by (auto simp: cache_inv_def)
qed

section \<open>The entries of a cache without cleanup\<close>

definition flow_value :: "rollupBase \<Rightarrow> gmap \<Rightarrow> u64" where
  "flow_value r m = scaled r (rate_of m) (metric_value r m)"

definition entry_sums :: "rollupBase \<Rightarrow> gmap list \<Rightarrow> CacheEntry \<Rightarrow> bool" where
  "entry_sums r flows e \<longleftrightarrow>
     ce_Sum e = (\<Sum>f\<leftarrow>flows. flow_value r f) \<and> ce_Count e = of_nat (length flows) \<and>
     ce_Min e = Min (insert (- 1) (flow_value r ` set flows)) \<and> ce_Max e = Max (insert 0 (flow_value r ` set flows))"

definition of_key :: "bool \<Rightarrow> rollupBase \<Rightarrow> string \<Rightarrow> gmap list \<Rightarrow> gmap list" where
  "of_key ku r k flows = filter (\<lambda>f. getKey ku r f = k) flows"

lemma entry_sums_new: "entry_sums r [] (new_entry key prov now)"
  by (simp add: entry_sums_def new_entry_def)

lemma entry_sums_step:
  assumes "entry_sums r flows e" "addStatValues r m (e\<lparr>ce_LastUpdated := now, ce_Count := ce_Count e + 1\<rparr>) = Inr e'"
  shows "entry_sums r (flows @ [m]) e'"
proof -
  from assms(2) have "e' = e\<lparr>ce_LastUpdated := now, ce_Count := ce_Count e + 1, ce_Sum := ce_Sum e + flow_value r m,
      ce_Min := min (flow_value r m) (ce_Min e), ce_Max := max (flow_value r m) (ce_Max e)\<rparr>"
    by (auto simp: addStatValues_def go_simps Let_def flow_value_def min_def max_def dest!: assert_int64_rate)
  with assms(1) show ?thesis
    by (simp add: entry_sums_def insert_commute [of "- 1"] insert_commute [of 0])
qed

text \<open>The cache after a batch, when no cleanup is configured.\<close>

fun tracked :: "rollupBase \<Rightarrow> gmap list \<Rightarrow> CacheEntry option \<Rightarrow> bool" where
  "tracked r flows None \<longleftrightarrow> flows = []"
| "tracked r flows (Some e) \<longleftrightarrow> flows \<noteq> [] \<and> entry_sums r flows e"

definition cache_tracks :: "bool \<Rightarrow> rollupBase \<Rightarrow> gmap list \<Rightarrow> CacheRollup \<Rightarrow> bool" where
  "cache_tracks ku r flows cr \<longleftrightarrow>
     cr_base cr = r \<and> \<not> cr_isUnique cr \<and> \<not> cfg_EmergencyCleanup (cr_config cr) \<and>
     (\<forall>k. k \<noteq> [] \<longrightarrow> tracked r (of_key ku r k flows) (map_of (cr_cache cr) k))"

lemma of_key_snoc: "of_key ku r k (flows @ [m]) = of_key ku r k flows @ (if getKey ku r m = k then [m] else [])"
  by (simp add: of_key_def)

lemma of_key_Nil_iff: "of_key ku r k flows = [] \<longleftrightarrow> k \<notin> getKey ku r ` set flows"
  by (auto simp: of_key_def filter_empty_conv)

lemma cache_entry_quiet:
  assumes "cache_tracks ku r flows cr" "typed_flow m" "key \<noteq> []"
  shows "\<exists>e cr'. cache_entry now later m key cr = Inr (e, cr') \<and> entry_sums r (of_key ku r key flows) e \<and>
     cr_base cr' = r \<and> \<not> cr_isUnique cr' \<and> \<not> cfg_EmergencyCleanup (cr_config cr') \<and>
     map_of (cr_cache cr') = (map_of (cr_cache cr))(key \<mapsto> e)"
proof -
  from assms(1,3) have tr: "tracked r (of_key ku r key flows) (map_of (cr_cache cr) key)"
    and quiet: "cr_base cr = r" "\<not> cr_isUnique cr" "\<not> cfg_EmergencyCleanup (cr_config cr)"
    by (simp_all add: cache_tracks_def)
  show ?thesis
  proof (cases "map_of (cr_cache cr) key")
    case (Some e)
    with tr quiet show ?thesis
      by (simp add: cache_entry_def map_upd_triv)
  next
    case None
    from assms(2) obtain prov where "assert_provider m ''provider'' = Inr prov"
      by (auto simp: typed_flow_iff)
    with None tr quiet show ?thesis
      by (simp add: cache_entry_def shouldDoEmergencyCleanup_def Let_def entry_sums_new update_conv')
  qed
qed

lemma cache_tracks_step:
  assumes "cache_tracks ku r flows cr" "typed_flow m"
  shows "\<exists>cr'. cache_Add_flow ku now later (i, m) cr = Inr cr' \<and> cache_tracks ku r (flows @ [m]) cr'"
proof (cases "getKey ku r m = []")
  case True
  with assms(1) show ?thesis
    by (simp add: cache_Add_flow_def cache_tracks_def of_key_snoc Let_def)
next
  case False
  let ?k = "getKey ku r m"
  from cache_entry_quiet [OF assms False] obtain e cr1 where
    e: "cache_entry now (later i) m ?k cr = Inr (e, cr1)" "entry_sums r (of_key ku r ?k flows) e"
      "cr_base cr1 = r" "\<not> cr_isUnique cr1" "\<not> cfg_EmergencyCleanup (cr_config cr1)"
      "map_of (cr_cache cr1) = (map_of (cr_cache cr))(?k \<mapsto> e)" by blast
  let ?e = "e\<lparr>ce_LastUpdated := now, ce_Count := ce_Count e + 1\<rparr>"
  obtain e' where e': "addStatValues r m ?e = Inr e'"
    using assms(2) by (simp add: addStatValues_def typed_flow_iff Let_def)
  from entry_sums_step [OF e(2) e'] have sums: "entry_sums r (of_key ku r ?k (flows @ [m])) e'"
    by (simp add: of_key_def)
  have "cache_Add_flow ku now later (i, m) cr = Inr (update_entry ?k e' cr1)"
    using assms(1) e(1) e' False by (simp add: cache_Add_flow_def cache_tracks_def Let_def)
  moreover have "map_of (cr_cache (update_entry ?k e' cr1)) = (map_of (cr_cache cr))(?k \<mapsto> e')"
    using e(6) by (simp add: update_entry_def update_conv')
  then have "cache_tracks ku r (flows @ [m]) (update_entry ?k e' cr1)"
    using assms(1) e(3-5) sums update_entry_same [of cr1 ?k e']
    by (simp add: cache_tracks_def same_rollup_def of_key_snoc)
  ultimately show ?thesis by blast
qed

lemma cache_tracks_flows:
  assumes "cache_tracks ku r seen cr" "list_all typed_flow flows"
  shows "\<exists>cr'. go_foldM (cache_Add_flow ku now later) (indexed flows) cr = Inr cr' \<and> cache_tracks ku r (seen @ flows) cr'"
  using assms(2)
proof (induction flows rule: rev_induct)
  case Nil
  with assms(1) show ?case by (simp add: indexed_def)
next
  case (snoc m flows)
  then obtain cr1 where "go_foldM (cache_Add_flow ku now later) (indexed flows) cr = Inr cr1" "cache_tracks ku r (seen @ flows) cr1"
    by auto
  with cache_tracks_step [of ku r "seen @ flows" cr1 m now later "length flows"] snoc.prems show ?case
    by (auto simp: indexed_snoc go_foldM_append)
qed

text \<open>A batch with the clock readings of its \<open>Add\<close>.\<close>

fun cache_Add_batch :: "bool \<Rightarrow> int \<times> (nat \<Rightarrow> int) \<times> gmap list \<Rightarrow> CacheRollup \<Rightarrow> go_panic + CacheRollup" where
  "cache_Add_batch ku (now, later, flows) cr = cache_Add ku now later flows cr"

lemma cache_tracks_batches:
  assumes "cache_tracks ku r seen cr" "list_all2 (\<lambda>(now, later, flows) kept. filtered r flows = Inr kept) batches kepts"
    "list_all typed_flow (concat kepts)"
  shows "\<exists>cr'. go_foldM (cache_Add_batch ku) batches cr = Inr cr' \<and> cache_tracks ku r (seen @ concat kepts) cr'"
  using assms(2,1,3)
proof (induction arbitrary: seen cr rule: list_all2_induct)
  case Nil
  then show ?case by simp
next
  case (Cons b batches kept kepts)
  obtain now later flows where b: "b = (now, later, flows)" by (cases b)
  from Cons.prems obtain cr1 where "go_foldM (cache_Add_flow ku now later) (indexed kept) cr = Inr cr1"
      "cache_tracks ku r (seen @ kept) cr1"
    using cache_tracks_flows [of ku r seen cr kept now later] by auto
  moreover from this(1) have "cache_Add_batch ku b cr = Inr cr1"
    using Cons.hyps(1) Cons.prems(1) by (simp add: b cache_Add_def cache_tracks_def)
  ultimately show ?case
    using Cons.IH [of "seen @ kept" cr1] Cons.prems(2) by auto
qed

lemma sum_of_key: "(\<Sum>f\<leftarrow>of_key ku r k flows. g f :: u64) = (\<Sum>f\<leftarrow>flows. if getKey ku r f = k then g f else 0)"
  by (induction flows) (simp_all add: of_key_def)

text \<open>
  C34: without emergency cleanup and without split metrics, a
  new cache rollup accepts any sequence of batches, at whatever times, whose filtered flows together
  a \<open>sum\<close> rollup of the same definition accepts, and then holds for every key but the empty one
  exactly the sum that the \<open>sum\<close> rollup computes; its counts, minima and maxima are those of the
  flows with that key.
\<close>

theorem cache_agrees_with_sum:
  assumes "newCacheRollup rd joinKey cfg False = Inr cr" and "\<not> cfg_EmergencyCleanup cfg"
    and "\<not> rb_splitMetrics (cr_base cr)"
    and "list_all2 (\<lambda>(now, later, flows) kept. filtered (cr_base cr) flows = Inr kept) batches kepts"
    and "addSum ku (cr_base cr) (concat kepts) = Inr s" and "k \<noteq> []"
  shows "\<exists>cr'. go_foldM (cache_Add_batch ku) batches cr = Inr cr' \<and>
     map_option (\<lambda>e. [ce_Sum e]) (map_of (cr_cache cr') k) = map_option (take 1) (map_of (ss_sum s) k) \<and>
     pred_option (entry_sums (cr_base cr) (of_key ku (cr_base cr) k (concat kepts))) (map_of (cr_cache cr') k)"
proof -
  let ?r = "cr_base cr" and ?kept = "concat kepts"
  have start: "cache_tracks ku ?r [] cr"
    using newCacheRollup_inv [OF assms(1)] assms(2) by (simp add: cache_tracks_def of_key_def)
  have adds: "adds_up ku ?r ?kept s"
    using addSum_adds_up [OF assms(5)] .
  have "list_all typed_flow ?kept"
    using addSum_ok_iff [of ku ?r ?kept] assms(5) by (metis list.pred_inject(1))
  from cache_tracks_batches [OF start assms(4) this] obtain cr' where
    cr': "go_foldM (cache_Add_batch ku) batches cr = Inr cr'" "cache_tracks ku ?r ?kept cr'" by auto
  have amount: "amount ku ?r k 0 f = (if getKey ku ?r f = k then flow_value ?r f else 0)" for f
    using assms(3) by (simp add: amount_def flow_values_def elem_at_def flow_value_def)
  have dom: "map_of (ss_sum s) k = None \<longleftrightarrow> of_key ku ?r k ?kept = []"
    using adds by (simp add: adds_up_def of_key_Nil_iff map_of_eq_None_iff)
  have tr: "tracked ?r (of_key ku ?r k ?kept) (map_of (cr_cache cr') k)"
    using cr'(2) assms(6) by (simp add: cache_tracks_def)
  have "map_option (\<lambda>e. [ce_Sum e]) (map_of (cr_cache cr') k) = map_option (take 1) (map_of (ss_sum s) k)"
  proof (cases "map_of (ss_sum s) k")
    case None
    with dom tr show ?thesis
      by (cases "map_of (cr_cache cr') k") auto
  next
    case (Some xs)
    with dom tr obtain e where e: "map_of (cr_cache cr') k = Some e" "entry_sums ?r (of_key ku ?r k ?kept) e"
      by (cases "map_of (cr_cache cr') k") auto
    have "xs \<noteq> []"
    proof -
      have "?kept \<noteq> []"
        using dom Some by (metis filter.simps(1) of_key_def option.distinct(1))
      with addSum_ok_iff [of ku ?r ?kept] assms(3,5) have "rb_nameSet ?r \<noteq> []"
        by (auto simp: enough_names_def)
      moreover have "length xs = length (rb_nameSet ?r)"
        using Some adds wf_sums_lookup by (auto simp: adds_up_def)
      ultimately show ?thesis by auto
    qed
    moreover have "sum_at s k 0 = ce_Sum e"
      using e(2) adds_up_sum [OF adds, of k 0] by (simp add: entry_sums_def sum_of_key amount)
    ultimately show ?thesis
      using Some e(1) by (cases xs) (auto simp: sum_at_def elem_at_def)
  qed
  moreover have "pred_option (entry_sums ?r (of_key ku ?r k ?kept)) (map_of (cr_cache cr') k)"
    using tr by (cases "map_of (cr_cache cr') k") simp_all
  ultimately show ?thesis using cr'(1) by blast
qed

section \<open>A burst of new keys\<close>

definition all_updated_at :: "int \<Rightarrow> CacheRollup \<Rightarrow> bool" where
  "all_updated_at now cr \<longleftrightarrow> list_all (\<lambda>(k, e). ce_LastUpdated e = now) (cr_cache cr)"

lemma cleanup_all_same_age:
  assumes "all_updated_at t cr" "1 < length (cr_cache cr)"
  shows "\<exists>cr'. doEmergencyCleanup now cr = Inr cr' \<and> cr_cache cr' = []"
proof -
  let ?i = "max 1 (length (cr_cache cr) div 2)"
  have age: "entry_age now ke = now - t" if "ke \<in> set (cr_cache cr)" for ke
    using assms(1) that by (auto simp: all_updated_at_def entry_age_def list_all_iff)
  have "?i < length (ages_of now cr)"
    using assms(2) div_less_dividend [of 2 "length (cr_cache cr)"] by (auto simp: max_def)
  then have "cut_age now cr \<in> set (ages_of now cr)"
    unfolding cut_age_def by (rule nth_mem)
  then have "cut_age now cr = now - t"
    using age by (auto simp: ages_of_def)
  then show ?thesis
    using assms(2) age by (auto simp: cleanup_eq filter_empty_conv)
qed

text \<open>Only the key limit is configured.\<close>

definition limited :: "nat \<Rightarrow> cache_config \<Rightarrow> bool" where
  "limited n cfg \<longleftrightarrow> cfg_EmergencyCleanup cfg \<and> cfg_MaxMemoryMB cfg = 0 \<and> sint (cfg_MaxKeys cfg) = int n \<and> 0 < n"

lemma should_cleanup_limited:
  "limited n (cr_config cr) \<Longrightarrow> shouldDoEmergencyCleanup cr \<longleftrightarrow> n < length (cr_cache cr)"
  by (auto simp: limited_def shouldDoEmergencyCleanup_def Let_def)

lemma addStatValues_total:
  "typed_flow m \<Longrightarrow> \<exists>e'. addStatValues r m e = Inr e' \<and> ce_LastUpdated e' = ce_LastUpdated e"
  by (auto simp: addStatValues_def typed_flow_iff Let_def)

definition fills :: "bool \<Rightarrow> int \<Rightarrow> gmap list \<Rightarrow> CacheRollup \<Rightarrow> CacheRollup \<Rightarrow> bool" where
  "fills ku now flows cr cr' \<longleftrightarrow>
     same_rollup cr cr' \<and> map fst (cr_cache cr') = map (getKey ku (cr_base cr)) flows \<and> all_updated_at now cr'"

lemma fills_step:
  assumes "fills ku now flows cr cr1" "limited n (cr_config cr)" "\<not> cr_isUnique cr" "typed_flow m"
    and "getKey ku (cr_base cr) m \<notin> set (map (getKey ku (cr_base cr)) flows)" "getKey ku (cr_base cr) m \<noteq> []"
  shows "\<exists>cr'. cache_Add_flow ku now later (i, m) cr1 = Inr cr' \<and>
     (if length flows < n then fills ku now (flows @ [m]) cr cr' else cr_cache cr' = [])"
proof -
  let ?k = "getKey ku (cr_base cr) m"
  have same: "same_rollup cr cr1" and keys: "map fst (cr_cache cr1) = map (getKey ku (cr_base cr)) flows"
    and upd: "all_updated_at now cr1"
    using assms(1) by (simp_all add: fills_def)
  have len: "length (cr_cache cr1) = length flows"
    using keys by (metis length_map)
  have new: "?k \<notin> fst ` set (cr_cache cr1)"
    using assms(5) keys by (metis set_map)
  from assms(4) obtain prov where prov: "assert_provider m ''provider'' = Inr prov"
    by (auto simp: typed_flow_iff)
  let ?e = "new_entry ?k prov now"
  let ?cr2 = "cr1\<lparr>cr_cache := cr_cache cr1 @ [(?k, ?e)], cr_memoryUsage := cr_memoryUsage cr1 + key_size ?k\<rparr>"
  from addStatValues_total [OF assms(4), of "cr_base cr" "?e\<lparr>ce_LastUpdated := now, ce_Count := ce_Count ?e + 1\<rparr>"]
  obtain e' where e': "addStatValues (cr_base cr) m (?e\<lparr>ce_LastUpdated := now, ce_Count := ce_Count ?e + 1\<rparr>) = Inr e'"
      "ce_LastUpdated e' = now" by auto
  have none: "map_of (cr_cache cr1) ?k = None"
    using new by (simp add: map_of_eq_None_iff)
  have should: "shouldDoEmergencyCleanup ?cr2 \<longleftrightarrow> n < Suc (length flows)"
    using should_cleanup_limited [of n ?cr2] assms(2) same len by (simp add: same_rollup_def)
  have entry: "cache_entry now (later i) m ?k cr1 =
      go_bind (if n < Suc (length flows) then doEmergencyCleanup (later i) ?cr2 else Inr ?cr2) (\<lambda>cr2. Inr (?e, cr2))"
    unfolding cache_entry_def none prov using should
    by (simp add: Let_def update_new_key [OF new] estimate_new_entry)
  have upd2: "all_updated_at now ?cr2"
    using upd by (simp add: all_updated_at_def new_entry_def)
  show ?thesis
  proof (cases "length flows < n")
    case True
    then have "cache_entry now (later i) m ?k cr1 = Inr (?e, ?cr2)"
      by (simp add: entry)
    then have "cache_Add_flow ku now later (i, m) cr1 = Inr (update_entry ?k e' ?cr2)"
      using same assms(3,6) e'(1) by (simp add: cache_Add_flow_def same_rollup_def Let_def)
    moreover have "fills ku now (flows @ [m]) cr (update_entry ?k e' ?cr2)"
      using same keys new upd e'(2)
      by (auto simp: fills_def update_entry_def all_updated_at_def same_rollup_def map_of_eq_None_iff update_keys
          intro!: list_all_AList_update) (auto simp: new_entry_def)
    ultimately show ?thesis using True by simp
  next
    case False
    with assms(2) have "0 < length flows"
      unfolding limited_def by linarith
    then have "1 < length (cr_cache ?cr2)"
      using len by simp
    from cleanup_all_same_age [OF upd2 this] obtain cr3 where
      cr3: "doEmergencyCleanup (later i) ?cr2 = Inr cr3" "cr_cache cr3 = []" by blast
    then have "cache_entry now (later i) m ?k cr1 = Inr (?e, cr3)"
      using False by (simp add: entry)
    then have "cache_Add_flow ku now later (i, m) cr1 = Inr (update_entry ?k e' cr3)"
      using same assms(3,6) e'(1) by (simp add: cache_Add_flow_def same_rollup_def Let_def)
    with cr3(2) False show ?thesis by (simp add: update_entry_def)
  qed
qed

lemma fills_flows:
  assumes "cr_cache cr = []" "limited n (cr_config cr)" "\<not> cr_isUnique cr"
    and "list_all typed_flow flows" "length flows \<le> n"
    and "distinct (map (getKey ku (cr_base cr)) flows)" "[] \<notin> getKey ku (cr_base cr) ` set flows"
  shows "\<exists>cr'. go_foldM (cache_Add_flow ku now later) (indexed flows) cr = Inr cr' \<and> fills ku now flows cr cr'"
  using assms(4-)
proof (induction flows rule: rev_induct)
  case Nil
  with assms(1) show ?case by (simp add: indexed_def fills_def same_rollup_def all_updated_at_def)
next
  case (snoc m flows)
  then obtain cr1 where cr1: "go_foldM (cache_Add_flow ku now later) (indexed flows) cr = Inr cr1" "fills ku now flows cr cr1"
    by auto
  from snoc.prems have new: "typed_flow m" "getKey ku (cr_base cr) m \<notin> set (map (getKey ku (cr_base cr)) flows)"
      "getKey ku (cr_base cr) m \<noteq> []" and "length flows < n"
    by (auto simp: image_iff)
  with fills_step [OF cr1(2) assms(2,3) new, of later "length flows"] cr1(1) show ?case
    by (auto simp: indexed_snoc go_foldM_append)
qed

text \<open>
  C35: with a key limit of \<open>n\<close>, a first batch of \<open>n + 1\<close>
  flows with different keys leaves the cache empty: the last key sets off a cleanup in which every
  entry has the same age, so every entry is removed, the new one included, and its flow is counted in
  an entry that nothing refers to.
\<close>

theorem cache_burst_loses_everything:
  assumes "newCacheRollup rd joinKey cfg False = Inr cr" and "limited n cfg"
    and "list_all typed_flow flows" and "length flows = n + 1"
    and "distinct (map (getKey ku (cr_base cr)) flows)" and "[] \<notin> getKey ku (cr_base cr) ` set flows"
  shows "\<exists>cr'. cache_Add ku now later flows cr = Inr cr' \<and> cr_cache cr' = []"
proof -
  obtain front m where f: "flows = front @ [m]" "length front = n"
    using assms(4) by (metis Suc_eq_plus1 length_append_singleton length_Suc_conv_rev nat.inject)
  from newCacheRollup_inv [OF assms(1)] have cr: "cr_config cr = cfg" "\<not> cr_isUnique cr" "cr_cache cr = []"
    by auto
  have "\<not> rb_hasFilters (cr_base cr)"
    using assms(1) rollupBase_init_filters by (auto simp: newCacheRollup_def go_simps zero_rollupBase_def)
  then have fil: "filtered (cr_base cr) flows = Inr flows"
    by (simp add: filtered_def)
  from fills_flows [OF cr(3) _ cr(2), of n front ku now later] assms f obtain cr1 where
    cr1: "go_foldM (cache_Add_flow ku now later) (indexed front) cr = Inr cr1" "fills ku now front cr cr1"
    by (auto simp: cr(1))
  from fills_step [OF cr1(2) _ cr(2), of n m later "length front"] assms f cr(1) obtain cr' where
    "cache_Add_flow ku now later (length front, m) cr1 = Inr cr'" "cr_cache cr' = []"
    by (auto simp: image_iff)
  with cr1(1) fil show ?thesis
    by (simp add: cache_Add_def f(1) indexed_snoc go_foldM_append)
qed

section \<open>Examples\<close>

definition example_def :: RollupDef where
  "example_def = \<lparr>rd_Sample = False, rd_Method = ''cache'', rd_Metrics = [''in_bytes''], rd_Dimensions = [''foo''],
     rd_NameSet = [''s'']\<rparr>"

definition example_cache_config :: "bool \<Rightarrow> cache_config" where
  "example_cache_config cleanup = \<lparr>cfg_EmergencyCleanup = cleanup, cfg_MaxMemoryMB = 0, cfg_MaxKeys = 2, cfg_TopK = 10\<rparr>"

definition example_base :: rollupBase where
  "example_base = \<lparr>rb_metrics = [''in_bytes''], rb_multiMetrics = [], rb_multiDims = [[''foo'']],
     rb_splitDims = Map.empty, rb_keyJoin = ''^'', rb_topK = 10, rb_eventType = ''KFlow:in_bytes:foo'',
     rb_sample = False, rb_nameSet = [''s''], rb_filters = [], rb_hasFilters = False, rb_splitMetrics = False\<rparr>"

definition example_cache :: "bool \<Rightarrow> CacheRollup" where
  "example_cache cleanup = \<lparr>cr_base = example_base, cr_cache = [], cr_config = example_cache_config cleanup,
     cr_isUnique = False, cr_memoryUsage = 0\<rparr>"

lemma example_dimension: "init_dimension (0, ''foo'') r = Inr (r\<lparr>rb_multiDims := rb_multiDims r @ [[''foo'']]\<rparr>)"
proof -
  have "strings_Contains ''foo'' DimJoinToken = False" "strings_Split ''foo'' ''.'' = [''foo'']"
    by code_simp+
  then show ?thesis by (simp add: init_dimension_def)
qed

lemma example_metric: "init_metric ''in_bytes'' r = Inr (r\<lparr>rb_metrics := rb_metrics r @ [''in_bytes'']\<rparr>)"
proof -
  have "strings_Split ''in_bytes'' ''.'' = [''in_bytes'']" "strings_Split ''in_bytes'' '';'' = [''in_bytes'']"
    by code_simp+
  then show ?thesis by (simp add: init_metric_def)
qed

lemma example_cache_made: "newCacheRollup example_def ''^'' (example_cache_config cleanup) False = Inr (example_cache cleanup)"
proof -
  have "strings_ReplaceByte (''KFlow:'' @ strings_Join [''in_bytes''] ''_'' @ '':'' @ strings_Join [''foo''] '':'')
      CHR ''.'' CHR ''_'' = ''KFlow:in_bytes:foo''"
    by code_simp
  then show ?thesis
    by (simp add: newCacheRollup_def rollupBase_init_def example_def_def example_dimension example_metric
        example_cache_def example_base_def example_cache_config_def zero_rollupBase_def Let_def)
qed

lemma example_cache_key: "getKey False example_base (example_flow k v) = k"
  by (simp add: getKey_def key_part_def setKey_def example_base_def example_flow_def)

lemma example_cache_value: "flow_value example_base (example_flow k v) = v"
  by (simp add: flow_value_def scaled_def metric_value_def add_metric_def example_base_def example_flow_def)

theorem cache_burst_loses_everything_witness:
  "\<exists>cr'. cache_Add False 100 (\<lambda>i. 105) [example_flow ''a'' 1, example_flow ''b'' 2, example_flow ''c'' 3] (example_cache True) = Inr cr' \<and>
     cr_cache cr' = []"
  by (rule cache_burst_loses_everything [OF example_cache_made, where n = 2])
    (simp_all add: limited_def example_cache_config_def example_cache_key example_cache_def)

theorem cache_agrees_with_sum_witness:
  "\<exists>cr'. go_foldM (cache_Add_batch False)
       [(100, \<lambda>i. 105, [example_flow ''a'' 1, example_flow ''b'' 2]), (200, \<lambda>i. 205, [example_flow ''a'' 3])] (example_cache False) = Inr cr' \<and>
     map_option ce_Sum (map_of (cr_cache cr') ''a'') = Some 4"
proof -
  let ?one = "[example_flow ''a'' 1, example_flow ''b'' 2]" and ?two = "[example_flow ''a'' 3]"
  let ?flows = "concat [?one, ?two]"
  have base: "cr_base (example_cache False) = example_base" "\<not> rb_splitMetrics example_base" "\<not> rb_hasFilters example_base"
    by (simp_all add: example_cache_def example_base_def)
  have names: "enough_names example_base"
    by (simp add: enough_names_def example_base_def)
  obtain s where s: "addSum False example_base ?flows = Inr s"
    using addSum_ok_iff [of False example_base ?flows] names by auto
  have "sum_at s ''a'' 0 = 4" and some: "map_of (ss_sum s) ''a'' \<noteq> None"
    using adds_up_sum [OF addSum_adds_up [OF s], of "''a''" 0] addSum_adds_up [OF s]
    by (simp_all add: amount_def flow_values_def elem_at_def base flow_value_def [symmetric] example_cache_key
        example_cache_value adds_up_def map_of_eq_None_iff)
  have "list_all2 (\<lambda>(now, later, flows) kept. filtered (cr_base (example_cache False)) flows = Inr kept)
      [(100 :: int, \<lambda>i :: nat. 105 :: int, ?one), (200, \<lambda>i. 205, ?two)] [?one, ?two]"
    by (simp add: base filtered_def)
  from cache_agrees_with_sum [OF example_cache_made _ _ this s [folded base(1)], of "''a''"] \<open>sum_at s ''a'' 0 = 4\<close> some
  show ?thesis
    by (auto simp: base example_cache_config_def sum_at_def elem_at_def take_Suc_conv_app_nth split: if_splits)
qed

theorem cache_bounded_and_accounted_witness:
  "\<exists>cr. cache_reach False (example_cache True) cr \<and> map fst (cr_cache cr) = [''a'', ''b''] \<and> cr_memoryUsage cr = 302"
proof -
  let ?flows = "[example_flow ''a'' 1, example_flow ''b'' 2]"
  have base: "cr_base (example_cache True) = example_base" "\<not> rb_hasFilters example_base"
    by (simp_all add: example_cache_def example_base_def)
  from fills_flows [of "example_cache True" 2 ?flows False 100 "\<lambda>i. 105"] obtain cr where
    cr: "go_foldM (cache_Add_flow False 100 (\<lambda>i. 105)) (indexed ?flows) (example_cache True) = Inr cr"
      "map fst (cr_cache cr) = [''a'', ''b'']"
    by (auto simp: example_cache_def limited_def example_cache_config_def example_cache_key fills_def)
  have "cache_Add False 100 (\<lambda>i. 105) ?flows (example_cache True) = Inr cr"
    using cr(1) by (simp add: cache_Add_def filtered_def base)
  from reach_add [OF reach_start this] have reach: "cache_reach False (example_cache True) cr" .
  from cr(2) obtain ea eb where e: "cr_cache cr = [(''a'', ea), (''b'', eb)]"
    by (auto simp: map_eq_Cons_conv)
  from cache_bounded_and_accounted [OF example_cache_made reach] reach cr(2) show ?thesis
    by (auto simp: e estimate_stat key_size_def CACHE_ENTRY_OVERHEAD_def)
qed

end
