(* ===== verification/Rollup_Unique.thy ===== *)
theory Rollup_Unique
  imports Rollup_Cache
begin

text \<open>
  The \<open>unique\<close> rollups of \<open>pkg/rollup/unique.go\<close>.  The cardinality sketch (package \<open>go-hll\<close>) and the
  hash (package \<open>siphash\<close>) are not part of the repository: they are arguments of the model, a record
  of the operations that the code calls and a function from bytes.  The hypothesis on the sketch is
  its documented behaviour: it depends only on the set of hashes added, and merging adds the sets.
\<close>

section \<open>The sketch\<close>

record 'h hll =
  hll_make :: 'h
  hll_Add :: "'h \<Rightarrow> u64 \<Rightarrow> 'h"
  hll_Merge :: "'h \<Rightarrow> 'h \<Rightarrow> 'h"
  hll_EstimateCardinality :: "'h \<Rightarrow> u64"

definition hll_laws :: "'h hll \<Rightarrow> (u64 set \<Rightarrow> 'h) \<Rightarrow> bool" where
  "hll_laws ops sketch \<longleftrightarrow>
     hll_make ops = sketch {} \<and>
     (\<forall>S x. hll_Add ops (sketch S) x = sketch (insert x S)) \<and>
     (\<forall>S T. hll_Merge ops (sketch S) (sketch T) = sketch (S \<union> T))"

section \<open>Varints\<close>

text \<open>\<open>binary.PutUvarint\<close> and \<open>binary.PutVarint\<close>: seven bits a byte, the sign in the lowest bit.\<close>

function put_uvarint :: "u64 \<Rightarrow> u8 list" where
  "put_uvarint x = (if x < 128 then [ucast x] else (ucast x OR 128) # put_uvarint (drop_bit 7 x))"
  by auto
termination
proof (relation "measure unat")
  fix x :: u64
  assume "\<not> x < 128"
  then have "128 \<le> unat x"
    by (simp add: not_less word_le_nat_alt)
  moreover have "unat (drop_bit 7 x) = unat x div 128"
    by (simp add: drop_bit_eq_div unat_div)
  ultimately show "(drop_bit 7 x, x) \<in> measure unat"
    by simp
qed simp

declare put_uvarint.simps [simp del]

definition put_varint :: "i64 \<Rightarrow> u8 list" where
  "put_varint x = (let ux = push_bit 1 x in put_uvarint (if sint x < 0 then NOT ux else ux))"

definition string_bytes :: "string \<Rightarrow> u8 list" where
  "string_bytes s = map of_char s"

section \<open>One batch\<close>

record 'h uset =
  us_uniques :: "(string \<times> 'h) list"
  us_count :: "(string \<times> u64) list"
  us_prov :: "(string \<times> string) list"

definition new_uset :: "'h uset" where
  "new_uset = \<lparr>us_uniques = [], us_count = [], us_prov = []\<rparr>"

text \<open>The values that a flow adds, in the order of the code, before they are hashed.\<close>

definition unique_value :: "gmap \<Rightarrow> string \<Rightarrow> u8 list list" where
  "unique_value mapr metric =
     (case mapr metric of
        Some (VString m) \<Rightarrow> [string_bytes m]
      | Some (VInt64 m) \<Rightarrow> [put_varint m]
      | _ \<Rightarrow> [])"

definition unique_multi_value :: "gmap \<Rightarrow> string list \<Rightarrow> u8 list list" where
  "unique_multi_value mapr m =
     (case mapr (m ! 0) of
        Some (VStrMap mm) \<Rightarrow> [string_bytes (case mm (m ! 1) of Some v \<Rightarrow> v | None \<Rightarrow> [])]
      | Some (VInt32Map mm) \<Rightarrow> [put_varint (case mm (m ! 1) of Some v \<Rightarrow> scast v | None \<Rightarrow> 0)]
      | Some (VInt64Map mm) \<Rightarrow> [put_varint (case mm (m ! 1) of Some v \<Rightarrow> v | None \<Rightarrow> 0)]
      | _ \<Rightarrow> [])"

definition unique_values :: "rollupBase \<Rightarrow> gmap \<Rightarrow> u8 list list" where
  "unique_values r mapr =
     concat (map (unique_value mapr) (rb_metrics r)) @ concat (map (unique_multi_value mapr) (rb_multiMetrics r))"

definition count_of :: "(string \<times> u64) list \<Rightarrow> string \<Rightarrow> u64" where
  "count_of counts key = (case map_of counts key of Some c \<Rightarrow> c | None \<Rightarrow> 0)"

definition unique_flow :: "'h hll \<Rightarrow> (u8 list \<Rightarrow> u64) \<Rightarrow> bool \<Rightarrow> rollupBase \<Rightarrow> gmap \<Rightarrow> 'h uset \<Rightarrow> go_panic + 'h uset" where
  "unique_flow ops hash ku r mapr us =
     (let key = getKey ku r mapr in
      go_bind (assert_provider mapr ''provider'') (\<lambda>prov.
      let h0 = (case map_of (us_uniques us) key of Some h \<Rightarrow> h | None \<Rightarrow> hll_make ops);
          h = fold (\<lambda>v h. hll_Add ops h (hash v)) (unique_values r mapr) h0 in
      Inr \<lparr>us_uniques = AList.update key h (us_uniques us),
           us_count = AList.update key (count_of (us_count us) key + 1) (us_count us),
           us_prov = AList.update key prov (us_prov us)\<rparr>))"

definition unique_Add :: "'h hll \<Rightarrow> (u8 list \<Rightarrow> u64) \<Rightarrow> bool \<Rightarrow> rollupBase \<Rightarrow> gmap list \<Rightarrow> go_panic + 'h uset" where
  "unique_Add ops hash ku r flows =
     go_bind (filtered r flows) (\<lambda>kept. go_foldM (unique_flow ops hash ku r) kept new_uset)"

section \<open>The goroutine\<close>

definition merge_unique :: "'h hll \<Rightarrow> string \<times> 'h \<Rightarrow> (string \<times> 'h) list \<Rightarrow> (string \<times> 'h) list" where
  "merge_unique ops = (\<lambda>(k, v) uniques.
     AList.update k (case map_of uniques k of Some h \<Rightarrow> hll_Merge ops h v | None \<Rightarrow> v) uniques)"

definition merge_count :: "string \<times> u64 \<Rightarrow> (string \<times> u64) list \<Rightarrow> (string \<times> u64) list" where
  "merge_count = (\<lambda>(k, v) counts. AList.update k (count_of counts k + v) counts)"

definition uniqueKvs_item :: "'h hll \<Rightarrow> 'h uset \<Rightarrow> 'h uset \<Rightarrow> 'h uset" where
  "uniqueKvs_item ops itm us =
     \<lparr>us_uniques = fold (merge_unique ops) (us_uniques itm) (us_uniques us),
      us_count = fold merge_count (us_count itm) (us_count us),
      us_prov = fold (\<lambda>(k, v). AList.update k v) (us_prov itm) (us_prov us)\<rparr>"

text \<open>An export sends the rows of the state and starts again from the empty state.\<close>

definition unique_row :: "'h hll \<Rightarrow> rollupBase \<Rightarrow> 'h uset \<Rightarrow> string \<times> 'h \<Rightarrow> rollup_row" where
  "unique_row ops r us = (\<lambda>(k, v).
     \<lparr>rr_Dimension = k, rr_Metric = of_int (f64_of_u64 (hll_EstimateCardinality ops v)),
      rr_EventType = rb_eventType r, rr_KeyJoin = rb_keyJoin r, rr_dims = combo (rb_multiDims r),
      rr_Name = strings_Join (rb_nameSet r) '';'', rr_Count = count_of (us_count us) k, rr_Min = 0, rr_Max = 0,
      rr_Provider = (case map_of (us_prov us) k of Some p \<Rightarrow> p | None \<Rightarrow> [])\<rparr>)"

definition exportUnique :: "(rollup_row list \<Rightarrow> rollup_row list) \<Rightarrow> 'h hll \<Rightarrow> i64 \<Rightarrow> rollupBase \<Rightarrow> 'h uset \<Rightarrow> rollup_row list" where
  "exportUnique srt ops topK r us =
     (if us_uniques us = [] then [] else top_rows srt topK (map (unique_row ops r us) (us_uniques us)))"

section \<open>What the sketches hold\<close>

definition hashes :: "(u8 list \<Rightarrow> u64) \<Rightarrow> rollupBase \<Rightarrow> gmap list \<Rightarrow> u64 set" where
  "hashes hash r flows = hash ` (\<Union>f \<in> set flows. set (unique_values r f))"

text \<open>For each key: a sketch of the hashes of its flows, their number and the last provider.\<close>

definition uniques_up :: "'h hll \<Rightarrow> (u64 set \<Rightarrow> 'h) \<Rightarrow> (u8 list \<Rightarrow> u64) \<Rightarrow> bool \<Rightarrow> rollupBase \<Rightarrow> gmap list \<Rightarrow> 'h uset \<Rightarrow> bool" where
  "uniques_up ops sketch hash ku r flows us \<longleftrightarrow>
     distinct (map fst (us_uniques us)) \<and> distinct (map fst (us_count us)) \<and>
     (\<forall>k. let fs = of_key ku r k flows in
        map_of (us_uniques us) k = (if fs = [] then None else Some (sketch (hashes hash r fs))) \<and>
        map_of (us_count us) k = (if fs = [] then None else Some (of_nat (length fs))))"

lemma fold_hll_Add:
  "hll_laws ops sketch \<Longrightarrow> fold (\<lambda>v h. hll_Add ops h (hash v)) vs (sketch S) = sketch (S \<union> hash ` set vs)"
  by (induction vs arbitrary: S) (auto simp: hll_laws_def)

lemma hashes_Nil [simp]: "hashes hash r [] = {}"
  by (simp add: hashes_def)

lemma hashes_snoc: "hashes hash r (fs @ [f]) = hashes hash r fs \<union> hash ` set (unique_values r f)"
  by (auto simp: hashes_def)

lemma hashes_append: "hashes hash r (fs @ gs) = hashes hash r fs \<union> hashes hash r gs"
  by (auto simp: hashes_def)

lemma uniques_up_new: "uniques_up ops sketch hash ku r [] new_uset"
  by (simp add: uniques_up_def new_uset_def of_key_def)

lemma uniques_up_step:
  assumes "hll_laws ops sketch" "uniques_up ops sketch hash ku r flows us" "unique_flow ops hash ku r m us = Inr us'"
  shows "uniques_up ops sketch hash ku r (flows @ [m]) us'"
proof -
  let ?k = "getKey ku r m" and ?fs = "of_key ku r (getKey ku r m) flows"
  have at: "map_of (us_uniques us) ?k = (if ?fs = [] then None else Some (sketch (hashes hash r ?fs)))"
      "map_of (us_count us) ?k = (if ?fs = [] then None else Some (of_nat (length ?fs)))"
    using assms(2) by (simp_all add: uniques_up_def Let_def)
  have "(case map_of (us_uniques us) ?k of Some h \<Rightarrow> h | None \<Rightarrow> hll_make ops) = sketch (hashes hash r ?fs)"
    using assms(1) by (simp add: at(1) hll_laws_def hashes_def)
  with assms(1) have h: "fold (\<lambda>v h. hll_Add ops h (hash v)) (unique_values r m)
      (case map_of (us_uniques us) ?k of Some h \<Rightarrow> h | None \<Rightarrow> hll_make ops) = sketch (hashes hash r (?fs @ [m]))"
    by (simp add: fold_hll_Add hashes_snoc)
  have c: "count_of (us_count us) ?k + 1 = of_nat (length (?fs @ [m]))"
    by (simp add: count_of_def at(2))
  from assms(3) obtain prov where us': "us' = \<lparr>us_uniques = AList.update ?k (sketch (hashes hash r (?fs @ [m]))) (us_uniques us),
      us_count = AList.update ?k (of_nat (length (?fs @ [m]))) (us_count us), us_prov = AList.update ?k prov (us_prov us)\<rparr>"
    by (auto simp: unique_flow_def Let_def go_simps h c)
  show ?thesis
    using assms(2) by (auto simp: uniques_up_def us' of_key_snoc update_conv distinct_update Let_def)
qed

lemma unique_Add_uniques_up:
  assumes "hll_laws ops sketch" "unique_Add ops hash ku r flows = Inr us" "filtered r flows = Inr kept"
  shows "uniques_up ops sketch hash ku r kept us"
proof -
  have "go_foldM (unique_flow ops hash ku r) fs new_uset = Inr us \<Longrightarrow> uniques_up ops sketch hash ku r fs us" for fs us
    by (induction fs arbitrary: us rule: rev_induct)
      (auto simp: uniques_up_new go_foldM_append go_simps intro: uniques_up_step [OF assms(1)])
  with assms(2,3) show ?thesis by (simp add: unique_Add_def)
qed

text \<open>Merging association lists key by key.\<close>

lemma fold_merge:
  assumes "\<And>k v m. map_of (step (k, v) m) = (map_of m)(k \<mapsto> g (map_of m k) v)" "distinct (map fst kvs)"
  shows "map_of (fold step kvs m) k = (case map_of kvs k of None \<Rightarrow> map_of m k | Some v \<Rightarrow> Some (g (map_of m k) v))"
  using assms(2)
proof (induction kvs arbitrary: m)
  case Nil
  then show ?case by simp
next
  case (Cons kv kvs)
  obtain k' v where kv: "kv = (k', v)" by force
  with Cons.prems have "map_of kvs k' = None" by (simp add: map_of_eq_None_iff)
  with Cons show ?case
    by (auto simp: kv assms(1) split: option.split)
qed

lemma fold_distinct:
  assumes "\<And>kv m. distinct (map fst m) \<Longrightarrow> distinct (map fst (step kv m))" "distinct (map fst m)"
  shows "distinct (map fst (fold step kvs m))"
  using assms by (induction kvs arbitrary: m) auto

lemma uniqueKvs_item_up:
  assumes "hll_laws ops sketch" "uniques_up ops sketch hash ku r flows us" "uniques_up ops sketch hash ku r flows' itm"
  shows "uniques_up ops sketch hash ku r (flows @ flows') (uniqueKvs_item ops itm us)"
proof -
  have merge: "hll_Merge ops (sketch S) (sketch T) = sketch (S \<union> T)" for S T
    using assms(1) by (simp add: hll_laws_def)
  have d: "distinct (map fst (us_uniques itm))" "distinct (map fst (us_count itm))"
      "distinct (map fst (us_uniques us))" "distinct (map fst (us_count us))"
    using assms(2,3) by (simp_all add: uniques_up_def)
  have u: "map_of (fold (merge_unique ops) (us_uniques itm) (us_uniques us)) k =
      (case map_of (us_uniques itm) k of None \<Rightarrow> map_of (us_uniques us) k
       | Some v \<Rightarrow> Some (case map_of (us_uniques us) k of Some h \<Rightarrow> hll_Merge ops h v | None \<Rightarrow> v))" for k
    by (rule fold_merge [OF _ d(1)]) (simp add: merge_unique_def update_conv')
  have c: "map_of (fold merge_count (us_count itm) (us_count us)) k =
      (case map_of (us_count itm) k of None \<Rightarrow> map_of (us_count us) k
       | Some v \<Rightarrow> Some ((case map_of (us_count us) k of Some c \<Rightarrow> c | None \<Rightarrow> 0) + v))" for k
    by (rule fold_merge [OF _ d(2)]) (simp add: merge_count_def update_conv' count_of_def)
  have d': "distinct (map fst (fold (merge_unique ops) (us_uniques itm) (us_uniques us)))"
      "distinct (map fst (fold merge_count (us_count itm) (us_count us)))"
    by (rule fold_distinct; (rule d)?; auto simp: merge_unique_def merge_count_def distinct_update)+
  have app: "of_key ku r k (flows @ flows') = of_key ku r k flows @ of_key ku r k flows'" for k
    by (simp add: of_key_def)
  have "map_of (us_uniques us) k = (if of_key ku r k flows = [] then None else Some (sketch (hashes hash r (of_key ku r k flows))))"
      "map_of (us_count us) k = (if of_key ku r k flows = [] then None else Some (of_nat (length (of_key ku r k flows))))"
      "map_of (us_uniques itm) k = (if of_key ku r k flows' = [] then None else Some (sketch (hashes hash r (of_key ku r k flows'))))"
      "map_of (us_count itm) k = (if of_key ku r k flows' = [] then None else Some (of_nat (length (of_key ku r k flows'))))" for k
    using assms(2,3) by (simp_all add: uniques_up_def Let_def)
  then show ?thesis
    using d' by (simp add: uniques_up_def uniqueKvs_item_def u c app merge hashes_append Let_def)
qed

text \<open>
  C36: whatever the sketch, if it depends only on the set of
  hashes added, then after receiving the batches of a stream of flows the goroutine holds, for each
  key, a sketch of exactly the values of the flows with that key and their number: batching and the
  order of the batches change neither the estimates nor the counts.
\<close>

theorem unique_batching_irrelevant:
  assumes "hll_laws ops sketch" and "\<not> rb_hasFilters r"
    and "go_mapM (unique_Add ops hash ku r) batches = Inr items"
  shows "uniques_up ops sketch hash ku r (concat batches) (fold (uniqueKvs_item ops) items new_uset)"
proof -
  have "uniques_up ops sketch hash ku r (flows @ concat batches) (fold (uniqueKvs_item ops) items us)"
    if "uniques_up ops sketch hash ku r flows us" for flows us
    using assms(3) that
  proof (induction batches arbitrary: items flows us)
    case Nil
    then show ?case by simp
  next
    case (Cons b batches)
    from Cons.prems(1) obtain itm items' where i: "items = itm # items'" "unique_Add ops hash ku r b = Inr itm"
        "go_mapM (unique_Add ops hash ku r) batches = Inr items'"
      by (auto simp: go_simps)
    have "uniques_up ops sketch hash ku r b itm"
      using unique_Add_uniques_up [OF assms(1) i(2)] assms(2) by (simp add: filtered_def)
    from Cons.IH [OF i(3) uniqueKvs_item_up [OF assms(1) Cons.prems(2) this]] show ?case
      by (simp add: i(1))
  qed
  from this [OF uniques_up_new] show ?thesis by simp
qed

text \<open>An exact sketch: the set itself.\<close>

definition exact_hll :: "(u64 set) hll" where
  "exact_hll = \<lparr>hll_make = {}, hll_Add = (\<lambda>S x. insert x S), hll_Merge = (\<union>), hll_EstimateCardinality = (\<lambda>S. of_nat (card S))\<rparr>"

theorem unique_batching_irrelevant_witness:
  "\<exists>items. go_mapM (unique_Add exact_hll (\<lambda>bs. of_nat (length bs)) False example_rollup)
       [[example_flow ''a'' 1], [example_flow ''b'' 2, example_flow ''a'' 300]] = Inr items \<and>
     uniques_up exact_hll (\<lambda>S. S) (\<lambda>bs. of_nat (length bs)) False example_rollup
       [example_flow ''a'' 1, example_flow ''b'' 2, example_flow ''a'' 300] (fold (uniqueKvs_item exact_hll) items new_uset)"
proof -
  have laws: "hll_laws exact_hll (\<lambda>S. S)"
    by (simp add: hll_laws_def exact_hll_def)
  have nofil: "\<not> rb_hasFilters example_rollup"
    by (simp add: example_rollup_def zero_rollupBase_def)
  have prov: "assert_provider (example_flow k v) ''provider'' = Inr ''pp''" for k v
    by (simp add: assert_provider_def example_flow_def)
  obtain items where items: "go_mapM (unique_Add exact_hll (\<lambda>bs. of_nat (length bs)) False example_rollup)
       [[example_flow ''a'' 1], [example_flow ''b'' 2, example_flow ''a'' 300]] = Inr items"
    by (simp add: unique_Add_def unique_flow_def filtered_def nofil prov Let_def)
  from unique_batching_irrelevant [OF laws nofil items] items show ?thesis by auto
qed

end
