(* ===== verification/Rollups.thy ===== *)
theory Rollups
  imports Rollup_Unique
begin

text \<open>
  The rollups that a configuration asks for (\<open>GetRollups\<close> in \<open>pkg/rollup/rollup.go\<close>), and the
  types of the map that the pipeline hands to them.
\<close>

section \<open>The configured rollups\<close>

record RollupConfig =
  rc_Formats :: "string list"
  rc_JoinKey :: string
  rc_cache :: cache_config

datatype roller =
    RollStats stat_method rollupBase
  | RollUnique rollupBase
  | RollCache CacheRollup

definition named_base :: "RollupConfig \<Rightarrow> rollupBase" where
  "named_base cfg = zero_rollupBase\<lparr>rb_keyJoin := rc_JoinKey cfg, rb_topK := cfg_TopK (rc_cache cfg)\<rparr>"

definition newStatsRollup :: "RollupDef \<Rightarrow> RollupConfig \<Rightarrow> rollup_error + roller" where
  "newStatsRollup rd cfg =
     go_bind (stat_method_of (rd_Method rd)) (\<lambda>m.
     go_bind (rollupBase_init rd (named_base cfg)) (\<lambda>r. Inr (RollStats m r)))"

definition newUniqueRollup :: "RollupDef \<Rightarrow> RollupConfig \<Rightarrow> rollup_error + roller" where
  "newUniqueRollup rd cfg = go_bind (rollupBase_init rd (named_base cfg)) (\<lambda>r. Inr (RollUnique r))"

definition new_rollup :: "RollupConfig \<Rightarrow> RollupDef \<Rightarrow> rollup_error + roller" where
  "new_rollup cfg rd =
     (if rd_Method rd = ''unique'' then newUniqueRollup rd cfg
      else if rd_Method rd = ''cache'' then
        map_sum id RollCache (newCacheRollup rd (rc_JoinKey cfg) (rc_cache cfg) False)
      else if rd_Method rd = ''cache_unique'' then
        map_sum id RollCache (newCacheRollup rd (rc_JoinKey cfg) (rc_cache cfg) True)
      else newStatsRollup rd cfg)"

definition GetRollups :: "RollupConfig \<Rightarrow> rollup_error + roller list" where
  "GetRollups cfg = go_bind (go_mapM RollupDefs_Set (rc_Formats cfg)) (go_mapM (new_rollup cfg))"

fun roller_base :: "roller \<Rightarrow> rollupBase" where
  "roller_base (RollStats _ r) = r"
| "roller_base (RollUnique r) = r"
| "roller_base (RollCache cr) = cr_base cr"

fun roller_SetFilter :: "FilterWrapper \<Rightarrow> roller \<Rightarrow> roller" where
  "roller_SetFilter fw (RollStats m r) = RollStats m (SetFilter fw r)"
| "roller_SetFilter fw (RollUnique r) = RollUnique (SetFilter fw r)"
| "roller_SetFilter fw (RollCache cr) = RollCache (cr\<lparr>cr_base := SetFilter fw (cr_base cr)\<rparr>)"

definition roller_GetName :: "roller \<Rightarrow> string" where
  "roller_GetName x = rollup_GetName (roller_base x)"

section \<open>Keys with as many parts as dimensions\<close>

text \<open>Every rollup that is made has one key part for each dimension of its flag.\<close>

lemma init_dimension_shape:
  "init_dimension d r = Inr r' \<Longrightarrow> length (rb_multiDims r') = Suc (length (rb_multiDims r)) \<and> rb_nameSet r' = rb_nameSet r"
  by (cases d) (auto simp: init_dimension_def Let_def split: if_splits list.splits)

lemma init_dimensions_shape:
  "go_foldM init_dimension ds r = Inr r' \<Longrightarrow>
     length (rb_multiDims r') = length (rb_multiDims r) + length ds \<and> rb_nameSet r' = rb_nameSet r"
  by (induction ds arbitrary: r) (auto simp: go_simps dest!: init_dimension_shape)

lemma init_metric_dims: "init_metric m r = Inr r' \<Longrightarrow> rb_multiDims r' = rb_multiDims r \<and> rb_nameSet r' = rb_nameSet r"
  by (auto simp: init_metric_def Let_def split: if_splits)

lemma init_metrics_dims:
  "go_foldM init_metric ms r = Inr r' \<Longrightarrow> rb_multiDims r' = rb_multiDims r \<and> rb_nameSet r' = rb_nameSet r"
  by (induction ms arbitrary: r) (auto simp: go_simps dest!: init_metric_dims)

lemma rollupBase_init_shape:
  "rollupBase_init rd r0 = Inr r \<Longrightarrow> length (rb_multiDims r) = length (rd_Dimensions rd) \<and> rb_nameSet r = rd_NameSet rd"
  by (auto simp: rollupBase_init_def Let_def go_simps
      dest!: init_metrics_dims init_dimensions_shape)

section \<open>Flows are typed\<close>

text \<open>The map view of a flow has the types that the rollups assert.\<close>

lemma ToMap_typed_flow:
  assumes "JCHF_ToMap j = Inr (m, j')" "\<not> hasSetAvro j"
  shows "typed_flow m"
proof -
  from assms obtain m0 where "m = m0 ++ map_of (JCHF_columns j)"
    by (auto simp: JCHF_ToMap_def Let_def split: option.splits)
  moreover have "map_of (JCHF_columns j) ''sample_rate'' = Some (VInt64 (ucast (SampleRate j)))"
    and "map_of (JCHF_columns j) ''provider'' = Some (VProvider (Provider j))"
    by (simp_all add: JCHF_columns_def)
  ultimately show ?thesis
    by (simp add: typed_flow_def map_add_Some_iff)
qed

text \<open>
  The map of a flow always has a 64-bit sample rate and a
  provider, so a \<open>sum\<close> rollup that parsed from a flag and has no more split metrics than names
  accepts every batch of flows without panicking.
\<close>

theorem flow_maps_never_panic_a_sum:
  assumes "RollupDefs_Set flag = Inr rd" and "newStatsRollup rd cfg = Inr (RollStats m r)"
    and "rb_splitMetrics r \<longrightarrow> length (rb_metrics r) \<le> length (rb_nameSet r)"
    and "list_all2 (\<lambda>j mapr. \<not> hasSetAvro j \<and> (\<exists>j'. JCHF_ToMap j = Inr (mapr, j'))) flows maps"
  shows "\<exists>s. addSum ku r maps = Inr s"
proof -
  have "rd_NameSet rd \<noteq> []"
    using assms(1) by (auto simp: RollupDefs_Set_def Let_def strings_Split_nonempty split: if_splits)
  moreover have "rb_nameSet r = rd_NameSet rd"
    using assms(2) rollupBase_init_shape by (auto simp: newStatsRollup_def go_simps)
  ultimately have "enough_names r"
    using assms(3) by (cases "rd_NameSet rd") (auto simp: enough_names_def)
  moreover have "list_all typed_flow maps"
    using assms(4) by (induction rule: list_all2_induct) (auto intro: ToMap_typed_flow)
  ultimately show ?thesis by (simp add: addSum_ok_iff)
qed

definition example_flag :: string where
  "example_flag = ''sum,sum_bytes_in,in_bytes,src_addr''"

theorem flow_maps_never_panic_a_sum_witness:
  "\<exists>rd m r s. RollupDefs_Set example_flag = Inr rd \<and>
     newStatsRollup rd \<lparr>rc_Formats = [example_flag], rc_JoinKey = ''^'', rc_cache = example_cache_config False\<rparr> = Inr (RollStats m r) \<and>
     addSum False r [map_of (JCHF_columns NewJCHF)] = Inr s"
proof -
  let ?cfg = "\<lparr>rc_Formats = [example_flag], rc_JoinKey = ''^'', rc_cache = example_cache_config False\<rparr>"
  let ?rd = "\<lparr>rd_Sample = False, rd_Method = ''sum'', rd_Metrics = [''in_bytes''], rd_Dimensions = [''src_addr''],
     rd_NameSet = [''sum_bytes_in'']\<rparr>"
  have flag: "RollupDefs_Set example_flag = Inr ?rd"
    by code_simp
  have parts: "strings_Contains ''src_addr'' DimJoinToken = False" "strings_Split ''src_addr'' ''.'' = [''src_addr'']"
    by code_simp+
  then have dim: "init_dimension (0, ''src_addr'') r = Inr (r\<lparr>rb_multiDims := rb_multiDims r @ [[''src_addr'']]\<rparr>)" for r
    by (simp add: init_dimension_def)
  obtain r where r: "newStatsRollup ?rd ?cfg = Inr (RollStats StatSum r)" "\<not> rb_splitMetrics r"
    by (simp add: newStatsRollup_def stat_method_of_def rollupBase_init_def dim example_metric named_base_def
        zero_rollupBase_def Let_def)
  have maps: "list_all2 (\<lambda>j mapr. \<not> hasSetAvro j \<and> (\<exists>j'. JCHF_ToMap j = Inr (mapr, j'))) [NewJCHF] [map_of (JCHF_columns NewJCHF)]"
    by (simp add: JCHF_ToMap_def NewJCHF_def zero_JCHF_def Let_def)
  from flow_maps_never_panic_a_sum [OF flag r(1) _ maps, of False] flag r show ?thesis by blast
qed

end
