(* ===== verification/Cat_Pipeline.thy ===== *)
theory Cat_Pipeline
  imports Flow_Pool Cat_Batches Rollups
begin

text \<open>
  The pipeline of \<open>pkg/cat/kkc.go\<close> and \<open>pkg/cat/kentik.go\<close>: the wiring of the filters, \<open>handleInput\<close>
  for the messages of the inputs, and for Kentik flows the requests of \<open>handleFlow\<close>, the batches of
  \<open>sendBytesOn\<close> and the goroutine \<open>monitorAlphaChan\<close> with its queue and its pool of records.
  \<open>doEnrichments\<close>, the shuffle of \<open>math/rand\<close>, the order in which Go ranges over a map and the
  encoder are arguments.
\<close>

section \<open>Configuration\<close>

definition kkc_CHAN_SLACK :: nat where
  "kkc_CHAN_SLACK = 8000"

record KTranslate =
  kc_MaxFlowsPerMessage :: i64
  kc_RollupAndAlpha :: bool
  kc_SampleRate :: i64
  kc_SampleMin :: i64
  kc_filters :: "FilterWrapper list"
  kc_doRollups :: bool
  kc_enrich :: "JCHF list \<Rightarrow> JCHF list"

text \<open>The filters of \<open>NewKTranslate\<close>: one without a name applies to all flows, one with a name to
  the rollups of that name, and to nothing when there is none.\<close>

definition wire_filter :: "FilterWrapper \<Rightarrow> FilterWrapper list \<times> roller list \<Rightarrow> FilterWrapper list \<times> roller list" where
  "wire_filter f = (\<lambda>(fullSet, rolls).
     if FilterWrapper_GetName f = [] then (fullSet @ [f], rolls)
     else (fullSet, map (\<lambda>r. if FilterWrapper_GetName f = roller_GetName r then roller_SetFilter f r else r) rolls))"

definition wire_filters :: "FilterWrapper list \<Rightarrow> roller list \<Rightarrow> FilterWrapper list \<times> roller list" where
  "wire_filters filters rolls = fold wire_filter filters ([], rolls)"

section \<open>The filters\<close>

fun passes_filters :: "FilterWrapper list \<Rightarrow> JCHF \<Rightarrow> go_panic + bool \<times> JCHF" where
  "passes_filters [] msg = Inr (True, msg)"
| "passes_filters (f # fs) msg =
     go_bind (FilterWrapper_Filter f msg) (\<lambda>(b, msg'). if b then passes_filters fs msg' else Inr (False, msg'))"

fun reduce :: "FilterWrapper list \<Rightarrow> JCHF list \<Rightarrow> go_panic + JCHF list" where
  "reduce filters [] = Inr []"
| "reduce filters (msg # msgs) =
     go_bind (passes_filters filters msg) (\<lambda>(keep, msg').
     go_bind (reduce filters msgs) (\<lambda>out. Inr (if keep then msg' # out else out)))"

section \<open>Rollups and sampling\<close>

definition feed_rollups :: "bool \<Rightarrow> JCHF list \<Rightarrow> go_panic + gmap list option \<times> JCHF list" where
  "feed_rollups doRollups msgs =
     (if doRollups then map_sum id (\<lambda>rs. (Some (map fst rs), map snd rs)) (go_mapM JCHF_ToMap msgs) else Inr (None, msgs))"

text \<open>
  \<open>int(math.Max(float64(n) / float64(rate), 1))\<close>: for less than \<open>2 ^ 53\<close> messages the quotient is not
  rounded up to the next integer.
\<close>

definition sample_keep :: "nat \<Rightarrow> i64 \<Rightarrow> nat" where
  "sample_keep n rate = max (n div nat (sint rate)) 1"

definition sample_messages :: "KTranslate \<Rightarrow> (JCHF list \<Rightarrow> JCHF list) \<Rightarrow> bool \<Rightarrow> JCHF list \<Rightarrow> JCHF list \<times> nat" where
  "sample_messages kc shuffle doSample msgs =
     (if doSample \<and> 1 <s kc_SampleRate kc \<and> sint (kc_SampleMin kc) < int (length msgs)
      then (map (\<lambda>m. m\<lparr>SampleRate := SampleRate m * ucast (kc_SampleRate kc)\<rparr>) (shuffle msgs),
            sample_keep (length msgs) (kc_SampleRate kc))
      else (msgs, length msgs))"

section \<open>Messages of the inputs\<close>

definition handleInput :: "KTranslate \<Rightarrow> (JCHF list \<Rightarrow> JCHF list) \<Rightarrow> (JCHF list \<Rightarrow> 'e + 'o option) \<Rightarrow> JCHF list \<Rightarrow>
    go_panic + gmap list option \<times> 'o list" where
  "handleInput kc shuffle seri msgs =
     go_bind (if kc_filters kc \<noteq> [] then reduce (kc_filters kc) (kc_enrich kc msgs) else Inr (kc_enrich kc msgs)) (\<lambda>msgs1.
     go_bind (feed_rollups (kc_doRollups kc) msgs1) (\<lambda>(fed, msgs2).
       if \<not> kc_doRollups kc \<or> kc_RollupAndAlpha kc then
         (let doSample = (1 < length msgs2 \<and> ApplySample (hd msgs2));
              (msgs3, keep) = sample_messages kc shuffle doSample msgs2
          in case exportJchfBatches (kc_MaxFlowsPerMessage kc) seri msgs3 (word_of_int (int keep)) of
               None \<Rightarrow> Inl IndexOutOfRange | Some out \<Rightarrow> Inr (fed, out))
       else Inr (fed, [])))"

section \<open>Batches of Kentik flows\<close>

definition split_company :: "JCHF \<Rightarrow> (u64 \<Rightarrow> JCHF list option) \<Rightarrow> u64 \<Rightarrow> JCHF list option" where
  "split_company msg splits =
     splits(CompanyId msg \<mapsto> (case splits (CompanyId msg) of None \<Rightarrow> [] | Some l \<Rightarrow> l) @ [msg])"

text \<open>The companies in the order of the loop over the map: \<open>order\<close> rearranges the list of its keys.\<close>

definition company_batches :: "(u64 list \<Rightarrow> u64 list) \<Rightarrow> JCHF list \<Rightarrow> JCHF list list" where
  "company_batches order msgs =
     (let splits = fold split_company msgs Map.empty
      in List.map_filter splits (order (remdups (map CompanyId msgs))))"

text \<open>What \<open>sendBytesOn\<close> does with the collected messages: the maps for the rollups, the batches for the
  encoder, and the records as they go back to the pool.\<close>

record send_result =
  sr_fed :: "gmap list option"
  sr_batches :: "JCHF list list"
  sr_back :: "JCHF list"

definition sendBytesOn :: "KTranslate \<Rightarrow> (JCHF list \<Rightarrow> JCHF list) \<Rightarrow> (u64 list \<Rightarrow> u64 list) \<Rightarrow> JCHF list \<Rightarrow>
    go_panic + send_result" where
  "sendBytesOn kc shuffle order msgs =
     (if msgs = [] then Inr \<lparr>sr_fed = None, sr_batches = [], sr_back = []\<rparr>
      else go_bind (feed_rollups (kc_doRollups kc) (kc_enrich kc msgs)) (\<lambda>(fed, msgs1).
        if \<not> kc_doRollups kc \<or> kc_RollupAndAlpha kc then
          (let (msgs2, keep) = sample_messages kc shuffle True msgs1
           in Inr \<lparr>sr_fed = fed, sr_batches = company_batches order (take keep msgs2), sr_back = map JCHF_Reset msgs2\<rparr>)
        else Inr \<lparr>sr_fed = fed, sr_batches = [], sr_back = map JCHF_Reset msgs1\<rparr>))"

section \<open>Requests with flows\<close>

text \<open>The messages of a request as \<open>handleFlow\<close> changes them: not those of low resolution.\<close>

definition request_flow :: "i64 \<Rightarrow> string \<Rightarrow> u32 \<Rightarrow> bool \<Rightarrow> CHF \<Rightarrow> Flow option" where
  "request_flow cid deviceName did sender msg =
     (if chf_Big msg then None
      else
        (let m1 = (if chf_SampleAdj msg then msg else msg\<lparr>chf_SampleRate := chf_SampleRate msg * 100\<rparr>);
             m2 = (if chf_DeviceId m1 = 0 \<and> sender then m1\<lparr>chf_DeviceId := did\<rparr> else m1)
         in Some \<lparr>flow_CompanyId = cid, flow_CHF = m2, flow_DeviceName = deviceName\<rparr>))"

text \<open>Round robin over the processing threads: the flow and the queue it is offered to.\<close>

fun round_robin :: "nat \<Rightarrow> nat \<Rightarrow> Flow list \<Rightarrow> (nat \<times> Flow) list" where
  "round_robin threads nxt [] = []"
| "round_robin threads nxt (f # fs) = (nxt, f) # round_robin threads (if threads \<le> nxt + 1 then 0 else nxt + 1) fs"

definition dispatch :: "nat \<Rightarrow> i64 \<Rightarrow> string \<Rightarrow> u32 \<Rightarrow> bool \<Rightarrow> CHF list \<Rightarrow> (nat \<times> Flow) list" where
  "dispatch threads cid deviceName did sender msgs =
     round_robin threads 0 (List.map_filter (request_flow cid deviceName did sender) msgs)"

section \<open>The goroutine of a processing thread\<close>

text \<open>
  The queue of flows, the pool of records and the messages collected for the next batch.  A flow is
  \<open>held\<close> between the moment it was taken when the pool was empty and the moment it is put back;
  \<open>al_json\<close> are the records that requests of \<open>handleJson\<close> have taken.  The meters count as in the
  code; \<open>al_sent\<close> and \<open>al_fed\<close> record what went to the encoder and to the rollups, \<open>al_arrived\<close>,
  \<open>al_filtered\<close>, \<open>al_jsonDropped\<close> and \<open>al_lost\<close> count the flows offered, the flows the filters
  reject, the JSON requests that found no record and the records that were never given back.
\<close>

record alpha_state =
  al_queue :: "Flow list"
  al_pool :: "JCHF list"
  al_msgs :: "JCHF list"
  al_held :: "Flow list"
  al_json :: "JCHF list"
  al_now :: i64
  al_Flows :: nat
  al_DroppedFlows :: nat
  al_FlowsOut :: nat
  al_sent :: "JCHF list list"
  al_fed :: "gmap list list"
  al_arrived :: nat
  al_filtered :: nat
  al_jsonDropped :: nat
  al_lost :: nat

definition alpha_init :: "i64 \<Rightarrow> alpha_state" where
  "alpha_init ts = \<lparr>al_queue = [], al_pool = replicate kkc_CHAN_SLACK NewJCHF, al_msgs = [], al_held = [], al_json = [],
     al_now = ts, al_Flows = 0, al_DroppedFlows = 0, al_FlowsOut = 0, al_sent = [], al_fed = [], al_arrived = 0,
     al_filtered = 0, al_jsonDropped = 0, al_lost = 0\<rparr>"

text \<open>The non-blocking send of \<open>handleFlow\<close>.\<close>

definition alpha_offer :: "Flow \<Rightarrow> alpha_state \<Rightarrow> alpha_state" where
  "alpha_offer f s =
     (if length (al_queue s) < kkc_CHAN_SLACK
      then s\<lparr>al_queue := al_queue s @ [f], al_Flows := al_Flows s + 1, al_arrived := al_arrived s + 1\<rparr>
      else s\<lparr>al_DroppedFlows := al_DroppedFlows s + 1, al_arrived := al_arrived s + 1\<rparr>)"

definition alpha_send :: "KTranslate \<Rightarrow> (JCHF list \<Rightarrow> JCHF list) \<Rightarrow> (u64 list \<Rightarrow> u64 list) \<Rightarrow> alpha_state \<Rightarrow>
    go_panic + alpha_state" where
  "alpha_send kc shuffle order s =
     go_bind (sendBytesOn kc shuffle order (al_msgs s)) (\<lambda>r.
       Inr (s\<lparr>al_msgs := [], al_pool := al_pool s @ sr_back r, al_sent := al_sent s @ sr_batches r,
          al_fed := al_fed s @ (case sr_fed r of None \<Rightarrow> [] | Some rv \<Rightarrow> [rv]),
          al_FlowsOut := al_FlowsOut s + length (sr_back r)\<rparr>))"

text \<open>A flow and a record: convert, filter, collect, and send when the batch is full.\<close>

definition alpha_take :: "KTranslate \<Rightarrow> cat_env \<Rightarrow> string list \<Rightarrow> string list \<Rightarrow> (JCHF list \<Rightarrow> JCHF list) \<Rightarrow> (u64 list \<Rightarrow> u64 list) \<Rightarrow>
    Flow \<Rightarrow> JCHF \<Rightarrow> alpha_state \<Rightarrow> go_panic + alpha_state" where
  "alpha_take kc env uo ro shuffle order f j s =
     go_bind (passes_filters (kc_filters kc) (flowToJCHF env (al_now s) uo ro f j)) (\<lambda>(keep, jflow).
       if keep then
         (let s' = s\<lparr>al_msgs := al_msgs s @ [jflow]\<rparr>
          in if sint (kc_MaxFlowsPerMessage kc) \<le> int (length (al_msgs s')) then alpha_send kc shuffle order s' else Inr s')
       else Inr (s\<lparr>al_pool := al_pool s @ [JCHF_Reset jflow], al_filtered := al_filtered s + 1\<rparr>))"

definition alpha_requeue :: "Flow \<Rightarrow> alpha_state \<Rightarrow> alpha_state" where
  "alpha_requeue f s =
     (if length (al_queue s) < kkc_CHAN_SLACK then s\<lparr>al_queue := al_queue s @ [f], al_held := []\<rparr>
      else s\<lparr>al_DroppedFlows := al_DroppedFlows s + 1, al_held := []\<rparr>)"

definition permuting :: "('a list \<Rightarrow> 'a list) \<Rightarrow> bool" where
  "permuting p \<longleftrightarrow> (\<forall>xs. mset (p xs) = mset xs)"

text \<open>
  The steps.  Requests put flows into the queue and take records for JSON data; the goroutine takes a
  flow, gives back a flow that found no record, or sends when the ticker fires.  A record taken for a
  request comes back as whatever the request has made of it; when the data is no JSON object,
  \<open>handleJson\<close> returns before it gives the record back.  Giving back waits for room in the pool.
\<close>

inductive alpha_step :: "KTranslate \<Rightarrow> cat_env \<Rightarrow> alpha_state \<Rightarrow> alpha_state \<Rightarrow> bool" for kc env where
  offer: "alpha_step kc env s (alpha_offer f s)"
| take: "al_queue s = f # fs \<Longrightarrow> al_held s = [] \<Longrightarrow> al_pool s = j # js \<Longrightarrow> permuting shuffle \<Longrightarrow> permuting order \<Longrightarrow>
    alpha_take kc env uo ro shuffle order f j (s\<lparr>al_queue := fs, al_pool := js\<rparr>) = Inr s' \<Longrightarrow>
    length (al_pool s') \<le> kkc_CHAN_SLACK \<Longrightarrow> alpha_step kc env s s'"
| starve: "al_queue s = f # fs \<Longrightarrow> al_held s = [] \<Longrightarrow> al_pool s = [] \<Longrightarrow> permuting shuffle \<Longrightarrow> permuting order \<Longrightarrow>
    alpha_send kc shuffle order (s\<lparr>al_queue := fs, al_held := [f]\<rparr>) = Inr s' \<Longrightarrow>
    length (al_pool s') \<le> kkc_CHAN_SLACK \<Longrightarrow> alpha_step kc env s s'"
| requeue: "al_held s = [f] \<Longrightarrow> alpha_step kc env s (alpha_requeue f s)"
| tick: "al_held s = [] \<Longrightarrow> permuting shuffle \<Longrightarrow> permuting order \<Longrightarrow> alpha_send kc shuffle order s = Inr s' \<Longrightarrow>
    length (al_pool s') \<le> kkc_CHAN_SLACK \<Longrightarrow> alpha_step kc env s (s'\<lparr>al_now := ts\<rparr>)"
| json_take: "al_pool s = j # js \<Longrightarrow> alpha_step kc env s (s\<lparr>al_pool := js, al_json := j # al_json s\<rparr>)"
| json_drop: "al_pool s = [] \<Longrightarrow>
    alpha_step kc env s (s\<lparr>al_DroppedFlows := al_DroppedFlows s + 1, al_jsonDropped := al_jsonDropped s + 1\<rparr>)"
| json_give: "al_json s = us @ j # vs \<Longrightarrow> avroSet j' \<noteq> None \<Longrightarrow> length (al_pool s) < kkc_CHAN_SLACK \<Longrightarrow>
    alpha_step kc env s (s\<lparr>al_json := us @ vs, al_pool := al_pool s @ [JCHF_Reset j']\<rparr>)"
| json_fail: "al_json s = us @ j # vs \<Longrightarrow> alpha_step kc env s (s\<lparr>al_json := us @ vs, al_lost := al_lost s + 1\<rparr>)"

inductive_cases alpha_stepE: "alpha_step kc env s s'"

abbreviation alpha_reachable :: "KTranslate \<Rightarrow> cat_env \<Rightarrow> alpha_state \<Rightarrow> bool" where
  "alpha_reachable kc env s \<equiv> \<exists>ts. (alpha_step kc env)\<^sup>*\<^sup>* (alpha_init ts) s"

section \<open>Batches\<close>

lemma permuting_set [simp]: "permuting p \<Longrightarrow> set (p xs) = set xs"
  unfolding permuting_def by (metis set_mset_mset)

lemma permuting_length [simp]: "permuting p \<Longrightarrow> length (p xs) = length xs"
  unfolding permuting_def by (metis size_mset)

lemma permuting_mset: "permuting p \<Longrightarrow> mset (p xs) = mset xs"
  by (simp add: permuting_def)

lemma fold_split_company:
  "fold split_company msgs splits c =
     (case splits c of
        None \<Rightarrow> (if c \<in> CompanyId ` set msgs then Some (filter (\<lambda>m. CompanyId m = c) msgs) else None)
      | Some l \<Rightarrow> Some (l @ filter (\<lambda>m. CompanyId m = c) msgs))"
  by (induction msgs arbitrary: splits) (auto simp: split_company_def split: option.splits)

lemma company_batches_eq:
  assumes "permuting order"
  shows "company_batches order msgs = map (\<lambda>c. filter (\<lambda>m. CompanyId m = c) msgs) (order (remdups (map CompanyId msgs)))"
proof -
  have "fold split_company msgs Map.empty c = Some (filter (\<lambda>m. CompanyId m = c) msgs)" if "c \<in> set (order (remdups (map CompanyId msgs)))" for c
    using that assms by (simp add: fold_split_company)
  then show ?thesis
    by (simp add: company_batches_def map_filter_def cong: filter_cong)
qed

lemma mset_by_company:
  assumes "distinct cs" "CompanyId ` set msgs \<subseteq> set cs"
  shows "mset (concat (map (\<lambda>c. filter (\<lambda>m. CompanyId m = c) msgs) cs)) = mset msgs"
  using assms
proof (induction cs arbitrary: msgs)
  case (Cons c cs)
  have other: "map (\<lambda>c'. filter (\<lambda>m. CompanyId m = c') msgs) cs =
      map (\<lambda>c'. filter (\<lambda>m. CompanyId m = c') (filter (\<lambda>m. CompanyId m \<noteq> c) msgs)) cs"
    using Cons.prems(1) by (auto intro!: filter_cong)
  have rest: "mset (concat (map (\<lambda>c'. filter (\<lambda>m. CompanyId m = c') (filter (\<lambda>m. CompanyId m \<noteq> c) msgs)) cs)) =
      mset (filter (\<lambda>m. CompanyId m \<noteq> c) msgs)"
    using Cons.prems by (intro Cons.IH) auto
  have "mset (concat (map (\<lambda>c'. filter (\<lambda>m. CompanyId m = c') msgs) (c # cs))) =
      mset (filter (\<lambda>m. CompanyId m = c) msgs) + mset (filter (\<lambda>m. CompanyId m \<noteq> c) msgs)"
    by (simp only: list.map concat.simps mset_append other rest)
  also have "\<dots> = mset msgs"
    using multiset_partition [of "mset msgs" "\<lambda>m. CompanyId m = c"] by simp
  finally show ?case .
qed simp

lemma company_batches_mset:
  assumes "permuting order"
  shows "mset (concat (company_batches order msgs)) = mset msgs"
proof -
  have "distinct (order (remdups (map CompanyId msgs)))"
    using permuting_mset [OF assms, of "remdups (map CompanyId msgs)"] mset_eq_imp_distinct_iff by auto
  then show ?thesis
    unfolding company_batches_eq [OF assms] by (intro mset_by_company) (simp_all add: assms)
qed



section \<open>Sampling\<close>

text \<open>
  C18: when messages are sampled at one in \<open>rate\<close>, all of them stay in the slice, each
  with its sample rate multiplied in 32 bits, and of \<open>n\<close> messages \<open>n div rate\<close>, but at least one, are
  kept: never more than there are, and together with their rate they stand for at most the larger of
  \<open>n\<close> and \<open>rate\<close> messages.
\<close>

theorem sampling_scales_and_keeps:
  assumes "permuting shuffle" "1 <s kc_SampleRate kc" "sint (kc_SampleMin kc) < int (length msgs)" "msgs \<noteq> []"
    and "sample_messages kc shuffle True msgs = (sampled, keep)"
  shows "mset sampled = mset (map (\<lambda>m. m\<lparr>SampleRate := SampleRate m * ucast (kc_SampleRate kc)\<rparr>) msgs) \<and>
    1 \<le> keep \<and> keep \<le> length msgs \<and>
    int keep * sint (kc_SampleRate kc) \<le> max (int (length msgs)) (sint (kc_SampleRate kc)) \<and>
    int (length msgs) < (int keep + 1) * sint (kc_SampleRate kc)"
proof -
  let ?r = "sint (kc_SampleRate kc)" and ?n = "length msgs"
  have rate: "1 < ?r" using assms(2) by (simp add: word_sless_alt)
  have sampled: "sampled = map (\<lambda>m. m\<lparr>SampleRate := SampleRate m * ucast (kc_SampleRate kc)\<rparr>) (shuffle msgs)"
    and keep: "keep = max (?n div nat ?r) 1"
    using assms by (auto simp: sample_messages_def sample_keep_def)
  have "mset sampled = mset (map (\<lambda>m. m\<lparr>SampleRate := SampleRate m * ucast (kc_SampleRate kc)\<rparr>) msgs)"
    unfolding sampled mset_map by (simp add: permuting_mset [OF assms(1)])
  moreover have "?n div nat ?r \<le> ?n" "1 \<le> ?n"
    using assms(4) by (simp_all add: Suc_le_eq)
  moreover have div: "int (?n div nat ?r) = int ?n div ?r"
    using rate by (simp add: zdiv_int)
  moreover have "int ?n div ?r * ?r = int ?n - int ?n mod ?r" "0 \<le> int ?n mod ?r" "int ?n mod ?r < ?r"
    using rate by (simp_all add: minus_mod_eq_div_mult)
  then have "int ?n div ?r * ?r \<le> int ?n" "int ?n < (int ?n div ?r + 1) * ?r"
    unfolding distrib_right by linarith+
  moreover have "(int ?n div ?r + 1) * ?r \<le> (int keep + 1) * ?r"
    using rate keep div by (intro mult_right_mono) auto
  moreover have "int keep * ?r \<le> max (int ?n) ?r"
  proof (cases "?n div nat ?r \<le> 1")
    case True
    then show ?thesis using keep by simp
  next
    case False
    then have "int keep = int ?n div ?r" using keep div by simp
    then show ?thesis using \<open>int ?n div ?r * ?r \<le> int ?n\<close> by simp
  qed
  ultimately show ?thesis
    using keep by simp
qed

definition example_kc :: KTranslate where
  "example_kc = \<lparr>kc_MaxFlowsPerMessage = 2, kc_RollupAndAlpha = False, kc_SampleRate = 2, kc_SampleMin = 1,
     kc_filters = [], kc_doRollups = False, kc_enrich = (\<lambda>ms. ms)\<rparr>"

lemma permuting_rev [simp]: "permuting rev"
  by (simp add: permuting_def)

theorem sampling_scales_and_keeps_witness:
  "\<exists>sampled keep. sample_messages example_kc rev True [NewJCHF, NewJCHF, NewJCHF] = (sampled, keep) \<and> keep = 1 \<and>
     mset sampled = mset (map (\<lambda>m. m\<lparr>SampleRate := SampleRate m * 2\<rparr>) [NewJCHF, NewJCHF, NewJCHF])"
proof -
  have rate: "sint (2 :: i64) = 2" "sint (1 :: i64) = 1" by code_simp+
  obtain sampled keep where eq: "sample_messages example_kc rev True [NewJCHF, NewJCHF, NewJCHF] = (sampled, keep)"
    by fastforce
  have u: "(ucast (2 :: i64) :: u32) = 2" by code_simp
  from sampling_scales_and_keeps [OF permuting_rev _ _ _ eq] rate u
  have "mset sampled = mset (map (\<lambda>m. m\<lparr>SampleRate := SampleRate m * 2\<rparr>) [NewJCHF, NewJCHF, NewJCHF])"
    and "1 \<le> keep" "int keep * 2 \<le> 3"
    by (auto simp: example_kc_def word_sless_alt)
  with eq show ?thesis by (intro exI [of _ sampled] exI [of _ keep]) simp
qed

section \<open>The filters of the pipeline\<close>

text \<open>A record whose map can be read: the one it has cached, or the one of its columns.\<close>

definition view :: "JCHF \<Rightarrow> gmap" where
  "view j = (if hasSetAvro j then map_read (avroSet j) else map_read (avroSet j) ++ map_of (JCHF_columns j))"

lemma columns_cached [simp]:
  "JCHF_columns (j\<lparr>avroSet := m, hasSetAvro := b\<rparr>) = JCHF_columns j"
  "JCHF_columns (j\<lparr>avroSet := m\<rparr>) = JCHF_columns j" "JCHF_columns (j\<lparr>hasSetAvro := b\<rparr>) = JCHF_columns j"
  by (simp_all add: JCHF_columns_def)

text \<open>\<open>j'\<close> is \<open>j\<close>, possibly with its map cached.\<close>

definition uncached :: "JCHF \<Rightarrow> JCHF" where
  "uncached j = j\<lparr>avroSet := None, hasSetAvro := False\<rparr>"

definition same_flow :: "JCHF \<Rightarrow> JCHF \<Rightarrow> bool" where
  "same_flow j j' \<longleftrightarrow> view j' = view j \<and> avroSet j' \<noteq> None \<and> uncached j' = uncached j"

lemma same_flow_refl: "avroSet j \<noteq> None \<Longrightarrow> same_flow j j"
  by (simp add: same_flow_def)

lemma same_flow_trans: "same_flow a b \<Longrightarrow> same_flow b c \<Longrightarrow> same_flow a c"
  by (simp add: same_flow_def)

lemma ToMap_same_flow:
  assumes "avroSet j \<noteq> None"
  shows "\<exists>j'. JCHF_ToMap j = Inr (view j, j') \<and> same_flow j j' \<and> hasSetAvro j'"
proof (cases "hasSetAvro j")
  case True
  with assms show ?thesis by (simp add: JCHF_ToMap_def view_def same_flow_def)
next
  case False
  with assms show ?thesis by (auto simp: JCHF_ToMap_def view_def same_flow_def uncached_def Let_def)
qed

lemma FilterWrapper_Filter_view:
  assumes "avroSet j \<noteq> None"
  shows "case FilterWrapper_FilterMap fs (view j) of
      Inl e \<Rightarrow> FilterWrapper_Filter fs j = Inl e
    | Inr b \<Rightarrow> (\<exists>j'. FilterWrapper_Filter fs j = Inr (b, j') \<and> same_flow j j')"
  using assms
proof (induction fs arbitrary: j)
  case (Cons f fs)
  obtain j1 where j1: "JCHF_ToMap j = Inr (view j, j1)" "same_flow j j1"
    using ToMap_same_flow Cons.prems by blast
  then have "avroSet j1 \<noteq> None" "view j1 = view j" by (auto simp: same_flow_def)
  with Cons.IH [of j1] j1 show ?case
    by (cases "filter_FilterMap f (view j)")
      (auto split: sum.splits intro: same_flow_trans)
qed (simp add: same_flow_refl)

text \<open>All filters of the pipeline, by the maps of the messages.\<close>

lemma passes_filters_view:
  assumes "avroSet j \<noteq> None"
  shows "case passes_all fs (view j) of
      Inl e \<Rightarrow> passes_filters fs j = Inl e
    | Inr b \<Rightarrow> (\<exists>j'. passes_filters fs j = Inr (b, j') \<and> same_flow j j')"
  using assms
proof (induction fs arbitrary: j)
  case (Cons f fs)
  show ?case
  proof (cases "FilterWrapper_FilterMap f (view j)")
    case (Inl e)
    with FilterWrapper_Filter_view [OF Cons.prems, of f] show ?thesis by simp
  next
    case (Inr b)
    with FilterWrapper_Filter_view [OF Cons.prems, of f] obtain j1 where
      j1: "FilterWrapper_Filter f j = Inr (b, j1)" "same_flow j j1" by auto
    then have "avroSet j1 \<noteq> None" "view j1 = view j" by (auto simp: same_flow_def)
    with Cons.IH [of j1] j1 Inr show ?thesis
      by (auto split: sum.splits intro: same_flow_trans)
  qed
qed (simp add: same_flow_refl)

lemma passes_filters_same_flow:
  "passes_filters fs j = Inr (b, j') \<Longrightarrow> avroSet j \<noteq> None \<Longrightarrow> same_flow j j'"
  using passes_filters_view [of j fs] by (auto split: sum.splits)



section \<open>Records that come back\<close>

text \<open>What the arguments of the model must do: the enrichment changes messages, not how many there are.\<close>

definition enrich_ok :: "KTranslate \<Rightarrow> bool" where
  "enrich_ok kc \<longleftrightarrow> (\<forall>ms. length (kc_enrich kc ms) = length ms \<and>
     ((\<forall>m \<in> set ms. avroSet m \<noteq> None) \<longrightarrow> (\<forall>m \<in> set (kc_enrich kc ms). avroSet m \<noteq> None)))"

lemma flowToJCHF_avro: "avroSet (flowToJCHF env ts uo ro src dst) = avroSet dst" "hasSetAvro (flowToJCHF env ts uo ro src dst) = hasSetAvro dst"
  by (subst field_of_message [where g = "\<lambda>x. x"];
      simp add: settled_def undescribed_def flow_addresses_def flow_strings_def resolve_to_writes Let_def flow_numbers_def)+

lemma ToMap_all:
  assumes "\<forall>m \<in> set ms. avroSet m \<noteq> None"
  shows "\<exists>rs. go_mapM JCHF_ToMap ms = Inr rs \<and> map fst rs = map view ms \<and> list_all2 same_flow ms (map snd rs) \<and>
    (\<forall>m \<in> set (map snd rs). hasSetAvro m)"
  using assms
proof (induction ms)
  case (Cons m ms)
  then obtain rs where rs: "go_mapM JCHF_ToMap ms = Inr rs" "map fst rs = map view ms" "list_all2 same_flow ms (map snd rs)"
    "\<forall>m \<in> set (map snd rs). hasSetAvro m" by auto
  obtain m' where "JCHF_ToMap m = Inr (view m, m')" "same_flow m m'" "hasSetAvro m'"
    using ToMap_same_flow Cons.prems by auto
  with rs show ?case by auto
qed simp

lemma feed_rollups_ok:
  assumes "\<forall>m \<in> set ms. avroSet m \<noteq> None"
  shows "\<exists>fed ms'. feed_rollups b ms = Inr (fed, ms') \<and> list_all2 same_flow ms ms' \<and> (b \<longrightarrow> (\<forall>m \<in> set ms'. hasSetAvro m)) \<and>
    fed = (if b then Some (map view ms) else None)"
proof (cases b)
  case True
  with ToMap_all [OF assms] show ?thesis by (auto simp: feed_rollups_def)
next
  case False
  then show ?thesis using assms by (auto simp: feed_rollups_def list_all2_same same_flow_refl)
qed

lemma same_flow_list: "list_all2 same_flow ms ms' \<Longrightarrow> length ms' = length ms \<and> (\<forall>m \<in> set ms'. avroSet m \<noteq> None)"
  by (induction rule: list_all2_induct) (auto simp: same_flow_def)

lemma sample_messages_back:
  assumes "sample_messages kc shuffle b ms = (ms', keep)" "permuting shuffle"
  shows "length ms' = length ms \<and> ((\<forall>m \<in> set ms. avroSet m \<noteq> None) \<longrightarrow> (\<forall>m \<in> set ms'. avroSet m \<noteq> None))"
  using assms by (auto simp: sample_messages_def split: if_splits)

text \<open>Sending never panics, and every record comes back, ready to be used again.\<close>

definition ready :: "JCHF \<Rightarrow> bool" where
  "ready j \<longleftrightarrow> avroSet j \<noteq> None \<and> \<not> hasSetAvro j"

lemma ready_Reset [simp]: "avroSet j \<noteq> None \<Longrightarrow> ready (JCHF_Reset j)"
  by (simp add: ready_def JCHF_Reset_def)

lemma sendBytesOn_back:
  assumes "enrich_ok kc" "permuting shuffle" "\<forall>m \<in> set ms. avroSet m \<noteq> None"
  shows "\<exists>r. sendBytesOn kc shuffle order ms = Inr r \<and> length (sr_back r) = length ms \<and> (\<forall>j \<in> set (sr_back r). ready j)"
proof (cases "ms = []")
  case True
  then show ?thesis by (simp add: sendBytesOn_def)
next
  case False
  let ?e = "kc_enrich kc ms"
  have e: "length ?e = length ms" "\<forall>m \<in> set ?e. avroSet m \<noteq> None"
    using assms by (simp_all add: enrich_ok_def)
  obtain fed ms' where ms': "feed_rollups (kc_doRollups kc) ?e = Inr (fed, ms')" "list_all2 same_flow ?e ms'"
    using feed_rollups_ok [OF e(2)] by blast
  note returned = same_flow_list [OF ms'(2)]
  obtain ms2 keep where "sample_messages kc shuffle True ms' = (ms2, keep)" by fastforce
  with sample_messages_back [OF this assms(2)] returned e False ms' show ?thesis
    by (simp add: sendBytesOn_def)
qed

section \<open>The pool and the flows\<close>

text \<open>
  Every record is in the pool, in the batch, with a JSON request, or lost, and those in the pool are
  ready; every flow offered is in the queue, held, in the batch, sent, filtered or dropped.
\<close>

definition alpha_inv :: "alpha_state \<Rightarrow> bool" where
  "alpha_inv s \<longleftrightarrow>
     length (al_pool s) + length (al_msgs s) + length (al_json s) + al_lost s = kkc_CHAN_SLACK \<and>
     (\<forall>j \<in> set (al_pool s). ready j) \<and> (\<forall>j \<in> set (al_msgs s) \<union> set (al_json s). avroSet j \<noteq> None) \<and>
     al_arrived s + al_jsonDropped s = length (al_queue s) + length (al_held s) + length (al_msgs s) + al_FlowsOut s +
       al_filtered s + al_DroppedFlows s \<and>
     length (al_held s) \<le> 1 \<and> length (al_queue s) \<le> kkc_CHAN_SLACK"

lemma alpha_init_inv: "alpha_inv (alpha_init ts)"
  by (simp add: alpha_inv_def alpha_init_def ready_def NewJCHF_def)

lemma alpha_send_inv:
  assumes "enrich_ok kc" "permuting shuffle" "alpha_inv s"
  shows "\<exists>s'. alpha_send kc shuffle order s = Inr s' \<and> alpha_inv s' \<and> al_msgs s' = [] \<and>
    length (al_pool s') = length (al_pool s) + length (al_msgs s) \<and> al_queue s' = al_queue s \<and> al_held s' = al_held s \<and>
    al_json s' = al_json s \<and> al_lost s' = al_lost s"
proof -
  have "\<forall>m \<in> set (al_msgs s). avroSet m \<noteq> None"
    using assms(3) by (simp add: alpha_inv_def)
  from sendBytesOn_back [OF assms(1,2) this, of order] obtain r where
    r: "sendBytesOn kc shuffle order (al_msgs s) = Inr r" "length (sr_back r) = length (al_msgs s)" "\<forall>j \<in> set (sr_back r). ready j"
    by blast
  with assms(3) show ?thesis
    by (auto simp: alpha_send_def alpha_inv_def)
qed

text \<open>A flow and a record: the flow ends in the batch or is filtered, or the batch is sent.\<close>

lemma alpha_take_inv:
  assumes "enrich_ok kc" "permuting shuffle" "alpha_inv s" "al_queue s = f # fs" "al_held s = []" "al_pool s = j # js"
    and "alpha_take kc env uo ro shuffle order f j (s\<lparr>al_queue := fs, al_pool := js\<rparr>) = Inr s'"
  shows "alpha_inv s' \<and> al_queue s' = fs \<and> al_held s' = [] \<and> al_json s' = al_json s \<and> al_lost s' = al_lost s"
proof -
  let ?s = "s\<lparr>al_queue := fs, al_pool := js\<rparr>"
  have j: "avroSet j \<noteq> None" using assms(3,6) by (simp add: alpha_inv_def ready_def)
  from assms(7) obtain keep jflow where
    pass: "passes_filters (kc_filters kc) (flowToJCHF env (al_now s) uo ro f j) = Inr (keep, jflow)"
    by (cases "passes_filters (kc_filters kc) (flowToJCHF env (al_now s) uo ro f j)") (auto simp: alpha_take_def)
  then have jflow: "avroSet jflow \<noteq> None"
    using passes_filters_same_flow [OF pass] j by (simp add: flowToJCHF_avro same_flow_def)
  show ?thesis
  proof (cases keep)
    case False
    with pass assms jflow show ?thesis
      by (auto simp: alpha_take_def alpha_inv_def)
  next
    case True
    have inv: "alpha_inv (?s\<lparr>al_msgs := al_msgs s @ [jflow]\<rparr>)"
      using assms(3-6) jflow by (auto simp: alpha_inv_def)
    from alpha_send_inv [OF assms(1,2) inv, of order] True pass assms(5,7) inv show ?thesis
      by (auto simp: alpha_take_def Let_def split: if_splits)
  qed
qed

lemma alpha_step_inv:
  assumes "alpha_step kc env s s'" "enrich_ok kc" "alpha_inv s"
  shows "alpha_inv s'"
  using assms(1)
proof cases
  case (offer f)
  then show ?thesis using assms(3) by (auto simp: alpha_inv_def alpha_offer_def)
next
  case (take f fs j js shuffle order uo ro)
  then show ?thesis using alpha_take_inv assms by blast
next
  case (starve f fs shuffle order)
  have "alpha_inv (s\<lparr>al_queue := fs, al_held := [f]\<rparr>)"
    using starve assms(3) by (auto simp: alpha_inv_def)
  from alpha_send_inv [OF assms(2) starve(4) this, of order] starve show ?thesis by auto
next
  case (requeue f)
  then show ?thesis using assms(3) by (auto simp: alpha_inv_def alpha_requeue_def)
next
  case (tick shuffle order s1 ts)
  from alpha_send_inv [OF assms(2) tick(3) assms(3), of order] tick have "alpha_inv s1" by auto
  then show ?thesis using tick by (simp add: alpha_inv_def)
next
  case (json_take j js)
  then show ?thesis using assms(3) by (auto simp: alpha_inv_def ready_def)
next
  case json_drop
  then show ?thesis using assms(3) by (simp add: alpha_inv_def)
next
  case (json_give us j vs j')
  then show ?thesis using assms(3) by (auto simp: alpha_inv_def)
next
  case (json_fail us j vs)
  then show ?thesis using assms(3) by (auto simp: alpha_inv_def)
qed

lemma alpha_reachable_inv:
  assumes "alpha_reachable kc env s" "enrich_ok kc"
  shows "alpha_inv s"
proof -
  from assms(1) obtain ts where "(alpha_step kc env)\<^sup>*\<^sup>* (alpha_init ts) s" by blast
  then show ?thesis
    by (induction rule: rtranclp_induct) (auto intro: alpha_init_inv alpha_step_inv [OF _ assms(2)])
qed

text \<open>
  C2: in every state that a processing thread reaches, however requests, the ticker
  and the thread interleave, the records of the pool are all accounted for, and so is every flow: it
  waits in the queue or the batch, was counted as out by a send, was filtered or was counted as
  dropped; provided that the enrichment returns as many records as it is given.
\<close>

theorem pool_and_flows_accounted:
  assumes "alpha_reachable kc env s" "enrich_ok kc"
  shows "length (al_pool s) + length (al_msgs s) + length (al_json s) + al_lost s = 8000 \<and>
    al_arrived s + al_jsonDropped s = length (al_queue s) + length (al_held s) + length (al_msgs s) + al_FlowsOut s +
      al_filtered s + al_DroppedFlows s"
  using alpha_reachable_inv [OF assms] by (simp add: alpha_inv_def kkc_CHAN_SLACK_def)

theorem pool_and_flows_accounted_witness:
  "\<forall>env. \<exists>s. alpha_reachable example_kc env s \<and> al_arrived s = 1 \<and> al_jsonDropped s = 0 \<and> length (al_queue s) = 1 \<and>
     1 = length (al_queue s) + length (al_held s) + length (al_msgs s) + al_FlowsOut s + al_filtered s + al_DroppedFlows s"
proof
  fix env
  define s where "s = alpha_offer undefined (alpha_init 0)"
  have r: "alpha_reachable example_kc env s"
    unfolding s_def using alpha_step.offer by blast
  have e: "enrich_ok example_kc" by (simp add: enrich_ok_def example_kc_def)
  have n: "al_arrived s = 1 \<and> al_jsonDropped s = 0 \<and> length (al_queue s) = 1"
    by (simp add: s_def alpha_offer_def alpha_init_def kkc_CHAN_SLACK_def)
  show "\<exists>s. alpha_reachable example_kc env s \<and> al_arrived s = 1 \<and> al_jsonDropped s = 0 \<and> length (al_queue s) = 1 \<and>
     1 = length (al_queue s) + length (al_held s) + length (al_msgs s) + al_FlowsOut s + al_filtered s + al_DroppedFlows s"
    using pool_and_flows_accounted [OF r e] r n by (metis add.right_neutral)
qed

text \<open>
  Sending in a state that a processing thread reaches does not panic, and there is
  room in the pool for every record it gives back, so that the thread does not wait for itself.
\<close>

theorem sending_never_blocks:
  assumes "alpha_reachable kc env s" "enrich_ok kc" "permuting shuffle"
  shows "\<exists>s'. alpha_send kc shuffle order s = Inr s' \<and> length (al_pool s') \<le> 8000"
proof -
  have "alpha_inv s" by (rule alpha_reachable_inv [OF assms(1,2)])
  from alpha_send_inv [OF assms(2,3) this, of order] obtain s' where
    "alpha_send kc shuffle order s = Inr s'" "alpha_inv s'" by blast
  then show ?thesis by (auto simp: alpha_inv_def kkc_CHAN_SLACK_def)
qed

theorem sending_never_blocks_witness:
  "\<exists>s'. alpha_send example_kc rev rev (alpha_init 0) = Inr s' \<and> length (al_pool s') \<le> 8000"
  by (rule sending_never_blocks) (auto simp: enrich_ok_def example_kc_def)

section \<open>Records that do not come back\<close>

text \<open>
  C21: once 8000 requests with malformed JSON have each cost a record of the pool, the
  thread never converts, filters or sends a flow again, whatever else happens.
\<close>

theorem bad_json_starves_the_thread:
  assumes "alpha_reachable kc env s" "enrich_ok kc" "al_lost s = 8000" "(alpha_step kc env)\<^sup>*\<^sup>* s s'"
  shows "al_sent s' = al_sent s \<and> al_FlowsOut s' = al_FlowsOut s \<and> al_filtered s' = al_filtered s"
  using assms(4)
proof (induction rule: rtranclp_induct)
  case (step y z)
  have "alpha_reachable kc env y"
    using assms(1) step.hyps(1) by (meson rtranclp_trans)
  then have inv: "alpha_inv y" using assms(2) alpha_reachable_inv by blast
  have mono: "al_lost x \<le> al_lost x'" if "alpha_step kc env x x'" "alpha_inv x" for x x'
    using that(1)
  proof cases
    case (take f fs j js shuffle order uo ro)
    then show ?thesis using alpha_take_inv [OF assms(2) take(4) that(2) take(1-3) take(6)] by simp
  next
    case (starve f fs shuffle order)
    have "alpha_inv (x\<lparr>al_queue := fs, al_held := [f]\<rparr>)" using starve that(2) by (auto simp: alpha_inv_def)
    from alpha_send_inv [OF assms(2) starve(4) this, of order] starve show ?thesis by auto
  next
    case (tick shuffle order s1 ts)
    from alpha_send_inv [OF assms(2) tick(3) that(2), of order] tick show ?thesis by auto
  qed (auto simp: alpha_offer_def alpha_requeue_def)
  have "al_lost y \<ge> 8000"
    using step.hyps(1)
  proof (induction rule: rtranclp_induct)
    case base
    show ?case using assms(3) by simp
  next
    case (step a b)
    then show ?case
      using mono [OF step(2)] alpha_reachable_inv [OF _ assms(2)] assms(1) by (meson le_trans rtranclp_trans)
  qed
  moreover have "length (al_pool y) + length (al_msgs y) + length (al_json y) + al_lost y = 8000"
    using inv by (simp add: alpha_inv_def kkc_CHAN_SLACK_def)
  ultimately have "length (al_pool y) = 0" "length (al_msgs y) = 0"
    by linarith+
  then have lost: "al_pool y = []" "al_msgs y = []" by simp_all
  have none: "sendBytesOn kc shuffle order [] = Inr \<lparr>sr_fed = None, sr_batches = [], sr_back = []\<rparr>" for shuffle order
    by (simp add: sendBytesOn_def)
  have "al_sent z = al_sent y \<and> al_FlowsOut z = al_FlowsOut y \<and> al_filtered z = al_filtered y"
    using step.hyps(2) by cases (auto simp: lost none alpha_send_def alpha_offer_def alpha_requeue_def)
  with step.IH show ?case by simp
qed simp

lemma bad_json_steps:
  "n \<le> 8000 \<Longrightarrow> \<exists>s. alpha_reachable kc env s \<and> al_pool s = replicate (8000 - n) NewJCHF \<and> al_json s = [] \<and> al_lost s = n"
proof (induction n)
  case 0
  have "al_pool (alpha_init 0) = replicate (8000 - 0) NewJCHF \<and> al_json (alpha_init 0) = [] \<and> al_lost (alpha_init 0) = 0"
    by (simp add: alpha_init_def kkc_CHAN_SLACK_def)
  then show ?case by blast
next
  case (Suc n)
  then obtain ts s where s: "(alpha_step kc env)\<^sup>*\<^sup>* (alpha_init ts) s" "al_pool s = replicate (8000 - n) NewJCHF" "al_json s = []" "al_lost s = n"
    by auto
  have "8000 - n = Suc (8000 - Suc n)" using Suc.prems by simp
  then have "al_pool s = NewJCHF # replicate (8000 - Suc n) NewJCHF"
    using s(2) by simp
  from alpha_step.json_take [OF this, of kc env]
  have "alpha_step kc env s (s\<lparr>al_pool := replicate (8000 - Suc n) NewJCHF, al_json := [NewJCHF]\<rparr>)"
    using s(3) by simp
  moreover have "alpha_step kc env (s\<lparr>al_pool := replicate (8000 - Suc n) NewJCHF, al_json := [NewJCHF]\<rparr>)
      (s\<lparr>al_pool := replicate (8000 - Suc n) NewJCHF, al_json := [], al_lost := Suc n\<rparr>)"
    using alpha_step.json_fail [of "s\<lparr>al_pool := replicate (8000 - Suc n) NewJCHF, al_json := [NewJCHF]\<rparr>" "[]" NewJCHF "[]" kc env] s(4)
    by simp
  ultimately have "(alpha_step kc env)\<^sup>*\<^sup>* (alpha_init ts) (s\<lparr>al_pool := replicate (8000 - Suc n) NewJCHF, al_json := [], al_lost := Suc n\<rparr>)"
    using s(1) by (meson rtranclp.rtrancl_into_rtrancl)
  then show ?case by fastforce
qed

theorem bad_json_starves_the_thread_witness:
  "\<forall>env. \<exists>s. alpha_reachable example_kc env s \<and> al_lost s = 8000 \<and>
     (\<forall>s'. (alpha_step example_kc env)\<^sup>*\<^sup>* s s' \<longrightarrow> al_sent s' = al_sent s)"
proof
  fix env
  have e: "enrich_ok example_kc" by (simp add: enrich_ok_def example_kc_def)
  obtain s where s: "alpha_reachable example_kc env s" "al_lost s = 8000"
    using bad_json_steps [of 8000 example_kc env] by auto
  then show "\<exists>s. alpha_reachable example_kc env s \<and> al_lost s = 8000 \<and>
     (\<forall>s'. (alpha_step example_kc env)\<^sup>*\<^sup>* s s' \<longrightarrow> al_sent s' = al_sent s)"
    using bad_json_starves_the_thread [OF s(1) e s(2)] by blast
qed

section \<open>Progress\<close>

definition filters_ok :: "KTranslate \<Rightarrow> bool" where
  "filters_ok kc \<longleftrightarrow> (\<forall>j. avroSet j \<noteq> None \<longrightarrow> (\<exists>r. passes_filters (kc_filters kc) j = Inr r))"

lemma permuting_id: "permuting (\<lambda>xs. xs)"
  by (simp add: permuting_def)

lemma take_possible:
  assumes "enrich_ok kc" "filters_ok kc" "alpha_inv s" "al_queue s = f # fs" "al_held s = []" "al_pool s = j # js"
  shows "\<exists>s'. alpha_step kc env s s' \<and> alpha_inv s' \<and> al_queue s' = fs \<and> al_held s' = [] \<and> al_json s' = al_json s \<and> al_lost s' = al_lost s"
proof -
  let ?s = "s\<lparr>al_queue := fs, al_pool := js\<rparr>"
  have j: "avroSet j \<noteq> None" using assms(3,6) by (simp add: alpha_inv_def ready_def)
  then obtain keep jflow where
    pass: "passes_filters (kc_filters kc) (flowToJCHF env (al_now s) [] [] f j) = Inr (keep, jflow)"
    using assms(2) by (fastforce simp: filters_ok_def flowToJCHF_avro)
  have "avroSet jflow \<noteq> None"
    using passes_filters_same_flow [OF pass] j by (simp add: flowToJCHF_avro same_flow_def)
  then have inv: "alpha_inv (?s\<lparr>al_msgs := al_msgs s @ [jflow]\<rparr>)"
    using assms(3-6) by (auto simp: alpha_inv_def)
  obtain s2 where "alpha_send kc (\<lambda>xs. xs) (\<lambda>xs. xs) (?s\<lparr>al_msgs := al_msgs s @ [jflow]\<rparr>) = Inr s2"
    using alpha_send_inv [OF assms(1) permuting_id inv, of "\<lambda>xs. xs"] by blast
  then have "\<exists>s'. alpha_take kc env [] [] (\<lambda>xs. xs) (\<lambda>xs. xs) f j ?s = Inr s'"
    using pass by (simp add: alpha_take_def Let_def)
  then obtain s' where s': "alpha_take kc env [] [] (\<lambda>xs. xs) (\<lambda>xs. xs) f j ?s = Inr s'" by blast
  from alpha_take_inv [OF assms(1) permuting_id assms(3-6) s'] have ok: "alpha_inv s'" "al_queue s' = fs" "al_held s' = []"
      "al_json s' = al_json s" "al_lost s' = al_lost s"
    by auto
  then have "length (al_pool s') \<le> kkc_CHAN_SLACK" by (auto simp: alpha_inv_def)
  from alpha_step.take [OF assms(4-6) permuting_id permuting_id s' this] ok show ?thesis by blast
qed

lemma drain_queue:
  assumes "enrich_ok kc" "filters_ok kc"
  shows "alpha_inv s \<Longrightarrow> al_held s = [] \<Longrightarrow> al_json s = [] \<Longrightarrow> al_lost s < kkc_CHAN_SLACK \<Longrightarrow>
    \<exists>s'. (alpha_step kc env)\<^sup>*\<^sup>* s s' \<and> alpha_inv s' \<and> al_queue s' = [] \<and> al_held s' = []"
proof (induction "length (al_queue s)" arbitrary: s)
  case 0
  then show ?case by auto
next
  case (Suc n)
  then obtain f fs where q: "al_queue s = f # fs" "length fs = n" by (cases "al_queue s") auto
  have step: ?case if "(alpha_step kc env)\<^sup>*\<^sup>* s s1" "alpha_inv s1" "al_queue s1 = g # gs" "length gs = n" "al_held s1 = []"
      "al_json s1 = []" "al_lost s1 < kkc_CHAN_SLACK" "al_pool s1 \<noteq> []" for s1 g gs
  proof -
    from that obtain j js where "al_pool s1 = j # js" by (cases "al_pool s1") auto
    from take_possible [OF assms that(2,3,5) this] that obtain s2 where
      "alpha_step kc env s1 s2" "alpha_inv s2" "al_queue s2 = gs" "al_held s2 = []" "al_json s2 = []" "al_lost s2 < kkc_CHAN_SLACK"
      by fastforce
    moreover from this Suc.hyps(1) [of s2] that(4) obtain s3 where
      "(alpha_step kc env)\<^sup>*\<^sup>* s2 s3" "alpha_inv s3" "al_queue s3 = []" "al_held s3 = []" by auto
    ultimately show ?thesis
      using that(1) by (meson rtranclp.rtrancl_into_rtrancl rtranclp_trans)
  qed
  show ?case
  proof (cases "al_pool s")
    case Cons
    then show ?thesis using step [of s f fs] q Suc.prems by simp
  next
    case Nil
    then have msgs: "al_msgs s \<noteq> []" using Suc.prems by (auto simp: alpha_inv_def)
    have "alpha_inv (s\<lparr>al_queue := fs, al_held := [f]\<rparr>)"
      using Suc.prems q by (auto simp: alpha_inv_def)
    from alpha_send_inv [OF assms(1) permuting_id this, of "\<lambda>xs. xs"] obtain s1 where
      s1: "alpha_send kc (\<lambda>xs. xs) (\<lambda>xs. xs) (s\<lparr>al_queue := fs, al_held := [f]\<rparr>) = Inr s1" "alpha_inv s1" "al_queue s1 = fs"
        "al_held s1 = [f]" "al_json s1 = []" "al_lost s1 = al_lost s" "length (al_pool s1) = length (al_msgs s)"
      using Nil Suc.prems(3) by auto
    then have "length (al_pool s1) \<le> kkc_CHAN_SLACK" by (auto simp: alpha_inv_def)
    from alpha_step.starve [OF q(1) Suc.prems(2) Nil permuting_id permuting_id s1(1) this]
    have starve: "alpha_step kc env s s1" .
    have "length fs < kkc_CHAN_SLACK" using Suc.prems(1) q by (auto simp: alpha_inv_def)
    then have requeue: "alpha_step kc env s1 (s1\<lparr>al_queue := fs @ [f], al_held := []\<rparr>)"
      using alpha_step.requeue [OF s1(4), of kc env] s1(3) by (simp add: alpha_requeue_def)
    moreover have "alpha_inv (s1\<lparr>al_queue := fs @ [f], al_held := []\<rparr>)"
      using s1 \<open>length fs < kkc_CHAN_SLACK\<close> by (auto simp: alpha_inv_def)
    moreover obtain g gs where "fs @ [f] = g # gs" "length gs = n"
      using q(2) by (cases fs) auto
    moreover have "(alpha_step kc env)\<^sup>*\<^sup>* s (s1\<lparr>al_queue := fs @ [f], al_held := []\<rparr>)"
      using starve requeue by (meson converse_rtranclp_into_rtranclp r_into_rtranclp)
    moreover have "al_pool s1 \<noteq> []" using s1(7) msgs by auto
    ultimately show ?thesis
      using step [of "s1\<lparr>al_queue := fs @ [f], al_held := []\<rparr>" g gs] s1 Suc.prems(4) by simp
  qed
qed

text \<open>
  C20: as long as a record is left and no JSON request is under way, the thread can go on
  from every state it reaches until its queue and its batch are empty, with every flow sent, filtered
  or counted as dropped.
\<close>

theorem queued_flows_can_be_drained:
  assumes "alpha_reachable kc env s" "enrich_ok kc" "filters_ok kc" "al_json s = []" "al_lost s < 8000"
  shows "\<exists>s'. (alpha_step kc env)\<^sup>*\<^sup>* s s' \<and> al_queue s' = [] \<and> al_held s' = [] \<and> al_msgs s' = [] \<and>
    al_arrived s' + al_jsonDropped s' = al_FlowsOut s' + al_filtered s' + al_DroppedFlows s'"
proof -
  have lost: "al_lost s < kkc_CHAN_SLACK" using assms(5) by (simp add: kkc_CHAN_SLACK_def)
  have inv: "alpha_inv s" by (rule alpha_reachable_inv [OF assms(1,2)])
  obtain s1 where s1: "(alpha_step kc env)\<^sup>*\<^sup>* s s1" "alpha_inv s1" "al_held s1 = []" "al_json s1 = []" "al_lost s1 < kkc_CHAN_SLACK"
  proof (cases "al_held s")
    case Nil
    then show ?thesis using that [of s] inv assms(4) lost by simp
  next
    case (Cons f hs)
    then have held: "al_held s = [f]" using inv by (cases hs) (auto simp: alpha_inv_def)
    have "alpha_step kc env s (alpha_requeue f s)" by (rule alpha_step.requeue [OF held])
    moreover from this have "alpha_inv (alpha_requeue f s)" using alpha_step_inv assms(2) inv by blast
    moreover have "al_held (alpha_requeue f s) = []" "al_json (alpha_requeue f s) = al_json s" "al_lost (alpha_requeue f s) = al_lost s"
      by (simp_all add: alpha_requeue_def)
    ultimately show ?thesis using that [of "alpha_requeue f s"] r_into_rtranclp [of "alpha_step kc env"] assms(4) lost by auto
  qed
  from drain_queue [OF assms(2,3) s1(2-5)] obtain s2 where
    s2: "(alpha_step kc env)\<^sup>*\<^sup>* s1 s2" "alpha_inv s2" "al_queue s2 = []" "al_held s2 = []" by blast
  from alpha_send_inv [OF assms(2) permuting_id s2(2), of "\<lambda>xs. xs"] s2 obtain s3 where
    s3: "alpha_send kc (\<lambda>xs. xs) (\<lambda>xs. xs) s2 = Inr s3" "alpha_inv s3" "al_msgs s3 = []" "al_queue s3 = []" "al_held s3 = []" by auto
  then have "length (al_pool s3) \<le> kkc_CHAN_SLACK" by (auto simp: alpha_inv_def)
  from alpha_step.tick [OF s2(4) permuting_id permuting_id s3(1) this, of env 0]
  have "(alpha_step kc env)\<^sup>*\<^sup>* s (s3\<lparr>al_now := 0\<rparr>)"
    using s1(1) s2(1) by (meson rtranclp.rtrancl_into_rtrancl rtranclp_trans)
  moreover have "al_arrived s3 + al_jsonDropped s3 = al_FlowsOut s3 + al_filtered s3 + al_DroppedFlows s3"
    using s3 by (simp add: alpha_inv_def)
  ultimately show ?thesis using s3 by (intro exI [of _ "s3\<lparr>al_now := 0\<rparr>"]) simp
qed

theorem queued_flows_can_be_drained_witness:
  "\<forall>env f. \<exists>s'. (alpha_step example_kc env)\<^sup>*\<^sup>* (alpha_offer f (alpha_init 0)) s' \<and> al_queue s' = [] \<and> al_msgs s' = []"
proof (intro allI)
  fix env f
  let ?s = "alpha_offer f (alpha_init 0)"
  have "alpha_reachable example_kc env ?s" using alpha_step.offer by blast
  moreover have "enrich_ok example_kc" by (simp add: enrich_ok_def example_kc_def)
  moreover have "filters_ok example_kc" unfolding filters_ok_def by (simp add: example_kc_def) blast
  moreover have "al_json ?s = []" "al_lost ?s < 8000" by (simp_all add: alpha_offer_def alpha_init_def)
  ultimately show "\<exists>s'. (alpha_step example_kc env)\<^sup>*\<^sup>* ?s s' \<and> al_queue s' = [] \<and> al_msgs s' = []"
    using queued_flows_can_be_drained by blast
qed

section \<open>Cached maps\<close>

lemma cached_view: "hasSetAvro j \<Longrightarrow> JCHF_ToMap (j\<lparr>SampleRate := x\<rparr>) = Inr (view j, j\<lparr>SampleRate := x\<rparr>)"
  by (simp add: JCHF_ToMap_def view_def)

lemma view_sample_rate: "ready m \<Longrightarrow> view m ''sample_rate'' = Some (VInt64 (ucast (SampleRate m)))"
  by (simp add: ready_def view_def JCHF_columns_def)

text \<open>A message whose map is cached, sampled at a rate: its map still has the rate before.\<close>

lemma cached_rate_hidden:
  assumes "same_flow m m'" "hasSetAvro m'" "ready m"
  shows "SampleRate (m'\<lparr>SampleRate := SampleRate m' * k\<rparr>) = SampleRate m * k \<and>
    JCHF_ToMap (m'\<lparr>SampleRate := SampleRate m' * k\<rparr>) = Inr (view m, m'\<lparr>SampleRate := SampleRate m' * k\<rparr>) \<and>
    view m ''sample_rate'' = Some (VInt64 (ucast (SampleRate m)))"
proof -
  have "SampleRate (uncached m') = SampleRate (uncached m)" and view: "view m' = view m"
    using assms(1) unfolding same_flow_def by simp_all
  then have "SampleRate m' = SampleRate m" by (simp add: uncached_def)
  with view show ?thesis using cached_view [OF assms(2)] view_sample_rate [OF assms(3)] by auto
qed

lemma company_batches_within:
  assumes "permuting order"
  shows "set (concat (company_batches order (take n ms))) \<subseteq> set ms"
proof -
  have "set (concat (company_batches order (take n ms))) = set (take n ms)"
    by (rule mset_eq_setD) (rule company_batches_mset [OF assms])
  then show ?thesis by (simp only: set_take_subset)
qed

text \<open>
  C23: when the maps of the messages have gone to the rollups before the messages
  are sampled, every message that is sent has its sample rate multiplied, and its map, which
  formatters read, still has the rate before sampling.
\<close>

theorem sampled_rate_hidden_by_cache:
  assumes "kc_doRollups kc" "kc_RollupAndAlpha kc" "kc_enrich kc = (\<lambda>ms. ms)"
    and "1 <s kc_SampleRate kc" "sint (kc_SampleMin kc) < int (length msgs)"
    and "permuting shuffle" "permuting order" "\<forall>m \<in> set msgs. ready m"
  shows "\<exists>r. sendBytesOn kc shuffle order msgs = Inr r \<and>
    (\<forall>b \<in> set (concat (sr_batches r)). \<exists>m \<in> set msgs. \<exists>mapr. SampleRate b = SampleRate m * ucast (kc_SampleRate kc) \<and>
       JCHF_ToMap b = Inr (mapr, b) \<and> mapr ''sample_rate'' = Some (VInt64 (ucast (SampleRate m))))"
proof (cases "msgs = []")
  case True
  then show ?thesis by (simp add: sendBytesOn_def)
next
  case False
  have "\<forall>m \<in> set msgs. avroSet m \<noteq> None" using assms(8) by (simp add: ready_def)
  from feed_rollups_ok [OF this, of True] obtain fed ms' where
    ms': "feed_rollups True msgs = Inr (fed, ms')" "list_all2 same_flow msgs ms'" "\<forall>m \<in> set ms'. hasSetAvro m"
    by auto
  let ?scale = "\<lambda>m. m\<lparr>SampleRate := SampleRate m * ucast (kc_SampleRate kc)\<rparr>"
  let ?keep = "sample_keep (length ms') (kc_SampleRate kc)"
  let ?r = "\<lparr>sr_fed = fed, sr_batches = company_batches order (take ?keep (map ?scale (shuffle ms'))),
    sr_back = map JCHF_Reset (map ?scale (shuffle ms'))\<rparr>"
  have "length ms' = length msgs" using same_flow_list [OF ms'(2)] by simp
  then have "sample_messages kc shuffle True ms' = (map ?scale (shuffle ms'), ?keep)"
    using assms(4,5) by (simp add: sample_messages_def)
  then have sent: "sendBytesOn kc shuffle order msgs = Inr ?r"
    using False ms'(1) assms(1-3) by (simp add: sendBytesOn_def)
  have img: "set (map ?scale (shuffle ms')) = ?scale ` set ms'" using assms(6) by simp
  have within: "set (concat (sr_batches ?r)) \<subseteq> ?scale ` set ms'"
    using company_batches_within [OF assms(7), of ?keep "map ?scale (shuffle ms')"]
    unfolding img send_result.select_convs .
  have "\<exists>m \<in> set msgs. \<exists>mapr. SampleRate b = SampleRate m * ucast (kc_SampleRate kc) \<and>
      JCHF_ToMap b = Inr (mapr, b) \<and> mapr ''sample_rate'' = Some (VInt64 (ucast (SampleRate m)))"
    if "b \<in> set (concat (sr_batches ?r))" for b
  proof -
    from within that obtain m' where m': "m' \<in> set ms'" "b = ?scale m'" by blast
    with ms'(2) obtain m where m: "m \<in> set msgs" "same_flow m m'"
      by (metis in_set_conv_nth list_all2_conv_all_nth)
    from cached_rate_hidden [OF m(2), of "ucast (kc_SampleRate kc)"] m(1) m'(1) ms'(3) assms(8)
    show ?thesis unfolding m'(2) by blast
  qed
  with sent show ?thesis by blast
qed

theorem sampled_rate_hidden_by_cache_witness:
  "\<exists>r. sendBytesOn (example_kc\<lparr>kc_doRollups := True, kc_RollupAndAlpha := True\<rparr>) rev rev [NewJCHF\<lparr>SampleRate := 7\<rparr>, NewJCHF\<lparr>SampleRate := 7\<rparr>] = Inr r \<and>
     (\<forall>b \<in> set (concat (sr_batches r)). \<exists>mapr. SampleRate b = 14 \<and> JCHF_ToMap b = Inr (mapr, b) \<and> mapr ''sample_rate'' = Some (VInt64 7))"
proof -
  let ?kc = "example_kc\<lparr>kc_doRollups := True, kc_RollupAndAlpha := True\<rparr>"
  let ?msgs = "[NewJCHF\<lparr>SampleRate := 7\<rparr>, NewJCHF\<lparr>SampleRate := 7\<rparr>]"
  have w: "sint (2 :: i64) = 2" "sint (1 :: i64) = 1" "(ucast (2 :: i64) :: u32) = 2" "(ucast (7 :: u32) :: i64) = 7" by code_simp+
  have kc: "kc_doRollups ?kc" "kc_RollupAndAlpha ?kc" "kc_enrich ?kc = (\<lambda>ms. ms)" "1 <s kc_SampleRate ?kc"
    "sint (kc_SampleMin ?kc) < int (length ?msgs)" "\<forall>m \<in> set ?msgs. ready m" "kc_SampleRate ?kc = 2"
    by (simp_all add: example_kc_def word_sless_alt w ready_def NewJCHF_def)
  from sampled_rate_hidden_by_cache [OF kc(1-5) permuting_rev permuting_rev kc(6)]
  obtain r where "sendBytesOn ?kc rev rev ?msgs = Inr r"
    and b: "\<forall>b \<in> set (concat (sr_batches r)). \<exists>m \<in> set ?msgs. \<exists>mapr. SampleRate b = SampleRate m * ucast (kc_SampleRate ?kc) \<and>
       JCHF_ToMap b = Inr (mapr, b) \<and> mapr ''sample_rate'' = Some (VInt64 (ucast (SampleRate m)))" by blast
  moreover have "\<exists>mapr. SampleRate b = 14 \<and> JCHF_ToMap b = Inr (mapr, b) \<and> mapr ''sample_rate'' = Some (VInt64 7)"
    if "b \<in> set (concat (sr_batches r))" for b
  proof -
    from b that obtain m mapr where m: "m \<in> set ?msgs" and "SampleRate b = SampleRate m * ucast (kc_SampleRate ?kc)"
        "JCHF_ToMap b = Inr (mapr, b)" "mapr ''sample_rate'' = Some (VInt64 (ucast (SampleRate m)))" by blast
    moreover have "SampleRate m = 7" using m by auto
    ultimately show ?thesis by (intro exI [of _ mapr]) (simp add: kc(7) w(3,4))
  qed
  ultimately show ?thesis by blast
qed

lemma handleInput_chunks:
  assumes "kc_filters kc = []" "\<not> kc_doRollups kc" "\<not> 1 <s kc_SampleRate kc"
    and "int (length (kc_enrich kc msgs)) + max (sint (kc_MaxFlowsPerMessage kc)) 1 < 2 ^ 63"
  shows "handleInput kc shuffle seri msgs =
    Inr (None, concat (map (emit seri) (chunks (nat (max (sint (kc_MaxFlowsPerMessage kc)) 1)) (kc_enrich kc msgs))))"
proof -
  have "sample_messages kc shuffle b (kc_enrich kc msgs) = (kc_enrich kc msgs, length (kc_enrich kc msgs))" for b
    using assms(3) by (simp add: sample_messages_def)
  then show ?thesis
    using exportJchfBatches_chunks [of "length (kc_enrich kc msgs)" "kc_enrich kc msgs" "kc_MaxFlowsPerMessage kc" seri] assms
    by (simp add: handleInput_def feed_rollups_def)
qed

text \<open>
  C15: without filters, rollups and sampling every message of an input, after its
  enrichment, is handed to the encoder exactly once and in order, in batches within the configured
  size.
\<close>

theorem handleInput_delivers:
  assumes "kc_filters kc = []" "\<not> kc_doRollups kc" "\<not> 1 <s kc_SampleRate kc"
    and "int (length (kc_enrich kc msgs)) + max (sint (kc_MaxFlowsPerMessage kc)) 1 < 2 ^ 63"
  shows "\<exists>batches. handleInput kc shuffle seri msgs = Inr (None, concat (map (emit seri) batches)) \<and>
    concat batches = kc_enrich kc msgs \<and> (\<forall>b \<in> set batches. b \<noteq> [] \<and> int (length b) \<le> max (sint (kc_MaxFlowsPerMessage kc)) 1)"
proof -
  let ?ms = "kc_enrich kc msgs" and ?n = "nat (max (sint (kc_MaxFlowsPerMessage kc)) 1)"
  have "handleInput kc shuffle seri msgs = Inr (None, concat (map (emit seri) (chunks ?n ?ms)))"
    by (rule handleInput_chunks [OF assms])
  moreover have "concat (chunks ?n ?ms) = ?ms" by (rule chunks_concat) simp
  moreover have "b \<noteq> [] \<and> int (length b) \<le> max (sint (kc_MaxFlowsPerMessage kc)) 1" if "b \<in> set (chunks ?n ?ms)" for b
    using chunks_bounded [OF that] by auto
  ultimately show ?thesis by blast
qed

theorem handleInput_delivers_witness:
  "\<exists>batches. handleInput (example_kc\<lparr>kc_SampleRate := 1\<rparr>) rev (\<lambda>b. Inr (Some (length b)) :: unit + nat option) [NewJCHF, NewJCHF, NewJCHF] =
     Inr (None, concat (map (emit (\<lambda>b. Inr (Some (length b)) :: unit + nat option)) batches)) \<and> concat batches = [NewJCHF, NewJCHF, NewJCHF]"
proof -
  have w: "sint (2 :: i64) = 2" "sint (1 :: i64) = 1" by code_simp+
  show ?thesis
    using handleInput_delivers [of "example_kc\<lparr>kc_SampleRate := 1\<rparr>" "[NewJCHF, NewJCHF, NewJCHF]" rev "\<lambda>b. Inr (Some (length b)) :: unit + nat option"]
    by (auto simp: example_kc_def word_sless_alt w)
qed

section \<open>Sample rates of requests\<close>

lemma times_div_100:
  assumes "uint (w :: u32) * 100 < 2 ^ 32"
  shows "(w * 100) div 100 = w"
proof -
  have "uint (w * 100) = uint w * 100"
    using assms uint_mult_lem [of w 100] by simp
  then show ?thesis by (simp add: word_uint_eq_iff uint_div)
qed

text \<open>
  The sample rate of a message of a request, which \<open>handleFlow\<close> multiplies by 100
  when it is not adjusted yet, is the rate of the converted record as long as the product fits in 32
  bits.
\<close>

theorem request_rate_restored:
  assumes "request_flow cid name did sender msg = Some f" "\<not> chf_SampleAdj msg" "uint (chf_SampleRate msg) * 100 < 2 ^ 32"
  shows "SampleRate (flowToJCHF env ts uo ro f dst) = chf_SampleRate msg"
proof -
  have "SampleRate (flowToJCHF env ts uo ro f dst) = chf_SampleRate (flow_CHF f) div 100"
    by (subst field_of_message [where g = "\<lambda>x. x"];
      simp add: settled_def undescribed_def flow_addresses_def flow_strings_def resolve_to_writes Let_def flow_numbers_def)
  also have "chf_SampleRate (flow_CHF f) = chf_SampleRate msg * 100"
    using assms(1,2) by (auto simp: request_flow_def Let_def split: if_splits)
  finally show ?thesis using times_div_100 [OF assms(3)] by simp
qed

theorem request_rate_restored_witness:
  "\<exists>f. request_flow 1 ''edge'' 0 False (example_CHF\<lparr>chf_SampleAdj := False, chf_SampleRate := 7\<rparr>) = Some f \<and>
     SampleRate (flowToJCHF example_env 0 [] [] f NewJCHF) = 7"
proof -
  let ?msg = "example_CHF\<lparr>chf_SampleAdj := False, chf_SampleRate := 7\<rparr>"
  obtain f where f: "request_flow 1 ''edge'' 0 False ?msg = Some f"
    by (simp add: request_flow_def example_CHF_def Let_def)
  moreover have "\<not> chf_SampleAdj ?msg" "uint (chf_SampleRate ?msg) * 100 < 2 ^ 32" by simp_all
  ultimately show ?thesis using request_rate_restored [OF f] by auto
qed

section \<open>Wiring\<close>

text \<open>A filter applies to all flows, or to the rollups of its name, or is skipped.\<close>

lemma wire_filters_full: "fst (wire_filters filters rolls) = filter (\<lambda>f. FilterWrapper_GetName f = []) filters"
proof -
  have "fst (fold wire_filter filters (acc, rolls)) = acc @ filter (\<lambda>f. FilterWrapper_GetName f = []) filters" for acc rolls
    by (induction filters arbitrary: acc rolls) (auto simp: wire_filter_def)
  then show ?thesis by (simp add: wire_filters_def)
qed

text \<open>Round robin gives the \<open>k\<close>-th flow of a request to the queue \<open>k mod threads\<close>.\<close>

lemma round_robin_nth:
  "nxt < threads \<Longrightarrow> k < length fs \<Longrightarrow> round_robin threads nxt fs ! k = ((nxt + k) mod threads, fs ! k)"
proof (induction threads nxt fs arbitrary: k rule: round_robin.induct)
  case (2 threads nxt f fs)
  show ?case
  proof (cases k)
    case (Suc k')
    show ?thesis
    proof (cases "threads \<le> nxt + 1")
      case True
      then have "threads = Suc nxt" using 2 by simp
      then have "Suc (nxt + k') mod threads = k' mod threads" by (metis add_Suc mod_add_self1)
      with 2 Suc True show ?thesis by simp
    qed (use 2 Suc in simp)
  qed (use 2 in simp)
qed simp

end





