(* ===== verification/Spec2Isabelle.thy ===== *)
theory Spec2Isabelle
  imports Stitch Netflow_Decoder Netflow_Roundtrip Cat_Pipeline
begin

text \<open>
  ktranslate receives network flows, converts them to one kind of record, filters, samples, rolls up
  and enriches these records, and writes them to sinks in one of many formats.  This library models
  the path of a flow through the program, from the bytes of an input to the bytes of a NetFlow
  message, and the data structures on that path.

  \<^bold>\<open>The parts and how they interact.\<close>
  Kentik flows arrive in requests (\<open>pkg/cat/kentik.go\<close>, \<open>handleFlow\<close>) and are dealt out to processing
  threads.  Each thread (\<open>monitorAlphaChan\<close>) takes a record out of its pool, fills it from the flow
  (\<open>pkg/cat/jchf.go\<close>, \<open>flowToJCHF\<close>), filters and collects it; a full batch or a ticker sends the batch to
  the rollups (\<open>pkg/rollup\<close>) and, per company, to a formatter, and puts the records back into the pool.
  The other inputs hand messages to \<open>handleInput\<close> (\<open>pkg/cat/kkc.go\<close>), which filters, feeds the rollups,
  samples and exports in batches.  The NetFlow formatter (\<open>pkg/formats/netflow\<close>) writes messages and
  reads them back with the decoder of \<open>pkg/util/netflow\<close>.  The stitcher (\<open>pkg/stitch\<close>) pairs the two
  directions of a flow with the help of a ring buffer.

  \<^bold>\<open>Theories.\<close>
  \<^item> \<open>Go_Base\<close>, \<open>Go_Strings\<close>, \<open>Go_Net\<close>, \<open>Net_Text\<close>: panics as values of a sum type, slices with checked
    indices, and the functions of Go's \<open>strings\<close>, \<open>strconv\<close> and \<open>net\<close> that the code uses.
  \<^item> \<open>Pair_Cache\<close>, \<open>Ring_Buffer\<close>, \<open>Stitch\<close>: the contract of a one-shot cache, the ring buffer that
    meets it (\<open>pkg/stitch/ringbuffer/ringbuffer.go\<close>), and the stitcher that relies on it.  Shown: the
    representation invariant, refinement to a bounded first-in-first-out list when nothing is taken
    out, and when two directions are paired.
  \<^item> \<open>Kt_Types\<close>: the record \<open>JCHF\<close> of \<open>pkg/kt/types.go\<close> with its map view, \<open>Flatten\<close>, \<open>Reset\<close> and
    stitching key.
  \<^item> \<open>Nf_Read\<close>, \<open>Netflow_Fixed\<close>, \<open>Nf_Session\<close>, \<open>Nf_Translate\<close>, \<open>Nf_Sets\<close>, \<open>Netflow9\<close>, \<open>Ipfix\<close>, \<open>Nf_Elements\<close>,
    \<open>Netflow_Decoder\<close>: the decoder of NetFlow 1, 5, 6, 7, 9 and IPFIX, with template sessions and the
    dictionary of information elements.  The locale \<open>set_loop\<close> holds what the two template-based
    decoders share.  Shown: no input panics, exactly which inputs make the decoder hang, sources are
    isolated from each other, and data sets and version 5 packets round-trip.
  \<^item> \<open>Flow_Filter\<close>: \<open>pkg/filter\<close>, parsing and evaluation of filters, with the exact condition of a panic.
  \<^item> \<open>Rollup_Base\<close>, \<open>Rollup_Stats\<close>, \<open>Rollup_Cache\<close>, \<open>Rollup_Unique\<close>, \<open>Rollups\<close>: \<open>pkg/rollup\<close>.  The sum
    rollup is a step relation of callers, channel and goroutine.  Shown: batching and order do not
    matter, nothing is lost or counted twice, cache rollups are bounded and agree with sums.
  \<^item> \<open>Ic_Proto\<close>, \<open>Ic_Classes\<close>, \<open>Tag_Mapper\<close>: \<open>pkg/util/ic\<close>, \<open>pkg/util/cdn\<close> and \<open>pkg/maps/file\<close>, the tables
    and look-ups that the conversion uses.
  \<^item> \<open>Cat_Flow\<close>, \<open>Flow_Record\<close>, \<open>Flow_Pool\<close>: \<open>flowToJCHF\<close>, split at its comments, and what it does to the
    pooled record: which fields of the earlier flow survive, and what the new record carries.  The
    locale \<open>flow_invariant\<close> reduces a property of the converted record to the writes of the conversion.
  \<^item> \<open>Cat_Batches\<close>, \<open>Cat_Pipeline\<close>: batches of at most the configured size, over 64-bit integers, and the
    pipeline: filters, sampling, batches per company, and the processing thread as the step relation
    \<open>alpha_step\<close>.  Shown: every record and every flow is accounted for, sending does not block, the
    queue can be drained, and malformed JSON uses up the pool.
  \<^item> \<open>Netflow_Export\<close>, \<open>Netflow_Roundtrip\<close>: \<open>pkg/formats/netflow\<close>, in both versions and both directions,
    and what of the written flows can be read back.
  \<^item> \<open>Spec2Isabelle\<close>: properties across the parts: flows given to the pipeline reach a collector, and
    what happens to the MAC address of a Kentik flow on that way.

  \<^bold>\<open>Conventions.\<close>
  A Go struct is a record, a map that may be nil an option of a map, a fixed-width integer a word of
  that width, a panic or error the left side of a sum.  Where Go leaves an order open (a loop over a
  map, a shuffle, a sort of equal keys) it is an argument, and the properties hold for every one.
  Loops that may not end are partial functions into an option, where \<open>None\<close> means that the code does
  not return; no fuel is used.  Floating-point numbers occur in three places: a \<open>float32\<close> is kept as
  its bits, the share kept by sampling is an integer quotient (exact below \<open>2 ^ 53\<close> messages), and the
  shrinking of the batch size is a rational product.  A channel is the list of its contents with its
  capacity; unbuffered hand-over to sinks is the list of what was sent.  Clock readings are arguments.

  \<^bold>\<open>Parameters.\<close>
  The devices, tests and agents of the Kentik API, the resolver and the mappers are fields of
  \<open>cat_env\<close>.  The enrichment is a function on messages; what the pipeline needs of it is \<open>enrich_ok\<close>.
  The sketch and the hash of unique rollups (\<open>go-hll\<close>, \<open>siphash\<close>) and the statistics of \<open>montanaflynn/stats\<close>
  are arguments.  The accessors that Cap'n Proto generates are the fields of the record \<open>CHF\<close>.

  \<^bold>\<open>Not modelled.\<close>
  The SNMP, VPC, syslog and HTTP inputs, the other formatters, the sinks, the API client and the
  service framework: they are driven by network services and third-party packages, and no property
  here depends on them.  Of \<open>pkg/cat\<close>: start-up, reading requests, the field mapping of \<open>handleJson\<close>,
  \<open>doEnrichments\<close>.  Of the modelled packages: \<open>String\<close> and dump methods, and log output.
\<close>

section \<open>From an input to a NetFlow collector\<close>

text \<open>A collector reads the messages one after the other and collects the maps of the flows.\<close>

fun receive :: "informationElements \<Rightarrow> NetflowFormat \<Rightarrow> u8 list list \<Rightarrow> gmap list option" where
  "receive elements g [] = Some []"
| "receive elements g (raw # raws) =
     (case NetflowFormat_From elements g raw of
        Some (g', Inr maps) \<Rightarrow> map_option ((@) maps) (receive elements g' raws)
      | _ \<Rightarrow> None)"

lemma flow_maps_append:
  assumes "flow_maps xs = Inr a" "flow_maps ys = Inr b"
  shows "flow_maps (xs @ ys) = Inr (a @ b)"
proof -
  have app: "go_mapM f xs = Inr a \<Longrightarrow> go_mapM f ys = Inr b \<Longrightarrow> go_mapM f (xs @ ys) = Inr (a @ b)"
    for f :: "JCHF \<Rightarrow> go_panic + gmap"
  proof (induction xs arbitrary: a)
    case (Cons x xs)
    then show ?case
      by (cases "f x"; cases "go_mapM f xs") auto
  qed simp
  have inr: "map_sum NetflowPanic id r = Inr c \<Longrightarrow> r = Inr c" for r :: "go_panic + gmap list" and c
    by (cases r) simp_all
  show ?thesis
    using app [OF inr inr] assms by (simp add: flow_maps_def)
qed

lemma flow_maps_wire: "\<exists>maps. flow_maps (map wire_view ms) = Inr maps"
proof -
  have one: "\<exists>mapr. map_sum id fst (JCHF_ToMap (wire_view m)) = Inr mapr" for m
    by (simp add: JCHF_ToMap_def wire_view_def NewJCHF_def Let_def)
  have "\<exists>maps. go_mapM (\<lambda>j. map_sum id fst (JCHF_ToMap j)) (map wire_view ms) = Inr maps"
  proof (induction ms)
    case (Cons m ms)
    with one [of m] show ?case by (auto simp: id_def)
  qed simp
  then show ?thesis by (auto simp: flow_maps_def)
qed

lemma To_message:
  assumes "nff_version f = 9 \<or> nff_version f = 10" "b \<noteq> []"
  shows "\<exists>raw. NetflowFormat_To order f b = Inr (Some raw)"
  using assms by (auto simp: NetflowFormat_To_def pack9_def packIpfix_def Let_def)

lemma receive_messages:
  assumes "nff_version f = 9 \<or> nff_version f = 10" "set order = set proto_table"
    and "\<forall>b \<in> set bs. b \<noteq> [] \<and> length b \<le> 511 \<and> (\<forall>m \<in> set b. canonical_flow m)"
  shows "\<exists>maps. flow_maps (map wire_view (concat bs)) = Inr maps \<and>
    receive (builtin ord) g (concat (map (emit (NetflowFormat_To order f)) bs)) = Some maps"
  using assms(3)
proof (induction bs arbitrary: g)
  case Nil
  then show ?case by (simp add: flow_maps_def)
next
  case (Cons b bs)
  then obtain raw where raw: "NetflowFormat_To order f b = Inr (Some raw)"
    using To_message [OF assms(1), of b order] by auto
  obtain maps where maps: "flow_maps (map wire_view b) = Inr maps" using flow_maps_wire by blast
  have "map_option snd (NetflowFormat_From (builtin ord) g raw) = Some (flow_maps (map wire_view b))"
    using Cons.prems by (intro canonical_message [OF raw _ _ assms(2)]) auto
  then obtain g' where "NetflowFormat_From (builtin ord) g raw = Some (g', Inr maps)"
    using maps by auto
  moreover from Cons.IH [of g'] Cons.prems obtain maps' where
    "flow_maps (map wire_view (concat bs)) = Inr maps'"
    "receive (builtin ord) g' (concat (map (emit (NetflowFormat_To order f)) bs)) = Some maps'" by auto
  moreover from raw have "emit (NetflowFormat_To order f) b = [raw]" by (simp add: emit_def)
  ultimately show ?case
    using flow_maps_append [OF maps, of "map wire_view (concat bs)" maps'] by simp
qed

lemma clamp_range: "1 \<le> sint (clamp_max_flows ''netflow'' n) \<and> sint (clamp_max_flows ''netflow'' n) \<le> 510"
proof -
  have "sint (510 :: i64) = 510" "sint (0 :: i64) = 0" by code_simp+
  then show ?thesis
    by (auto simp: clamp_max_flows_def MaxNetflowsPerMessage_def word_sle_eq word_sless_alt)
qed

text \<open>
  C1: with the batch size that \<open>LoadConfig\<close> allows for the NetFlow format,
  whatever was configured, every flow that an input hands to the pipeline reaches a collector that
  decodes the messages: exactly once, in order, unchanged in every field that the format carries.
\<close>

theorem netflow_pipeline_delivers:
  assumes "kc_filters kc = []" "\<not> kc_doRollups kc" "\<not> 1 <s kc_SampleRate kc" "kc_enrich kc = (\<lambda>ms. ms)"
    and "kc_MaxFlowsPerMessage kc = clamp_max_flows ''netflow'' n"
    and "nff_version f = 9 \<or> nff_version f = 10" "set order = set proto_table"
    and "\<forall>m \<in> set msgs. canonical_flow m" "int (length msgs) < 2 ^ 62"
  shows "\<exists>raws maps. handleInput kc shuffle (NetflowFormat_To order f) msgs = Inr (None, raws) \<and>
    flow_maps (map wire_view msgs) = Inr maps \<and> receive (builtin ord) g raws = Some maps"
proof -
  let ?n = "nat (max (sint (kc_MaxFlowsPerMessage kc)) 1)"
  have range: "1 \<le> sint (kc_MaxFlowsPerMessage kc)" "sint (kc_MaxFlowsPerMessage kc) \<le> 510"
    using clamp_range [of n] assms(5) by simp_all
  then have room: "int (length (kc_enrich kc msgs)) + max (sint (kc_MaxFlowsPerMessage kc)) 1 < 2 ^ 63"
    using assms(4,9) by simp
  have concat: "concat (chunks ?n msgs) = msgs"
    by (rule chunks_concat) simp
  have "b \<noteq> [] \<and> length b \<le> 511 \<and> (\<forall>m \<in> set b. canonical_flow m)" if b: "b \<in> set (chunks ?n msgs)" for b
  proof -
    have "set b \<subseteq> set (concat (chunks ?n msgs))" using b by auto
    then have "set b \<subseteq> set msgs" unfolding concat .
    with assms(8) chunks_bounded [OF b] range show ?thesis by auto
  qed
  with receive_messages [OF assms(6,7), of "chunks ?n msgs" ord g] concat
  obtain maps where "flow_maps (map wire_view msgs) = Inr maps"
    "receive (builtin ord) g (concat (map (emit (NetflowFormat_To order f)) (chunks ?n msgs))) = Some maps" by auto
  moreover have "handleInput kc shuffle (NetflowFormat_To order f) msgs =
      Inr (None, concat (map (emit (NetflowFormat_To order f)) (chunks ?n msgs)))"
    using handleInput_chunks [OF assms(1-3) room, of shuffle "NetflowFormat_To order f"] assms(4) by simp
  ultimately show ?thesis by blast
qed

theorem netflow_pipeline_delivers_witness:
  "\<exists>raws maps. handleInput (example_kc\<lparr>kc_SampleRate := 1, kc_MaxFlowsPerMessage := clamp_max_flows ''netflow'' 10000\<rparr>) rev
       (NetflowFormat_To proto_table (projr (NewNetflowFormat False ''ipfix''))) [sample_flow, sample_flow] = Inr (None, raws) \<and>
     flow_maps [wire_view sample_flow, wire_view sample_flow] = Inr maps \<and>
     receive (builtin []) (projr (NewNetflowFormat False ''ipfix'')) raws = Some maps"
proof -
  let ?kc = "example_kc\<lparr>kc_SampleRate := 1, kc_MaxFlowsPerMessage := clamp_max_flows ''netflow'' 10000\<rparr>"
  let ?f = "projr (NewNetflowFormat False ''ipfix'')"
  have kc: "kc_filters ?kc = []" "\<not> kc_doRollups ?kc" "\<not> 1 <s kc_SampleRate ?kc" "kc_enrich ?kc = (\<lambda>ms. ms)"
    "kc_MaxFlowsPerMessage ?kc = clamp_max_flows ''netflow'' 10000"
    by (simp_all add: example_kc_def word_sless_alt)
  have "nff_version ?f = 9 \<or> nff_version ?f = 10" "\<forall>m \<in> set [sample_flow, sample_flow]. canonical_flow m"
    "int (length [sample_flow, sample_flow]) < 2 ^ 62"
    using sample_flow_canonical by (simp_all add: NewNetflowFormat_def)
  from netflow_pipeline_delivers [OF kc this(1) refl this(2,3), of rev "[]" ?f]
  show ?thesis by simp
qed

section \<open>From a Kentik flow to a NetFlow collector\<close>

lemma take_be_put: "k \<le> n \<Longrightarrow> take k (be_put n (w :: 'w::len word)) = be_put k (drop_bit (8 * (n - k)) w)"
proof (induction n arbitrary: w)
  case (Suc n)
  then show ?case
    by (cases "k = Suc n") (simp_all add: be_put.simps(2) Suc_diff_le le_Suc_eq drop_bit_drop_bit ac_simps)
qed (simp add: be_put.simps)

text \<open>
  C24: the NetFlow field of the source MAC address of a Kentik flow holds the
  upper six of the eight bytes of the word in which the flow has the address, and so loses its last
  two bytes: addresses that differ only there become the same.
\<close>

theorem kflow_mac_exported_shifted:
  "field_bytes order (flowToJCHF env ts uo ro src dst) 56 = be_put 6 (drop_bit 16 (chf_SrcEthMac (flow_CHF src)))"
proof -
  have "SrcEthMac (flowToJCHF env ts uo ro src dst) = HardwareAddr_String (be_put 8 (chf_SrcEthMac (flow_CHF src)))"
    by (rule field_of_message [where g = "\<lambda>x. HardwareAddr_String (be_put 8 (chf_SrcEthMac (flow_CHF src)))"])
      (simp_all add: settled_def undescribed_def flow_addresses_def flow_strings_def resolve_to_writes Let_def flow_numbers_def)
  moreover have "be_put 8 (chf_SrcEthMac (flow_CHF src)) \<noteq> []"
    by (metis be_put_length list.size(3) zero_neq_numeral)
  ultimately show ?thesis
    using take_be_put [of 6 8 "chf_SrcEthMac (flow_CHF src)"]
    by (simp add: field_bytes_def ParseMAC_String or_empty_def Let_def)
qed

end
